theory Spec2Isabelle
  imports Main "HOL-Library.Word" "HOL-Library.Product_Lexorder"
begin

section \<open>Data model of the sorted-collection rebuilder\<close>

text \<open>
  The embedding follows \<^verbatim>\<open>engine/sorted_collection/rebuilder.cpp\<close>. Persistent memory is
  a store from offsets to records; a \<^verbatim>\<open>DLRecord*\<close> is the offset of the record it
  points to, and \<^verbatim>\<open>nullptr\<close> is \<open>None\<close>.
\<close>

type_synonym PMemOffsetType = "64 word"
type_synonym TimestampType = "64 word"
type_synonym CollectionIDType = "64 word"
type_synonym DLRecord_ptr = "PMemOffsetType option"

datatype RecordType = Empty | SortedElem | SortedRecord | OtherRecordType

datatype RecordStatus = Normal | Outdated

datatype Status = Ok | NotFound | Abort | OtherStatus nat

text \<open>
  What stops a run without a status: a failed assertion of a build that compiles
  assertions in, and undefined behaviour (an access through an offset outside the mapped
  region, a read of an uninitialised variable, a remainder by zero).
\<close>

datatype fault = AssertionFailed | UndefinedBehaviour

text \<open>
  Modelled from the spec: the struct \<^verbatim>\<open>DLRecord\<close> is declared outside the sources at
  hand. Section 3 gives its observable attributes, which the source reads through the
  accessors \<^verbatim>\<open>GetRecordType\<close>, \<^verbatim>\<open>GetRecordStatus\<close>, \<^verbatim>\<open>Key\<close>, \<^verbatim>\<open>Value\<close>,
  \<^verbatim>\<open>GetTimestamp\<close>, \<^verbatim>\<open>Validate\<close>, \<^verbatim>\<open>HasExpired\<close>, \<^verbatim>\<open>GetRecordSize\<close> and the fields
  \<^verbatim>\<open>prev\<close>, \<^verbatim>\<open>next\<close>, \<^verbatim>\<open>old_version\<close>. Section 4.5 says that \<^verbatim>\<open>Destroy\<close> marks the
  record logically dead, which is the flag \<open>destroyed\<close>.
\<close>

record DLRecord =
  record_type :: RecordType
  record_status :: RecordStatus
  Key :: string
  Value :: string
  Timestamp :: TimestampType
  prev :: PMemOffsetType
  next_off :: PMemOffsetType
  old_version :: PMemOffsetType
  Validate :: bool
  HasExpired :: bool
  RecordSize :: "32 word"
  destroyed :: bool

type_synonym SpaceEntry = "PMemOffsetType \<times> 32 word"

text \<open>
  The allocator: the mapped region (its size and the records in it) and the extents that
  were handed back to it.
\<close>

record PMEMAllocator =
  pmem_size :: "64 word"
  media :: "PMemOffsetType \<Rightarrow> DLRecord"
  freed :: "SpaceEntry list"

text \<open>
  Modelled from the spec: the constant \<^verbatim>\<open>kNullPMemOffset\<close> and the allocator's
  \<^verbatim>\<open>offset2addr\<close>, \<^verbatim>\<open>offset2addr_checked\<close> and \<^verbatim>\<open>addr2offset\<close> are declared outside
  the sources at hand. Section 6 gives \<^verbatim>\<open>offset2addr<T>(offset) \<rightarrow> T*\<close>; the null offset
  (taken as the largest 64-bit value) and an offset outside the region give \<^verbatim>\<open>nullptr\<close>.
  The checked variant asserts that the offset is valid; an invalid one is an assertion
  failure where assertions are compiled in and an out-of-region access otherwise.
\<close>

definition kNullPMemOffset :: PMemOffsetType where
  "kNullPMemOffset = - 1"

definition validate_offset :: "PMEMAllocator \<Rightarrow> PMemOffsetType \<Rightarrow> bool" where
  "validate_offset a off = (off < pmem_size a \<and> off \<noteq> kNullPMemOffset)"

definition offset2addr :: "PMEMAllocator \<Rightarrow> PMemOffsetType \<Rightarrow> DLRecord_ptr" where
  "offset2addr a off = (if validate_offset a off then Some off else None)"

definition offset2addr_checked ::
  "bool \<Rightarrow> PMEMAllocator \<Rightarrow> PMemOffsetType \<Rightarrow> fault + PMemOffsetType" where
  "offset2addr_checked dbg a off =
     (if validate_offset a off then Inr off
      else if dbg then Inl AssertionFailed else Inl UndefinedBehaviour)"

record CheckPoint =
  CheckpointTS :: TimestampType

text \<open>
  Modelled from the spec: \<^verbatim>\<open>recoverToCheckpoint\<close> is declared outside the sources at
  hand. Sections 4.1 and 4.6: recovery targets a checkpoint when the checkpoint timestamp
  is greater than zero, and does not when it is zero or unset.
\<close>

definition recoverToCheckpoint :: "CheckPoint \<Rightarrow> bool" where
  "recoverToCheckpoint c = (0 < CheckpointTS c)"

subsection \<open>In-memory objects\<close>

text \<open>
  A DRAM node of a skiplist: the record it indexes, its height and its successor at each
  level. Nodes live in a store indexed by their address; \<^verbatim>\<open>nullptr\<close> is \<open>None\<close>.
\<close>

record SkiplistNode =
  node_record :: PMemOffsetType
  node_height :: nat
  node_next :: "nat \<Rightarrow> nat option"

record SortedCollectionConfigs =
  comparator_name :: string
  index_with_hashtable :: bool

type_synonym Comparator = nat

text \<open>
  Modelled from the spec: the class \<^verbatim>\<open>Skiplist\<close> is declared outside the sources at
  hand. Section 3: a handle over a head node and the persistent header, with a name, an
  ID, a comparator, an element count and the flag index-with-hashtable.
\<close>

record Skiplist =
  HeaderRecord :: PMemOffsetType
  HeaderNode :: nat
  Name :: string
  ID :: CollectionIDType
  comparator :: Comparator
  IndexWithHashtable :: bool
  Size :: nat

text \<open>
  The pointer stored in the hash index together with its \<^verbatim>\<open>PointerType\<close> tag: a
  persistent record, a DRAM node, a skiplist (by the ID under which the rebuilder holds
  it), or a pointer of a type that the rebuilder does not handle.
\<close>

datatype IndexPointer =
  DLRecord_pointer PMemOffsetType
| SkiplistNode_pointer nat
| Skiplist_pointer CollectionIDType
| Other_pointer

record HashEntry =
  entry_type :: RecordType
  entry_status :: RecordStatus
  entry_index :: IndexPointer

type_synonym HashTable = "(string \<times> HashEntry) list"

subsection \<open>The collaborators of the rebuilder\<close>

text \<open>
  The functions and constants of the engine that the rebuilder uses and whose code is
  outside the sources at hand are parameters of the model:
  whether assertions are compiled in (\<^verbatim>\<open>kvdk_assert\<close>, \<^verbatim>\<open>assert\<close>);
  \<^verbatim>\<open>Skiplist::FetchID\<close> and \<^verbatim>\<open>Skiplist::MatchType\<close>, which read a record;
  \<^verbatim>\<open>CheckAndRepairLinkage\<close>, which returns whether the record is linked and may repair
  the store; \<^verbatim>\<open>Skiplist::Remove\<close> and \<^verbatim>\<open>Skiplist::Replace\<close>, which return whether they
  succeeded and the store they leave; \<^verbatim>\<open>Skiplist::Destroy\<close>;
  \<^verbatim>\<open>Skiplist::DecodeSortedCollectionValue\<close>; the comparator registry; the hash table's
  \<^verbatim>\<open>Insert\<close>, which returns the status of its lookup and the table it leaves;
  \<^verbatim>\<open>Skiplist::NewNodeBuild\<close>, given by the height that its \<open>n\<close>-th call draws (\<open>None\<close>
  when that call returns \<^verbatim>\<open>nullptr\<close>); and the constants \<^verbatim>\<open>kRestoreSkiplistStride\<close> and
  \<^verbatim>\<open>kMaxHeight\<close>.
\<close>

record Collaborators =
  kvdk_debug :: bool
  FetchID :: "DLRecord \<Rightarrow> CollectionIDType"
  MatchType :: "DLRecord \<Rightarrow> bool"
  CheckAndRepairLinkage :: "PMEMAllocator \<Rightarrow> PMemOffsetType \<Rightarrow> bool \<times> PMEMAllocator"
  Remove :: "PMEMAllocator \<Rightarrow> PMemOffsetType \<Rightarrow> bool \<times> PMEMAllocator"
  Replace :: "PMEMAllocator \<Rightarrow> PMemOffsetType \<Rightarrow> PMemOffsetType \<Rightarrow> bool \<times> PMEMAllocator"
  DestroySkiplist :: "Skiplist \<Rightarrow> PMEMAllocator \<times> HashTable \<Rightarrow> PMEMAllocator \<times> HashTable"
  DecodeSortedCollectionValue :: "string \<Rightarrow> Status \<times> CollectionIDType \<times> SortedCollectionConfigs"
  GetComparator :: "string \<Rightarrow> Comparator option"
  Insert :: "HashTable \<Rightarrow> string \<Rightarrow> RecordType \<Rightarrow> RecordStatus \<Rightarrow> IndexPointer \<Rightarrow>
               Status \<times> HashTable"
  NewNodeBuild :: "nat \<Rightarrow> nat option"
  kRestoreSkiplistStride :: "64 word"
  kMaxHeight :: nat

section \<open>Checkpoint version resolution\<close>

text \<open>
  The loop of \<^verbatim>\<open>findCheckpointVersion\<close>. It may not return on a cyclic version chain,
  so its result is an option; \<open>Inl\<close> is a failed assertion. The two assertions on the
  older version (it validates, it has the key of the input) are checked before the
  comparison of collection IDs, as in the source.
\<close>

partial_function (option) findCheckpointVersion_loop ::
  "Collaborators \<Rightarrow> PMEMAllocator \<Rightarrow> TimestampType \<Rightarrow> CollectionIDType \<Rightarrow> string \<Rightarrow>
     DLRecord_ptr \<Rightarrow> (fault + DLRecord_ptr) option"
where
  "findCheckpointVersion_loop K a ts cid k cur =
     (case cur of
        None \<Rightarrow> Some (Inr None)
      | Some c \<Rightarrow>
          if \<not> ts < Timestamp (media a c) then Some (Inr (Some c))
          else
            (case offset2addr a (old_version (media a c)) of
               None \<Rightarrow> findCheckpointVersion_loop K a ts cid k None
             | Some n \<Rightarrow>
                 if kvdk_debug K \<and> \<not> Validate (media a n) then Some (Inl AssertionFailed)
                 else if kvdk_debug K \<and> Key (media a n) \<noteq> k then Some (Inl AssertionFailed)
                 else if FetchID K (media a n) \<noteq> cid
                   then findCheckpointVersion_loop K a ts cid k None
                   else findCheckpointVersion_loop K a ts cid k (Some n)))"

definition findCheckpointVersion ::
  "Collaborators \<Rightarrow> CheckPoint \<Rightarrow> PMEMAllocator \<Rightarrow> PMemOffsetType \<Rightarrow>
     (fault + DLRecord_ptr) option"
where
  "findCheckpointVersion K ckpt a pmem_record =
     (if \<not> recoverToCheckpoint ckpt then Some (Inr (Some pmem_record))
      else findCheckpointVersion_loop K a (CheckpointTS ckpt)
             (FetchID K (media a pmem_record)) (Key (media a pmem_record))
             (Some pmem_record))"

declare findCheckpointVersion_loop.simps [code]

section \<open>The rebuilder\<close>

record ThreadCache =
  unlinked_records :: "PMemOffsetType list"
  visited_skiplists :: "CollectionIDType \<Rightarrow> 64 word"

record RebuildSegment =
  visited :: bool
  start_node :: nat

text \<open>
  The state that the rebuilder reads and writes: the allocator and the hash table of the
  engine, its own members, and the store of DRAM nodes with the number of nodes
  allocated and of \<^verbatim>\<open>NewNodeBuild\<close> calls made so far, and the counter \<^verbatim>\<open>next_tid_\<close> that
  gives each rebuild worker its thread ID. The maps
  \<^verbatim>\<open>recovery_segments_\<close>, \<^verbatim>\<open>rebuild_skiplits_\<close> and \<^verbatim>\<open>invalid_skiplists_\<close> are
  association lists with one entry per key.
\<close>

record SortedCollectionRebuilder =
  pmem_allocator :: PMEMAllocator
  hash_table :: HashTable
  checkpoint :: CheckPoint
  segment_based_rebuild :: bool
  num_rebuild_threads :: nat
  rebuilder_thread_cache :: "ThreadCache list"
  linked_headers :: "PMemOffsetType list"
  recovery_segments :: "(PMemOffsetType \<times> RebuildSegment) list"
  rebuild_skiplits :: "(CollectionIDType \<times> Skiplist) list"
  invalid_skiplists :: "(CollectionIDType \<times> Skiplist) list"
  max_recovered_id :: CollectionIDType
  dram_nodes :: "nat \<Rightarrow> SkiplistNode"
  node_count :: nat
  build_calls :: nat
  next_tid :: nat

text \<open>\<^verbatim>\<open>m[k] = v\<close> on a map kept as an association list.\<close>

fun assign :: "('k \<times> 'v) list \<Rightarrow> 'k \<Rightarrow> 'v \<Rightarrow> ('k \<times> 'v) list" where
  "assign [] k v = [(k, v)]"
| "assign ((k', v') # m) k v = (if k' = k then (k, v) # m else (k', v') # assign m k v)"

subsection \<open>Record operations\<close>

text \<open>
  Modelled from the spec: \<^verbatim>\<open>CheckPrevLinkage\<close>, \<^verbatim>\<open>CheckNextLinkage\<close> and
  \<^verbatim>\<open>CheckLinkage\<close> are declared outside the sources at hand. Invariant I1 of section 3:
  a record is linked when its predecessor's \<^verbatim>\<open>next\<close> and its successor's \<^verbatim>\<open>prev\<close> are
  the record itself.
\<close>

definition CheckPrevLinkage :: "PMEMAllocator \<Rightarrow> PMemOffsetType \<Rightarrow> bool" where
  "CheckPrevLinkage a p = (next_off (media a (prev (media a p))) = p)"

definition CheckNextLinkage :: "PMEMAllocator \<Rightarrow> PMemOffsetType \<Rightarrow> bool" where
  "CheckNextLinkage a p = (prev (media a (next_off (media a p))) = p)"

definition CheckLinkage :: "PMEMAllocator \<Rightarrow> PMemOffsetType \<Rightarrow> bool" where
  "CheckLinkage a p = (CheckPrevLinkage a p \<and> CheckNextLinkage a p)"

text \<open>
  Modelled from the spec: the methods \<^verbatim>\<open>PersistPrevNT\<close>, \<^verbatim>\<open>PersistOldVersion\<close> and
  \<^verbatim>\<open>Destroy\<close> of a record are declared outside the sources at hand. Section 9: the
  first two are stores to the \<^verbatim>\<open>prev\<close> field and the \<^verbatim>\<open>old_version\<close> field of the
  record. Section 4.5: the third marks the record logically dead.
\<close>

definition PersistPrevNT :: "PMEMAllocator \<Rightarrow> PMemOffsetType \<Rightarrow> PMemOffsetType \<Rightarrow> PMEMAllocator" where
  "PersistPrevNT a p off = a\<lparr>media := (media a)(p := (media a p)\<lparr>prev := off\<rparr>)\<rparr>"

definition PersistOldVersion ::
  "PMEMAllocator \<Rightarrow> PMemOffsetType \<Rightarrow> PMemOffsetType \<Rightarrow> PMEMAllocator" where
  "PersistOldVersion a p off = a\<lparr>media := (media a)(p := (media a p)\<lparr>old_version := off\<rparr>)\<rparr>"

definition Destroy :: "PMEMAllocator \<Rightarrow> PMemOffsetType \<Rightarrow> PMEMAllocator" where
  "Destroy a p = a\<lparr>media := (media a)(p := (media a p)\<lparr>destroyed := True\<rparr>)\<rparr>"

text \<open>
  Modelled from the spec: the allocator's \<^verbatim>\<open>PurgeAndFree\<close> and \<^verbatim>\<open>BatchFree\<close> are declared
  outside the sources at hand. Sections 4.1 and 6: the record is purged and its extent
  is returned to the allocator; a batch of extents is returned to the allocator.
\<close>

definition PurgeAndFree :: "PMEMAllocator \<Rightarrow> PMemOffsetType \<Rightarrow> PMEMAllocator" where
  "PurgeAndFree a p =
     a\<lparr>media := (media a)(p := (media a p)\<lparr>destroyed := True\<rparr>),
       freed := freed a @ [(p, RecordSize (media a p))]\<rparr>"

definition BatchFree :: "PMEMAllocator \<Rightarrow> SpaceEntry list \<Rightarrow> PMEMAllocator" where
  "BatchFree a to_free = a\<lparr>freed := freed a @ to_free\<rparr>"

subsection \<open>Helpers of the rebuilder\<close>

text \<open>
  Modelled from the spec: \<^verbatim>\<open>addUnlinkedRecord\<close> is declared outside the sources at hand.
  Section 4.1: the record is added to the caller's thread-local unlinked list. The
  caller's cache is found as \<^verbatim>\<open>AddElement\<close> finds it, at the thread's ID modulo the
  number of caches; with no cache the remainder is undefined.
\<close>

definition addUnlinkedRecord ::
  "nat \<Rightarrow> SortedCollectionRebuilder \<Rightarrow> PMemOffsetType \<Rightarrow> fault + SortedCollectionRebuilder"
where
  "addUnlinkedRecord tid s p =
     (let caches = rebuilder_thread_cache s in
      if caches = [] then Inl UndefinedBehaviour
      else
        (let i = tid mod length caches;
             c = caches ! i
         in Inr (s\<lparr>rebuilder_thread_cache :=
                    caches[i := c\<lparr>unlinked_records := unlinked_records c @ [p]\<rparr>]\<rparr>)))"

text \<open>\<^verbatim>\<open>recovery_segments_.insert\<close> keeps an entry that the key already has.\<close>

definition addRecoverySegment ::
  "SortedCollectionRebuilder \<Rightarrow> nat \<Rightarrow> SortedCollectionRebuilder" where
  "addRecoverySegment s start =
     (if segment_based_rebuild s
      then
        (let r = node_record (dram_nodes s start) in
         case map_of (recovery_segments s) r of
           None \<Rightarrow> s\<lparr>recovery_segments :=
                       recovery_segments s @ [(r, \<lparr>visited = False, start_node = start\<rparr>)]\<rparr>
         | Some seg \<Rightarrow> s)
      else s)"

text \<open>
  A call of \<^verbatim>\<open>NewNodeBuild\<close> that draws a height allocates the node at the next address.
\<close>

definition new_node :: "SortedCollectionRebuilder \<Rightarrow> PMemOffsetType \<Rightarrow> nat \<Rightarrow>
    nat \<times> SortedCollectionRebuilder" where
  "new_node s r h =
     (node_count s,
      s\<lparr>dram_nodes := (dram_nodes s)(node_count s :=
            \<lparr>node_record = r, node_height = h, node_next = (\<lambda>l. None)\<rparr>),
        node_count := Suc (node_count s)\<rparr>)"

definition NewNodeBuild_call ::
  "Collaborators \<Rightarrow> SortedCollectionRebuilder \<Rightarrow> PMemOffsetType \<Rightarrow>
     nat option \<times> SortedCollectionRebuilder" where
  "NewNodeBuild_call K s r =
     (let s1 = s\<lparr>build_calls := Suc (build_calls s)\<rparr> in
      case NewNodeBuild K (build_calls s) of
        None \<Rightarrow> (None, s1)
      | Some h \<Rightarrow> (let (n, s2) = new_node s1 r h in (Some n, s2)))"

text \<open>
  The loop of \<^verbatim>\<open>AddElement\<close> that calls \<^verbatim>\<open>NewNodeBuild\<close> until it returns a node; it
  does not return when no call from here on does.
\<close>

partial_function (option) NewNodeBuild_retry ::
  "Collaborators \<Rightarrow> SortedCollectionRebuilder \<Rightarrow> PMemOffsetType \<Rightarrow>
     (nat \<times> SortedCollectionRebuilder) option"
where
  "NewNodeBuild_retry K s r =
     (case NewNodeBuild_call K s r of
        (None, s1) \<Rightarrow> NewNodeBuild_retry K s1 r
      | (Some n, s1) \<Rightarrow> Some (n, s1))"

declare NewNodeBuild_retry.simps [code]

subsection \<open>Candidate intake\<close>

text \<open>
  \<^verbatim>\<open>AddHeader\<close> and \<^verbatim>\<open>AddElement\<close>, called by the worker with thread ID \<open>tid\<close>.
\<close>

definition AddHeader ::
  "Collaborators \<Rightarrow> nat \<Rightarrow> SortedCollectionRebuilder \<Rightarrow> PMemOffsetType \<Rightarrow>
     fault + Status \<times> SortedCollectionRebuilder"
where
  "AddHeader K tid s header_record =
     (if kvdk_debug K \<and> record_type (media (pmem_allocator s) header_record) \<noteq> SortedRecord
      then Inl AssertionFailed
      else
        (let (linked_record, a) = CheckAndRepairLinkage K (pmem_allocator s) header_record;
             s1 = s\<lparr>pmem_allocator := a\<rparr>
         in if \<not> linked_record
            then
              (if \<not> recoverToCheckpoint (checkpoint s1)
               then Inr (Ok, s1\<lparr>pmem_allocator := PurgeAndFree a header_record\<rparr>)
               else
                 (case addUnlinkedRecord tid s1 header_record of
                    Inl f \<Rightarrow> Inl f
                  | Inr s2 \<Rightarrow> Inr (Ok, s2)))
            else Inr (Ok, s1\<lparr>linked_headers := linked_headers s1 @ [header_record]\<rparr>)))"

text \<open>
  The condition of line 76 to 83 is evaluated left to right and stops at the first
  conjunct that is false: the counter of the record's collection is incremented only in
  segment-based mode, and \<^verbatim>\<open>findCheckpointVersion\<close> is called only on every
  \<^verbatim>\<open>kRestoreSkiplistStride\<close>-th record of a collection.
\<close>

definition AddElement ::
  "Collaborators \<Rightarrow> nat \<Rightarrow> SortedCollectionRebuilder \<Rightarrow> PMemOffsetType \<Rightarrow>
     (fault + Status \<times> SortedCollectionRebuilder) option"
where
  "AddElement K tid s record_ptr =
     (if kvdk_debug K \<and> record_type (media (pmem_allocator s) record_ptr) \<noteq> SortedElem
      then Some (Inl AssertionFailed)
      else
        (let (linked_record, a) = CheckAndRepairLinkage K (pmem_allocator s) record_ptr;
             s1 = s\<lparr>pmem_allocator := a\<rparr>
         in if \<not> linked_record
            then
              (if \<not> recoverToCheckpoint (checkpoint s1)
               then Some (Inr (Ok, s1\<lparr>pmem_allocator := PurgeAndFree a record_ptr\<rparr>))
               else
                 (case addUnlinkedRecord tid s1 record_ptr of
                    Inl f \<Rightarrow> Some (Inl f)
                  | Inr s2 \<Rightarrow> Some (Inr (Ok, s2))))
            else if \<not> segment_based_rebuild s1 then Some (Inr (Ok, s1))
            else if rebuilder_thread_cache s1 = [] then Some (Inl UndefinedBehaviour)
            else
              (let caches = rebuilder_thread_cache s1;
                   i = tid mod length caches;
                   c = caches ! i;
                   cid = FetchID K (media a record_ptr);
                   n = visited_skiplists c cid + 1;
                   s2 = s1\<lparr>rebuilder_thread_cache :=
                          caches[i := c\<lparr>visited_skiplists := (visited_skiplists c)(cid := n)\<rparr>]\<rparr>
               in if kRestoreSkiplistStride K = 0 then Some (Inl UndefinedBehaviour)
                  else if n mod kRestoreSkiplistStride K \<noteq> 0 then Some (Inr (Ok, s2))
                  else
                    (case findCheckpointVersion K (checkpoint s2) a record_ptr of
                       None \<Rightarrow> None
                     | Some (Inl f) \<Rightarrow> Some (Inl f)
                     | Some (Inr v) \<Rightarrow>
                         if v = Some record_ptr \<and> record_type (media a record_ptr) = SortedElem
                         then
                           (case NewNodeBuild_retry K s2 record_ptr of
                              None \<Rightarrow> None
                            | Some (start, s3) \<Rightarrow> Some (Inr (Ok, addRecoverySegment s3 start)))
                         else Some (Inr (Ok, s2))))))"

subsection \<open>Rollback\<close>

text \<open>
  \<^verbatim>\<open>Rollback\<close> of the log entry with the offset \<open>log_offset\<close>. An assertion on the result
  of \<^verbatim>\<open>Replace\<close> or \<^verbatim>\<open>Remove\<close> follows the call; the store that the call left is kept
  when the assertion is not compiled in.
\<close>

definition Rollback ::
  "Collaborators \<Rightarrow> SortedCollectionRebuilder \<Rightarrow> PMemOffsetType \<Rightarrow>
     fault + Status \<times> SortedCollectionRebuilder"
where
  "Rollback K s log_offset =
     (let a = pmem_allocator s in
      case offset2addr_checked (kvdk_debug K) a log_offset of
        Inl f \<Rightarrow> Inl f
      | Inr elem \<Rightarrow>
          if Validate (media a elem) \<and> CheckPrevLinkage a elem
          then
            (if old_version (media a elem) \<noteq> kNullPMemOffset
             then
               (case offset2addr_checked (kvdk_debug K) a (old_version (media a elem)) of
                  Inl f \<Rightarrow> Inl f
                | Inr old \<Rightarrow>
                    (let (success, a1) = Replace K a elem old in
                     if kvdk_debug K \<and> \<not> success then Inl AssertionFailed
                     else Inr (Ok, s\<lparr>pmem_allocator := Destroy a1 elem\<rparr>)))
             else
               (let (success, a1) = Remove K a elem in
                if kvdk_debug K \<and> \<not> success then Inl AssertionFailed
                else Inr (Ok, s\<lparr>pmem_allocator := Destroy a1 elem\<rparr>)))
          else Inr (Ok, s\<lparr>pmem_allocator := Destroy a elem\<rparr>))"

subsection \<open>Hash index insertion\<close>

text \<open>
  The record type and status that \<^verbatim>\<open>insertHashIndex\<close> passes to \<^verbatim>\<open>Insert\<close> for each type
  of pointer, with the assertion on the type of the record behind it. For a pointer of
  another type the assertion is false, and without it the status passed is an
  uninitialised variable. A node or skiplist pointer that the rebuilder does not hold is
  dangling.
\<close>

definition index_record ::
  "SortedCollectionRebuilder \<Rightarrow> IndexPointer \<Rightarrow> (RecordType \<times> PMemOffsetType) option" where
  "index_record s p =
     (case p of
        DLRecord_pointer r \<Rightarrow> Some (SortedElem, r)
      | SkiplistNode_pointer n \<Rightarrow>
          if n < node_count s then Some (SortedElem, node_record (dram_nodes s n)) else None
      | Skiplist_pointer cid \<Rightarrow>
          (case map_of (rebuild_skiplits s) cid of
             None \<Rightarrow> None
           | Some sl \<Rightarrow> Some (SortedRecord, HeaderRecord sl))
      | Other_pointer \<Rightarrow> None)"

definition insertHashIndex ::
  "Collaborators \<Rightarrow> SortedCollectionRebuilder \<Rightarrow> string \<Rightarrow> IndexPointer \<Rightarrow>
     fault + Status \<times> SortedCollectionRebuilder"
where
  "insertHashIndex K s k index_ptr =
     (case index_record s index_ptr of
        None \<Rightarrow>
          if kvdk_debug K \<and> index_ptr = Other_pointer then Inl AssertionFailed
          else Inl UndefinedBehaviour
      | Some (rtype, r) \<Rightarrow>
          if kvdk_debug K \<and> record_type (media (pmem_allocator s) r) \<noteq> rtype
          then Inl AssertionFailed
          else
            (let (lookup_status, ht) =
                   Insert K (hash_table s) k rtype (record_status (media (pmem_allocator s) r))
                     index_ptr;
                 s1 = s\<lparr>hash_table := ht\<rparr>
             in case lookup_status of
                  NotFound \<Rightarrow> Inr (Ok, s1)
                | Ok \<Rightarrow> Inr (Abort, s1)
                | Abort \<Rightarrow> Inr (Abort, s1)
                | OtherStatus e \<Rightarrow> Inr (OtherStatus e, s1)))"

subsection \<open>Header resolution\<close>

text \<open>
  Modelled from the spec: the constructor of \<^verbatim>\<open>Skiplist\<close> is declared outside the sources
  at hand. Section 3: the skiplist is a handle over a head node and the persistent
  header; the head node is a DRAM node of the maximal height on the header record.
\<close>

definition new_Skiplist ::
  "Collaborators \<Rightarrow> SortedCollectionRebuilder \<Rightarrow> PMemOffsetType \<Rightarrow> string \<Rightarrow>
     CollectionIDType \<Rightarrow> Comparator \<Rightarrow> bool \<Rightarrow> Skiplist \<times> SortedCollectionRebuilder"
where
  "new_Skiplist K s header collection_name cid cmp index_with_hash =
     (let (n, s1) = new_node s header (kMaxHeight K)
      in (\<lparr>HeaderRecord = header, HeaderNode = n, Name = collection_name, ID = cid,
            comparator = cmp, IndexWithHashtable = index_with_hash, Size = 0\<rparr>, s1))"

text \<open>
  Lines 138 to 153 of \<^verbatim>\<open>initRebuildLists\<close>: the header has a newer version \<open>newer\<close>
  right after it in the sorted vector; its linkage is broken in place and it is queued as
  unlinked.
\<close>

definition initRebuildLists_outdated ::
  "Collaborators \<Rightarrow> nat \<Rightarrow> SortedCollectionRebuilder \<Rightarrow> PMemOffsetType \<Rightarrow> PMemOffsetType \<Rightarrow>
     fault + SortedCollectionRebuilder"
where
  "initRebuildLists_outdated K tid s header_record newer =
     (let a = pmem_allocator s in
      if kvdk_debug K \<and>
         \<not> (prev (media a header_record) = next_off (media a header_record) \<and>
            prev (media a header_record) = header_record)
      then Inl AssertionFailed
      else
        (let a1 = PersistPrevNT a header_record newer in
         if kvdk_debug K \<and>
            \<not> (\<not> CheckPrevLinkage a1 header_record \<and> \<not> CheckNextLinkage a1 header_record)
         then Inl AssertionFailed
         else addUnlinkedRecord tid (s\<lparr>pmem_allocator := a1\<rparr>) header_record))"

text \<open>
  Lines 156 to 242: the header that survives is decoded, its comparator is looked up, its
  checkpoint version is found and a skiplist is created for it. The status is \<^verbatim>\<open>Ok\<close>
  when the loop goes on to the next header, and the status that \<^verbatim>\<open>initRebuildLists\<close>
  returns at once otherwise.
\<close>

definition initRebuildLists_header ::
  "Collaborators \<Rightarrow> nat \<Rightarrow> SortedCollectionRebuilder \<Rightarrow> PMemOffsetType \<Rightarrow>
     (fault + Status \<times> SortedCollectionRebuilder) option"
where
  "initRebuildLists_header K tid s header_record =
     (let a = pmem_allocator s;
          collection_name = Key (media a header_record);
          (st, cid, s_configs) = DecodeSortedCollectionValue K (Value (media a header_record))
      in if st \<noteq> Ok then Some (Inr (st, s))
         else
           (case GetComparator K (comparator_name s_configs) of
              None \<Rightarrow> Some (Inr (Abort, s))
            | Some cmp \<Rightarrow>
                (let s1 = s\<lparr>max_recovered_id := max (max_recovered_id s) cid\<rparr> in
                 case findCheckpointVersion K (checkpoint s1) a header_record of
                   None \<Rightarrow> None
                 | Some (Inl f) \<Rightarrow> Some (Inl f)
                 | Some (Inr None) \<Rightarrow>
                     (let (skiplist, s2) =
                            new_Skiplist K s1 header_record collection_name cid cmp False
                      in Some (Inr (Ok, s2\<lparr>invalid_skiplists :=
                                            assign (invalid_skiplists s2) cid skiplist\<rparr>)))
                 | Some (Inr (Some valid_version_record)) \<Rightarrow>
                     if FetchID K (media a valid_version_record) \<noteq> cid
                     then
                       (let (skiplist, s2) =
                              new_Skiplist K s1 header_record collection_name cid cmp False
                        in Some (Inr (Ok, s2\<lparr>invalid_skiplists :=
                                              assign (invalid_skiplists s2) cid skiplist\<rparr>)))
                     else
                       (case
                          (if valid_version_record \<noteq> header_record
                           then
                             (let (success, a1) = Replace K a header_record valid_version_record in
                              if kvdk_debug K \<and> \<not> success then Inl AssertionFailed
                              else addUnlinkedRecord tid (s1\<lparr>pmem_allocator := a1\<rparr>) header_record)
                           else Inr s1)
                        of
                          Inl f \<Rightarrow> Some (Inl f)
                        | Inr s2 \<Rightarrow>
                            (let v = media (pmem_allocator s2) valid_version_record;
                                 outdated = (record_status v = Outdated \<or> HasExpired v)
                             in if outdated
                                then
                                  (let (skiplist, s3) =
                                         new_Skiplist K s2 valid_version_record collection_name
                                           cid cmp False
                                   in Some (Inr (Ok, s3\<lparr>invalid_skiplists :=
                                                         assign (invalid_skiplists s3) cid skiplist\<rparr>)))
                                else
                                  (let (skiplist, s3) =
                                         new_Skiplist K s2 valid_version_record collection_name
                                           cid cmp (index_with_hashtable s_configs);
                                       s4 = s3\<lparr>rebuild_skiplits :=
                                               assign (rebuild_skiplits s3) cid skiplist\<rparr>;
                                       s5 = (if segment_based_rebuild s4
                                             then addRecoverySegment s4 (HeaderNode skiplist)
                                             else s4);
                                       s6 = s5\<lparr>pmem_allocator :=
                                               PersistOldVersion (pmem_allocator s5)
                                                 valid_version_record kNullPMemOffset\<rparr>
                                   in case insertHashIndex K s6 (Name skiplist)
                                             (Skiplist_pointer cid) of
                                        Inl f \<Rightarrow> Some (Inl f)
                                      | Inr r \<Rightarrow> Some (Inr r)))))))"

text \<open>
  The loop of lines 133 to 243 over the sorted vector, and the clearing of the vector
  when the loop ends. The collection IDs of a header and of the one after it are read
  from the store as the loop finds it.
\<close>

fun initRebuildLists_loop ::
  "Collaborators \<Rightarrow> nat \<Rightarrow> SortedCollectionRebuilder \<Rightarrow> PMemOffsetType list \<Rightarrow>
     (fault + Status \<times> SortedCollectionRebuilder) option"
where
  "initRebuildLists_loop K tid s [] = Some (Inr (Ok, s\<lparr>linked_headers := []\<rparr>))"
| "initRebuildLists_loop K tid s (header_record # hs) =
     (if hs \<noteq> [] \<and>
         FetchID K (media (pmem_allocator s) header_record) =
           FetchID K (media (pmem_allocator s) (hd hs))
      then
        (case initRebuildLists_outdated K tid s header_record (hd hs) of
           Inl f \<Rightarrow> Some (Inl f)
         | Inr s1 \<Rightarrow> initRebuildLists_loop K tid s1 hs)
      else
        (case initRebuildLists_header K tid s header_record of
           None \<Rightarrow> None
         | Some (Inl f) \<Rightarrow> Some (Inl f)
         | Some (Inr (st, s1)) \<Rightarrow>
             if st \<noteq> Ok then Some (Inr (st, s1)) else initRebuildLists_loop K tid s1 hs))"

text \<open>
  \<^verbatim>\<open>std::sort\<close> with the comparison of lines 123 to 130 orders the vector by collection ID
  and, for equal IDs, by timestamp; the model takes the stable sort among the orders
  that \<^verbatim>\<open>std::sort\<close> may produce.
\<close>

definition header_order :: "Collaborators \<Rightarrow> PMEMAllocator \<Rightarrow> PMemOffsetType \<Rightarrow>
    CollectionIDType \<times> TimestampType" where
  "header_order K a h = (FetchID K (media a h), Timestamp (media a h))"

definition initRebuildLists ::
  "Collaborators \<Rightarrow> nat \<Rightarrow> SortedCollectionRebuilder \<Rightarrow>
     (fault + Status \<times> SortedCollectionRebuilder) option"
where
  "initRebuildLists K tid s =
     (let sorted_headers = sort_key (header_order K (pmem_allocator s)) (linked_headers s)
      in initRebuildLists_loop K tid (s\<lparr>linked_headers := sorted_headers\<rparr>) sorted_headers)"

subsection \<open>Reclamation\<close>

text \<open>
  The inner loop of \<^verbatim>\<open>cleanInvalidRecords\<close> over the unlinked records of one thread cache,
  with the extents batched so far.
\<close>

fun clean_unlinked_records ::
  "Collaborators \<Rightarrow> PMEMAllocator \<Rightarrow> SpaceEntry list \<Rightarrow> PMemOffsetType list \<Rightarrow>
     PMEMAllocator \<times> SpaceEntry list"
where
  "clean_unlinked_records K a to_free [] = (a, to_free)"
| "clean_unlinked_records K a to_free (pmem_record # rs) =
     (if \<not> MatchType K (media a pmem_record) \<or> \<not> CheckLinkage a pmem_record
      then
        (let a1 = Destroy a pmem_record
         in clean_unlinked_records K a1
              (to_free @ [(pmem_record, RecordSize (media a1 pmem_record))]) rs)
      else clean_unlinked_records K a to_free rs)"

text \<open>The outer loop over the thread caches: each batch is freed and each queue cleared.\<close>

fun clean_thread_caches ::
  "Collaborators \<Rightarrow> PMEMAllocator \<Rightarrow> ThreadCache list \<Rightarrow> PMEMAllocator \<times> ThreadCache list"
where
  "clean_thread_caches K a [] = (a, [])"
| "clean_thread_caches K a (thread_cache # cs) =
     (let (a1, to_free) = clean_unlinked_records K a [] (unlinked_records thread_cache);
          a2 = BatchFree a1 to_free;
          (a3, cs') = clean_thread_caches K a2 cs
      in (a3, thread_cache\<lparr>unlinked_records := []\<rparr> # cs'))"

definition cleanInvalidRecords ::
  "Collaborators \<Rightarrow> SortedCollectionRebuilder \<Rightarrow> SortedCollectionRebuilder" where
  "cleanInvalidRecords K s =
     (let (a, caches) = clean_thread_caches K (pmem_allocator s) (rebuilder_thread_cache s);
          (a', ht) = fold (\<lambda>(cid, sl). DestroySkiplist K sl) (invalid_skiplists s)
                       (a, hash_table s)
      in s\<lparr>pmem_allocator := a', hash_table := ht, rebuilder_thread_cache := caches,
            invalid_skiplists := []\<rparr>)"

subsection \<open>Index rebuild\<close>

text \<open>
  Modelled from the spec: \<^verbatim>\<open>RelaxedSetNext\<close> of a DRAM node and \<^verbatim>\<open>UpdateSize\<close> of a
  skiplist are declared outside the sources at hand. Section 4.4.2: \<^verbatim>\<open>UpdateSize\<close> adds
  to the element count, and the nodes of a level are linked through their next pointer
  at that level, which \<^verbatim>\<open>RelaxedSetNext\<close> stores.
\<close>

definition RelaxedSetNext ::
  "SortedCollectionRebuilder \<Rightarrow> nat \<Rightarrow> nat \<Rightarrow> nat option \<Rightarrow> SortedCollectionRebuilder" where
  "RelaxedSetNext s n l nx =
     s\<lparr>dram_nodes := (dram_nodes s)
          (n := (dram_nodes s n)\<lparr>node_next := (node_next (dram_nodes s n))(l := nx)\<rparr>)\<rparr>"

definition UpdateSize ::
  "SortedCollectionRebuilder \<Rightarrow> CollectionIDType \<Rightarrow> nat \<Rightarrow> SortedCollectionRebuilder" where
  "UpdateSize s cid n =
     s\<lparr>rebuild_skiplits :=
          map (\<lambda>(k, sl). if k = cid then (k, sl\<lparr>Size := Size sl + n\<rparr>) else (k, sl))
            (rebuild_skiplits s)\<rparr>"

record Splice =
  prevs :: "nat \<Rightarrow> nat"
  prev_pmem_record :: PMemOffsetType

text \<open>What an iteration of a loop does next.\<close>

datatype 'a loop_step = Continue 'a | Break 'a | Return Status SortedCollectionRebuilder

text \<open>
  Lines 513 to 518 and 365 to 369: the record is removed from the list and queued as
  unlinked.
\<close>

definition purge_element ::
  "Collaborators \<Rightarrow> nat \<Rightarrow> SortedCollectionRebuilder \<Rightarrow> PMemOffsetType \<Rightarrow>
     fault + SortedCollectionRebuilder"
where
  "purge_element K tid s next_record =
     (let (success, a1) = Remove K (pmem_allocator s) next_record in
      if kvdk_debug K \<and> \<not> success then Inl AssertionFailed
      else addUnlinkedRecord tid (s\<lparr>pmem_allocator := a1\<rparr>) next_record)"

text \<open>
  The part that \<^verbatim>\<open>rebuildSkiplistIndex\<close> (lines 509 to 527) and \<^verbatim>\<open>rebuildSegmentIndex\<close>
  (lines 362 to 378) have in common: the checkpoint version of \<open>next_record\<close> is found;
  with none, or an outdated one, the record is purged and the result is null; else the
  record is replaced by that version where they differ and queued as unlinked, and the
  result is the version.
\<close>

definition resolve_element ::
  "Collaborators \<Rightarrow> nat \<Rightarrow> SortedCollectionRebuilder \<Rightarrow> PMemOffsetType \<Rightarrow>
     (fault + DLRecord_ptr \<times> SortedCollectionRebuilder) option"
where
  "resolve_element K tid s next_record =
     (let a = pmem_allocator s in
      case findCheckpointVersion K (checkpoint s) a next_record of
        None \<Rightarrow> None
      | Some (Inl f) \<Rightarrow> Some (Inl f)
      | Some (Inr None) \<Rightarrow>
          (case purge_element K tid s next_record of
             Inl f \<Rightarrow> Some (Inl f)
           | Inr s1 \<Rightarrow> Some (Inr (None, s1)))
      | Some (Inr (Some valid_version_record)) \<Rightarrow>
          if record_status (media a valid_version_record) = Outdated
          then
            (case purge_element K tid s next_record of
               Inl f \<Rightarrow> Some (Inl f)
             | Inr s1 \<Rightarrow> Some (Inr (None, s1)))
          else if valid_version_record \<noteq> next_record
          then
            (let (success, a1) = Replace K a next_record valid_version_record in
             if kvdk_debug K \<and> \<not> success then Some (Inl AssertionFailed)
             else
               (case addUnlinkedRecord tid (s\<lparr>pmem_allocator := a1\<rparr>) next_record of
                  Inl f \<Rightarrow> Some (Inl f)
                | Inr s1 \<Rightarrow> Some (Inr (Some valid_version_record, s1))))
          else Some (Inr (Some valid_version_record, s)))"

text \<open>
  Lines 543 to 559 and 389 to 402: the hash index entry of the version \<open>v\<close>, pointing to
  its DRAM node when one was built and to the record otherwise, and the clearing of its
  \<^verbatim>\<open>old_version\<close>. The result is \<open>Inl\<close> of the status that the caller returns at once,
  or \<open>Inr\<close> of the state with which it goes on.
\<close>

definition index_element ::
  "Collaborators \<Rightarrow> bool \<Rightarrow> SortedCollectionRebuilder \<Rightarrow> string \<Rightarrow> nat option \<Rightarrow>
     PMemOffsetType \<Rightarrow>
     fault + (Status \<times> SortedCollectionRebuilder) + SortedCollectionRebuilder" where
  "index_element K build_hash_index s internal_key dram_node v =
     (case
        (if build_hash_index
         then insertHashIndex K s internal_key
                (case dram_node of
                   Some n \<Rightarrow> SkiplistNode_pointer n
                 | None \<Rightarrow> DLRecord_pointer v)
         else Inr (Ok, s))
      of
        Inl f \<Rightarrow> Inl f
      | Inr (st, s1) \<Rightarrow>
          if st \<noteq> Ok then Inr (Inl (st, s1))
          else Inr (Inr (s1\<lparr>pmem_allocator :=
                             PersistOldVersion (pmem_allocator s1) v kNullPMemOffset\<rparr>)))"

text \<open>
  The loop of lines 536 to 540 over the levels of a new node: at each level the node is
  linked after the splice's node and becomes the splice's node.
\<close>

fun splice_levels ::
  "SortedCollectionRebuilder \<Rightarrow> (nat \<Rightarrow> nat) \<Rightarrow> nat \<Rightarrow> nat list \<Rightarrow>
     (nat \<Rightarrow> nat) \<times> SortedCollectionRebuilder" where
  "splice_levels s ps dram_node [] = (ps, s)"
| "splice_levels s ps dram_node (i # levels) =
     splice_levels (RelaxedSetNext (RelaxedSetNext s (ps i) i (Some dram_node)) dram_node i None)
       (ps(i := dram_node)) dram_node levels"

text \<open>
  One iteration of the loop of \<^verbatim>\<open>rebuildSkiplistIndex\<close> (lines 499 to 562). A node higher
  than \<^verbatim>\<open>kMaxHeight\<close> would be linked beyond the array of the splice.
\<close>

definition rebuildSkiplistIndex_step ::
  "Collaborators \<Rightarrow> nat \<Rightarrow> Skiplist \<Rightarrow> nat \<times> Splice \<times> SortedCollectionRebuilder \<Rightarrow>
     (fault + (nat \<times> Splice \<times> SortedCollectionRebuilder) loop_step) option"
where
  "rebuildSkiplistIndex_step K tid skiplist st =
     (case st of (num_elems, spl, s) \<Rightarrow>
        (let a = pmem_allocator s in
         case offset2addr_checked (kvdk_debug K) a (next_off (media a (prev_pmem_record spl))) of
           Inl f \<Rightarrow> Some (Inl f)
         | Inr next_record \<Rightarrow>
             if next_record = HeaderRecord skiplist then Some (Inr (Break st))
             else
               (let internal_key = Key (media a next_record) in
                case resolve_element K tid s next_record of
                  None \<Rightarrow> None
                | Some (Inl f) \<Rightarrow> Some (Inl f)
                | Some (Inr (None, s1)) \<Rightarrow> Some (Inr (Continue (num_elems, spl, s1)))
                | Some (Inr (Some v, s1)) \<Rightarrow>
                    (let (dram_node, s2) = NewNodeBuild_call K s1 v in
                     case
                       (case dram_node of
                          None \<Rightarrow> Inr (prevs spl, s2)
                        | Some n \<Rightarrow>
                            if kMaxHeight K < node_height (dram_nodes s2 n)
                            then Inl UndefinedBehaviour
                            else Inr (splice_levels s2 (prevs spl) n
                                        [1 ..< Suc (node_height (dram_nodes s2 n))]))
                     of
                       Inl f \<Rightarrow> Some (Inl f)
                     | Inr (ps, s3) \<Rightarrow>
                         (case index_element K (IndexWithHashtable skiplist) s3 internal_key
                                 dram_node v of
                            Inl f \<Rightarrow> Some (Inl f)
                          | Inr (Inl (status, s4)) \<Rightarrow> Some (Inr (Return status s4))
                          | Inr (Inr s4) \<Rightarrow>
                              Some (Inr (Continue
                                (Suc num_elems, \<lparr>prevs = ps, prev_pmem_record = v\<rparr>, s4))))))))"

partial_function (option) rebuildSkiplistIndex_loop ::
  "Collaborators \<Rightarrow> nat \<Rightarrow> Skiplist \<Rightarrow> nat \<times> Splice \<times> SortedCollectionRebuilder \<Rightarrow>
     (fault + Status \<times> SortedCollectionRebuilder) option"
where
  "rebuildSkiplistIndex_loop K tid skiplist st =
     (case rebuildSkiplistIndex_step K tid skiplist st of
        None \<Rightarrow> None
      | Some (Inl f) \<Rightarrow> Some (Inl f)
      | Some (Inr (Return status s)) \<Rightarrow> Some (Inr (status, s))
      | Some (Inr (Break (num_elems, spl, s))) \<Rightarrow>
          Some (Inr (Ok, UpdateSize s (ID skiplist) num_elems))
      | Some (Inr (Continue st1)) \<Rightarrow> rebuildSkiplistIndex_loop K tid skiplist st1)"

declare rebuildSkiplistIndex_loop.simps [code]

text \<open>
  \<^verbatim>\<open>rebuildSkiplistIndex\<close> on the skiplist held under \<open>cid\<close>. The worker takes its thread ID
  from \<^verbatim>\<open>next_tid_\<close>. The level counters are 8-bit, so the loop of lines 494 to 497 does
  not end when \<^verbatim>\<open>kMaxHeight\<close> is 255 or more.
\<close>

definition rebuildSkiplistIndex ::
  "Collaborators \<Rightarrow> SortedCollectionRebuilder \<Rightarrow> CollectionIDType \<Rightarrow>
     (fault + Status \<times> SortedCollectionRebuilder) option"
where
  "rebuildSkiplistIndex K s cid =
     (case map_of (rebuild_skiplits s) cid of
        None \<Rightarrow> Some (Inl UndefinedBehaviour)
      | Some skiplist \<Rightarrow>
          if 255 \<le> kMaxHeight K then None
          else rebuildSkiplistIndex_loop K (next_tid s) skiplist
                 (0, \<lparr>prevs = (\<lambda>i. HeaderNode skiplist),
                      prev_pmem_record = HeaderRecord skiplist\<rparr>,
                  s\<lparr>next_tid := Suc (next_tid s)\<rparr>))"

text \<open>
  The tasks of one batch all run before their statuses are read; the model runs them one
  after the other. The result is the state and the statuses of the tasks in order.
\<close>

fun run_batch ::
  "(SortedCollectionRebuilder \<Rightarrow> CollectionIDType \<Rightarrow>
      (fault + Status \<times> SortedCollectionRebuilder) option) \<Rightarrow>
   SortedCollectionRebuilder \<Rightarrow> CollectionIDType list \<Rightarrow>
     (fault + Status list \<times> SortedCollectionRebuilder) option"
where
  "run_batch task s [] = Some (Inr ([], s))"
| "run_batch task s (cid # cids) =
     (case task s cid of
        None \<Rightarrow> None
      | Some (Inl f) \<Rightarrow> Some (Inl f)
      | Some (Inr (st, s1)) \<Rightarrow>
          (case run_batch task s1 cids of
             None \<Rightarrow> None
           | Some (Inl f) \<Rightarrow> Some (Inl f)
           | Some (Inr (sts, s2)) \<Rightarrow> Some (Inr (st # sts, s2))))"

text \<open>
  The loops of lines 570 to 583 and 301 to 314: the skiplists are taken in batches of
  \<^verbatim>\<open>num_rebuild_threads_\<close>; after each batch the first status that is not \<^verbatim>\<open>Ok\<close> is
  returned.
\<close>

function run_batches ::
  "(SortedCollectionRebuilder \<Rightarrow> CollectionIDType \<Rightarrow>
      (fault + Status \<times> SortedCollectionRebuilder) option) \<Rightarrow>
   nat \<Rightarrow> SortedCollectionRebuilder \<Rightarrow> CollectionIDType list \<Rightarrow>
     (fault + Status \<times> SortedCollectionRebuilder) option"
where
  "run_batches task n s cids =
     (if cids = [] then Some (Inr (Ok, s))
      else if n = 0 then Some (Inl UndefinedBehaviour)
      else
        (case run_batch task s (take n cids) of
           None \<Rightarrow> None
         | Some (Inl f) \<Rightarrow> Some (Inl f)
         | Some (Inr (sts, s1)) \<Rightarrow>
             (case filter (\<lambda>st. st \<noteq> Ok) sts of
                st # _ \<Rightarrow> Some (Inr (st, s1))
              | [] \<Rightarrow> run_batches task n s1 (drop n cids))))"
  by pat_completeness auto
termination
  by (relation "measure (\<lambda>(task, n, s, cids). length cids)") auto

definition listBasedIndexRebuild ::
  "Collaborators \<Rightarrow> SortedCollectionRebuilder \<Rightarrow>
     (fault + Status \<times> SortedCollectionRebuilder) option"
where
  "listBasedIndexRebuild K s =
     run_batches (rebuildSkiplistIndex K) (num_rebuild_threads s) s
       (map fst (rebuild_skiplits s))"

text \<open>
  One iteration of the loop of \<^verbatim>\<open>rebuildSegmentIndex\<close> (lines 346 to 415), for the
  segment's owner \<open>segment_owner\<close>. The state of the loop is the number of elements, the
  current node, the current record and the rebuilder.
\<close>

definition rebuildSegmentIndex_step ::
  "Collaborators \<Rightarrow> nat \<Rightarrow> Skiplist \<Rightarrow> nat \<times> nat \<times> PMemOffsetType \<times> SortedCollectionRebuilder \<Rightarrow>
     (fault + (nat \<times> nat \<times> PMemOffsetType \<times> SortedCollectionRebuilder) loop_step) option"
where
  "rebuildSegmentIndex_step K tid segment_owner st =
     (case st of (num_elems, cur_node, cur_record, s) \<Rightarrow>
        (let a = pmem_allocator s in
         case offset2addr_checked (kvdk_debug K) a (next_off (media a cur_record)) of
           Inl f \<Rightarrow> Some (Inl f)
         | Inr next_record \<Rightarrow>
             if next_record = HeaderRecord segment_owner
             then Some (Inr (Break (num_elems, cur_node, cur_record,
                                    RelaxedSetNext s cur_node 1 None)))
             else
               (case map_of (recovery_segments s) next_record of
                  None \<Rightarrow>
                    (let internal_key = Key (media a next_record) in
                     case resolve_element K tid s next_record of
                       None \<Rightarrow> None
                     | Some (Inl f) \<Rightarrow> Some (Inl f)
                     | Some (Inr (None, s1)) \<Rightarrow>
                         Some (Inr (Continue (num_elems, cur_node, cur_record, s1)))
                     | Some (Inr (Some v, s1)) \<Rightarrow>
                         (let (dram_node, s2) = NewNodeBuild_call K s1 v;
                              (cur_node1, s3) =
                                (case dram_node of
                                   None \<Rightarrow> (cur_node, s2)
                                 | Some n \<Rightarrow>
                                     (n, RelaxedSetNext
                                           (RelaxedSetNext s2 cur_node 1 (Some n)) n 1 None))
                          in case index_element K (IndexWithHashtable segment_owner) s3
                                    internal_key dram_node v of
                               Inl f \<Rightarrow> Some (Inl f)
                             | Inr (Inl (status, s4)) \<Rightarrow> Some (Inr (Return status s4))
                             | Inr (Inr s4) \<Rightarrow>
                                 Some (Inr (Continue (Suc num_elems, cur_node1, v, s4)))))
                | Some seg \<Rightarrow>
                    if record_type (media a (node_record (dram_nodes s (start_node seg)))) =
                         SortedElem
                    then Some (Inr (Break (num_elems, cur_node, cur_record,
                                           RelaxedSetNext s cur_node 1 (Some (start_node seg)))))
                    else Some (Inr (Break (num_elems, cur_node, cur_record,
                                           RelaxedSetNext s cur_node 1 None))))))"

partial_function (option) rebuildSegmentIndex_loop ::
  "Collaborators \<Rightarrow> nat \<Rightarrow> Skiplist \<Rightarrow> nat \<times> nat \<times> PMemOffsetType \<times> SortedCollectionRebuilder \<Rightarrow>
     (fault + Status \<times> SortedCollectionRebuilder) option"
where
  "rebuildSegmentIndex_loop K tid segment_owner st =
     (case rebuildSegmentIndex_step K tid segment_owner st of
        None \<Rightarrow> None
      | Some (Inl f) \<Rightarrow> Some (Inl f)
      | Some (Inr (Return status s)) \<Rightarrow> Some (Inr (status, s))
      | Some (Inr (Break (num_elems, cur_node, cur_record, s))) \<Rightarrow>
          Some (Inr (Ok, UpdateSize s (ID segment_owner) num_elems))
      | Some (Inr (Continue st1)) \<Rightarrow> rebuildSegmentIndex_loop K tid segment_owner st1)"

declare rebuildSegmentIndex_loop.simps [code]

text \<open>
  \<^verbatim>\<open>rebuildSegmentIndex\<close> from the node \<open>start\<close> for the skiplist held under \<open>cid\<close>, run by
  the worker \<open>tid\<close>. Lines 328 to 339 count the start record and insert its hash index
  entry when it is not the header; no line looks at the status of the start record. The
  assertion of line 340 calls \<^verbatim>\<open>findCheckpointVersion\<close> where assertions are compiled in.
\<close>

definition rebuildSegmentIndex ::
  "Collaborators \<Rightarrow> nat \<Rightarrow> SortedCollectionRebuilder \<Rightarrow> nat \<Rightarrow> CollectionIDType \<Rightarrow>
     (fault + Status \<times> SortedCollectionRebuilder) option"
where
  "rebuildSegmentIndex K tid s start cid =
     (case map_of (rebuild_skiplits s) cid of
        None \<Rightarrow> Some (Inl UndefinedBehaviour)
      | Some segment_owner \<Rightarrow>
          (let build_hash_index = IndexWithHashtable segment_owner;
               start_record = node_record (dram_nodes s start);
               a = pmem_allocator s
           in case
                (if start_record \<noteq> HeaderRecord segment_owner
                 then
                   (if kvdk_debug K \<and> record_type (media a start_record) \<noteq> SortedElem
                    then Inl AssertionFailed
                    else if build_hash_index
                    then
                      (case insertHashIndex K s (Key (media a start_record))
                              (SkiplistNode_pointer start) of
                         Inl f \<Rightarrow> Inl f
                       | Inr (st, s1) \<Rightarrow>
                           if st \<noteq> Ok then Inr (Inl (st, s1)) else Inr (Inr (1, s1)))
                    else Inr (Inr (1, s)))
                 else Inr (Inr (0, s)))
              of
                Inl f \<Rightarrow> Some (Inl f)
              | Inr (Inl (st, s1)) \<Rightarrow> Some (Inr (st, s1))
              | Inr (Inr (num_elems, s1)) \<Rightarrow>
                  (case
                     (if kvdk_debug K
                      then findCheckpointVersion K (checkpoint s1) (pmem_allocator s1) start_record
                      else Some (Inr (Some start_record)))
                   of
                     None \<Rightarrow> None
                   | Some (Inl f) \<Rightarrow> Some (Inl f)
                   | Some (Inr v) \<Rightarrow>
                       if v \<noteq> Some start_record then Some (Inl AssertionFailed)
                       else
                         rebuildSegmentIndex_loop K tid segment_owner
                           (num_elems, start, start_record,
                            s1\<lparr>pmem_allocator :=
                                 PersistOldVersion (pmem_allocator s1) start_record
                                   kNullPMemOffset\<rparr>))))"

text \<open>
  The loop of \<^verbatim>\<open>linkHighDramNodes\<close> (lines 471 to 481) along level 1: a node higher than
  1 is linked after the splice's node at each of its levels from 2 on.
\<close>

fun link_levels ::
  "SortedCollectionRebuilder \<Rightarrow> (nat \<Rightarrow> nat) \<Rightarrow> nat \<Rightarrow> nat list \<Rightarrow>
     (nat \<Rightarrow> nat) \<times> SortedCollectionRebuilder" where
  "link_levels s ps next_node [] = (ps, s)"
| "link_levels s ps next_node (i # levels) =
     link_levels (RelaxedSetNext s (ps i) i (Some next_node)) (ps(i := next_node)) next_node levels"

partial_function (option) linkHighDramNodes_loop ::
  "Collaborators \<Rightarrow> (nat \<Rightarrow> nat) \<times> nat option \<times> SortedCollectionRebuilder \<Rightarrow>
     (fault + (nat \<Rightarrow> nat) \<times> SortedCollectionRebuilder) option"
where
  "linkHighDramNodes_loop K st =
     (case st of (ps, next_node, s) \<Rightarrow>
        (case next_node of
           None \<Rightarrow> Some (Inr (ps, s))
         | Some n \<Rightarrow>
             if kMaxHeight K < node_height (dram_nodes s n) then Some (Inl UndefinedBehaviour)
             else
               (let (ps1, s1) =
                      link_levels s (ps(1 := n)) n [2 ..< Suc (node_height (dram_nodes s n))]
                in linkHighDramNodes_loop K (ps1, node_next (dram_nodes s1 n) 1, s1))))"

declare linkHighDramNodes_loop.simps [code]

fun terminate_levels ::
  "SortedCollectionRebuilder \<Rightarrow> (nat \<Rightarrow> nat) \<Rightarrow> nat list \<Rightarrow> SortedCollectionRebuilder" where
  "terminate_levels s ps [] = s"
| "terminate_levels s ps (i # levels) = terminate_levels (RelaxedSetNext s (ps i) i None) ps levels"

definition linkHighDramNodes ::
  "Collaborators \<Rightarrow> SortedCollectionRebuilder \<Rightarrow> CollectionIDType \<Rightarrow>
     (fault + Status \<times> SortedCollectionRebuilder) option"
where
  "linkHighDramNodes K s cid =
     (case map_of (rebuild_skiplits s) cid of
        None \<Rightarrow> Some (Inl UndefinedBehaviour)
      | Some skiplist \<Rightarrow>
          if 255 \<le> kMaxHeight K then None
          else
            (let s0 = s\<lparr>next_tid := Suc (next_tid s)\<rparr> in
             case linkHighDramNodes_loop K
                    ((\<lambda>i. HeaderNode skiplist),
                     node_next (dram_nodes s0 (HeaderNode skiplist)) 1, s0) of
               None \<Rightarrow> None
             | Some (Inl f) \<Rightarrow> Some (Inl f)
             | Some (Inr (ps, s1)) \<Rightarrow>
                 Some (Inr (Ok, terminate_levels s1 ps [1 ..< Suc (kMaxHeight K)]))))"

text \<open>
  The loop of a worker of \<^verbatim>\<open>segmentBasedIndexRebuild\<close> (lines 254 to 283) over the
  recovery segments: a segment that is not visited yet is claimed and, when a rebuild
  skiplist owns its start record, rebuilt.
\<close>

fun rebuild_segments_index ::
  "Collaborators \<Rightarrow> nat \<Rightarrow> SortedCollectionRebuilder \<Rightarrow> PMemOffsetType list \<Rightarrow>
     (fault + Status \<times> SortedCollectionRebuilder) option"
where
  "rebuild_segments_index K tid s [] = Some (Inr (Ok, s))"
| "rebuild_segments_index K tid s (r # rs) =
     (case map_of (recovery_segments s) r of
        None \<Rightarrow> Some (Inl UndefinedBehaviour)
      | Some seg \<Rightarrow>
          if visited seg then rebuild_segments_index K tid s rs
          else
            (let s1 = s\<lparr>recovery_segments :=
                         map (\<lambda>(k, g). if k = r then (k, g\<lparr>visited := True\<rparr>) else (k, g))
                           (recovery_segments s)\<rparr>;
                 cid = FetchID K (media (pmem_allocator s1) (node_record (dram_nodes s1 (start_node seg))))
             in case map_of (rebuild_skiplits s1) cid of
                  None \<Rightarrow>
                    if kvdk_debug K \<and> map_of (invalid_skiplists s1) cid = None
                    then Some (Inl AssertionFailed)
                    else rebuild_segments_index K tid s1 rs
                | Some skiplist \<Rightarrow>
                    (case rebuildSegmentIndex K tid s1 (start_node seg) cid of
                       None \<Rightarrow> None
                     | Some (Inl f) \<Rightarrow> Some (Inl f)
                     | Some (Inr (st, s2)) \<Rightarrow>
                         if st \<noteq> Ok then Some (Inr (st, s2))
                         else rebuild_segments_index K tid s2 rs)))"

text \<open>
  \<^verbatim>\<open>segmentBasedIndexRebuild\<close>, in the schedule in which the first of the
  \<^verbatim>\<open>num_rebuild_threads_\<close> workers claims every segment and the others find them all
  visited; each worker takes a thread ID. Then the higher levels of each skiplist are
  linked, in batches, and the segments are cleared.
\<close>

definition segmentBasedIndexRebuild ::
  "Collaborators \<Rightarrow> SortedCollectionRebuilder \<Rightarrow>
     (fault + Status \<times> SortedCollectionRebuilder) option"
where
  "segmentBasedIndexRebuild K s =
     (case
        (if num_rebuild_threads s = 0 then Some (Inr (Ok, s))
         else rebuild_segments_index K (next_tid s)
                (s\<lparr>next_tid := next_tid s + num_rebuild_threads s\<rparr>)
                (map fst (recovery_segments s)))
      of
        None \<Rightarrow> None
      | Some (Inl f) \<Rightarrow> Some (Inl f)
      | Some (Inr (st, s1)) \<Rightarrow>
          if st \<noteq> Ok then Some (Inr (st, s1))
          else
            (case run_batches (linkHighDramNodes K) (num_rebuild_threads s1) s1
                    (map fst (rebuild_skiplits s1)) of
               None \<Rightarrow> None
             | Some (Inl f) \<Rightarrow> Some (Inl f)
             | Some (Inr (st2, s2)) \<Rightarrow>
                 if st2 \<noteq> Ok then Some (Inr (st2, s2))
                 else Some (Inr (Ok, s2\<lparr>recovery_segments := []\<rparr>))))"

subsection \<open>Rebuild\<close>

text \<open>
  Modelled from the spec: the struct \<^verbatim>\<open>RebuildResult\<close> is declared outside the sources
  at hand. Section 6: a status, the maximal recovered ID and the map of rebuilt
  skiplists. Where \<^verbatim>\<open>Rebuild\<close> does not assign them, \<open>max_id\<close> is taken as zero and the
  map as empty.
\<close>

record RebuildResult =
  result_status :: Status
  max_id :: CollectionIDType
  result_skiplists :: "(CollectionIDType \<times> Skiplist) list"

definition Rebuild ::
  "Collaborators \<Rightarrow> nat \<Rightarrow> SortedCollectionRebuilder \<Rightarrow>
     (fault + RebuildResult \<times> SortedCollectionRebuilder) option"
where
  "Rebuild K tid s =
     (case initRebuildLists K tid s of
        None \<Rightarrow> None
      | Some (Inl f) \<Rightarrow> Some (Inl f)
      | Some (Inr (st, s1)) \<Rightarrow>
          (case
             (if st = Ok \<and> rebuild_skiplits s1 \<noteq> []
              then (if segment_based_rebuild s1 then segmentBasedIndexRebuild K s1
                    else listBasedIndexRebuild K s1)
              else Some (Inr (st, s1)))
           of
             None \<Rightarrow> None
           | Some (Inl f) \<Rightarrow> Some (Inl f)
           | Some (Inr (st2, s2)) \<Rightarrow>
               if st2 = Ok
               then Some (Inr (\<lparr>result_status = Ok, max_id = max_recovered_id s2,
                                 result_skiplists = rebuild_skiplits s2\<rparr>,
                               cleanInvalidRecords K (s2\<lparr>rebuild_skiplits := []\<rparr>)))
               else Some (Inr (\<lparr>result_status = st2, max_id = 0, result_skiplists = []\<rparr>, s2))))"

section \<open>Example stores\<close>

text \<open>
  Concrete inputs for the closed instances below. In the examples the collection ID is
  the first byte of a header's value and of an element's internal key.
\<close>

definition example_FetchID :: "DLRecord \<Rightarrow> CollectionIDType" where
  "example_FetchID r =
     (case (if record_type r = SortedRecord then Value r else Key r) of
        [] \<Rightarrow> 0
      | c # _ \<Rightarrow> of_char c)"

definition example_record ::
  "RecordType \<Rightarrow> RecordStatus \<Rightarrow> string \<Rightarrow> string \<Rightarrow> TimestampType \<Rightarrow>
     PMemOffsetType \<Rightarrow> PMemOffsetType \<Rightarrow> PMemOffsetType \<Rightarrow> DLRecord" where
  "example_record t s k v ts p n old =
     \<lparr>record_type = t, record_status = s, Key = k, Value = v, Timestamp = ts, prev = p,
      next_off = n, old_version = old, Validate = True, HasExpired = False,
      RecordSize = 64, destroyed = False\<rparr>"

definition example_store :: "(PMemOffsetType \<times> DLRecord) list \<Rightarrow> PMEMAllocator" where
  "example_store rs =
     \<lparr>pmem_size = 4096,
      media = (\<lambda>off. case map_of rs off of
                 Some r \<Rightarrow> r
               | None \<Rightarrow> example_record Empty Normal [] [] 0
                           kNullPMemOffset kNullPMemOffset kNullPMemOffset),
      freed = []\<rparr>"

text \<open>
  Example collaborators. A record matches when it is a header or an element of a sorted
  collection that is not destroyed. A record counts as linked when both neighbours point
  back to it; nothing is repaired. Removal unlinks a record whose predecessor points to
  it; replacement puts the new record in the place of the old one. The value of a header
  is the byte of its ID followed by \<open>h\<close> when its elements are indexed in the hash table.
  The hash table reports \<^verbatim>\<open>NotFound\<close> and stores the entry when the key is new, and
  reports \<^verbatim>\<open>Ok\<close> and overwrites when it is not. Every call of \<^verbatim>\<open>NewNodeBuild\<close> draws
  height 1.
\<close>

definition example_MatchType :: "DLRecord \<Rightarrow> bool" where
  "example_MatchType r =
     ((record_type r = SortedElem \<or> record_type r = SortedRecord) \<and> \<not> destroyed r)"

definition example_CheckAndRepairLinkage ::
  "PMEMAllocator \<Rightarrow> PMemOffsetType \<Rightarrow> bool \<times> PMEMAllocator" where
  "example_CheckAndRepairLinkage a p =
     (next_off (media a (prev (media a p))) = p \<and> prev (media a (next_off (media a p))) = p, a)"

definition example_Remove :: "PMEMAllocator \<Rightarrow> PMemOffsetType \<Rightarrow> bool \<times> PMEMAllocator" where
  "example_Remove a p =
     (if next_off (media a (prev (media a p))) = p
      then
        (let pr = prev (media a p);
             nx = next_off (media a p);
             m1 = (media a)(nx := (media a nx)\<lparr>prev := pr\<rparr>);
             m2 = m1(pr := (m1 pr)\<lparr>next_off := nx\<rparr>)
         in (True, a\<lparr>media := m2\<rparr>))
      else (False, a))"

definition example_Replace ::
  "PMEMAllocator \<Rightarrow> PMemOffsetType \<Rightarrow> PMemOffsetType \<Rightarrow> bool \<times> PMEMAllocator" where
  "example_Replace a p q =
     (if next_off (media a (prev (media a p))) = p
      then
        (if prev (media a p) = p
         then (True, a\<lparr>media := (media a)(q := (media a q)\<lparr>prev := q, next_off := q\<rparr>)\<rparr>)
         else
           (let pr = prev (media a p);
                nx = next_off (media a p);
                m0 = (media a)(q := (media a q)\<lparr>prev := pr, next_off := nx\<rparr>);
                m1 = m0(nx := (m0 nx)\<lparr>prev := q\<rparr>);
                m2 = m1(pr := (m1 pr)\<lparr>next_off := q\<rparr>)
            in (True, a\<lparr>media := m2\<rparr>)))
      else (False, a))"

definition example_Decode :: "string \<Rightarrow> Status \<times> CollectionIDType \<times> SortedCollectionConfigs" where
  "example_Decode v =
     (case v of
        [] \<Rightarrow> (Abort, 0, \<lparr>comparator_name = [], index_with_hashtable = False\<rparr>)
      | c # cs \<Rightarrow>
          (Ok, of_char c, \<lparr>comparator_name = ''default'', index_with_hashtable = (cs = ''h'')\<rparr>))"

definition example_GetComparator :: "string \<Rightarrow> Comparator option" where
  "example_GetComparator n = (if n = ''default'' then Some 0 else None)"

definition example_Insert ::
  "HashTable \<Rightarrow> string \<Rightarrow> RecordType \<Rightarrow> RecordStatus \<Rightarrow> IndexPointer \<Rightarrow> Status \<times> HashTable"
where
  "example_Insert ht k t st p =
     (case map_of ht k of
        None \<Rightarrow> (NotFound, ht @ [(k, \<lparr>entry_type = t, entry_status = st, entry_index = p\<rparr>)])
      | Some e \<Rightarrow>
          (Ok, map (\<lambda>(k', e'). if k' = k
                      then (k', \<lparr>entry_type = t, entry_status = st, entry_index = p\<rparr>)
                      else (k', e')) ht))"

definition example_K :: "bool \<Rightarrow> Collaborators" where
  "example_K dbg =
     \<lparr>kvdk_debug = dbg, FetchID = example_FetchID, MatchType = example_MatchType,
      CheckAndRepairLinkage = example_CheckAndRepairLinkage,
      Remove = example_Remove, Replace = example_Replace,
      DestroySkiplist = (\<lambda>sl st. st),
      DecodeSortedCollectionValue = example_Decode,
      GetComparator = example_GetComparator,
      Insert = example_Insert,
      NewNodeBuild = (\<lambda>n. Some 1),
      kRestoreSkiplistStride = 1,
      kMaxHeight = 4\<rparr>"

text \<open>
  Three versions of the element with internal key \<open>1k\<close> of collection 49 (the byte
  \<open>1\<close>): the one at offset 64 written at time 150, its older version at 128 written at
  120, and the oldest at 192 written at 50.
\<close>

definition versions_store :: PMEMAllocator where
  "versions_store = example_store
     [(64, example_record SortedElem Normal ''1k'' ''c'' 150 0 0 128),
      (128, example_record SortedElem Normal ''1k'' ''b'' 120 0 0 192),
      (192, example_record SortedElem Normal ''1k'' ''a'' 50 0 0 kNullPMemOffset)]"

text \<open>
  A header of the collection named \<open>list\<close> with ID 49 whose older version at 128 is a
  header of the same name with ID 50, and an element whose older version at 128 fails
  its checksum and has another key.
\<close>

definition reused_store :: PMEMAllocator where
  "reused_store = example_store
     [(64, example_record SortedRecord Normal ''list'' ''1'' 150 64 64 128),
      (128, example_record SortedRecord Normal ''list'' ''2'' 50 128 128 kNullPMemOffset)]"

definition corrupt_store :: PMEMAllocator where
  "corrupt_store = example_store
     [(64, example_record SortedElem Normal ''1k'' ''c'' 150 0 0 128),
      (128, (example_record SortedElem Normal ''1j'' ''b'' 50 0 0 kNullPMemOffset)
              \<lparr>Validate := False\<rparr>)]"

text \<open>
  A rebuilder with one worker before intake, and a store with a linked header at 64, and
  a header at 128 and an element at 192 to which no neighbour points back.
\<close>

definition example_rebuilder ::
  "bool \<Rightarrow> TimestampType \<Rightarrow> PMEMAllocator \<Rightarrow> SortedCollectionRebuilder" where
  "example_rebuilder segment ts a =
     \<lparr>pmem_allocator = a, hash_table = [], checkpoint = \<lparr>CheckpointTS = ts\<rparr>,
      segment_based_rebuild = segment, num_rebuild_threads = 1,
      rebuilder_thread_cache = [\<lparr>unlinked_records = [], visited_skiplists = (\<lambda>c. 0)\<rparr>],
      linked_headers = [], recovery_segments = [], rebuild_skiplits = [],
      invalid_skiplists = [], max_recovered_id = 0,
      dram_nodes = (\<lambda>n. \<lparr>node_record = 0, node_height = 0, node_next = (\<lambda>l. None)\<rparr>),
      node_count = 0, build_calls = 0, next_tid = 0\<rparr>"

definition unlinked_store :: PMEMAllocator where
  "unlinked_store = example_store
     [(64, example_record SortedRecord Normal ''list'' ''1'' 10 64 64 kNullPMemOffset),
      (128, example_record SortedRecord Normal ''list'' ''1'' 20 64 64 kNullPMemOffset),
      (192, example_record SortedElem Normal ''1k'' ''v'' 30 64 64 kNullPMemOffset)]"

text \<open>
  The collection \<open>list\<close> with ID 49 and hash indexing: its header at 64 and the elements
  \<open>1a\<close> at 128, \<open>1b\<close> at 192 and \<open>1c\<close> at 256, linked in a cycle. The element \<open>1b\<close> was
  written at time 150 over its older version at 320, written at time 40.
\<close>

definition list_store :: PMEMAllocator where
  "list_store = example_store
     [(64, example_record SortedRecord Normal ''list'' ''1h'' 10 256 128 kNullPMemOffset),
      (128, example_record SortedElem Normal ''1a'' ''x'' 20 64 192 kNullPMemOffset),
      (192, example_record SortedElem Normal ''1b'' ''z'' 150 128 256 320),
      (256, example_record SortedElem Normal ''1c'' ''x'' 30 192 64 kNullPMemOffset),
      (320, example_record SortedElem Normal ''1b'' ''y'' 40 128 256 kNullPMemOffset)]"

text \<open>
  A store whose only record is the self-linked header at 64 of the collection \<open>list\<close>
  with ID 49, marked outdated.
\<close>

definition outdated_header_store :: PMEMAllocator where
  "outdated_header_store = example_store
     [(64, example_record SortedRecord Outdated ''list'' ''1h'' 10 64 64 kNullPMemOffset)]"

text \<open>
  The header at 64 of the empty collection \<open>list\<close> with ID 49, written at time 150 over
  its older version at 128 (written at 50), which was written over the one at 192.
\<close>

definition header_versions_store :: PMEMAllocator where
  "header_versions_store = example_store
     [(64, example_record SortedRecord Normal ''list'' ''1h'' 150 64 64 128),
      (128, example_record SortedRecord Normal ''list'' ''1h'' 50 128 128 192),
      (192, example_record SortedRecord Normal ''list'' ''1h'' 20 192 192 kNullPMemOffset)]"

text \<open>
  Two self-linked headers of the empty collection \<open>list\<close> with ID 49, written at times
  100 (at 64) and 200 (at 128), and the header at 192 of the collection \<open>other\<close> with
  ID 50.
\<close>

definition duplicate_header_store :: PMEMAllocator where
  "duplicate_header_store = example_store
     [(64, example_record SortedRecord Normal ''list'' ''1h'' 100 64 64 kNullPMemOffset),
      (128, example_record SortedRecord Normal ''list'' ''1h'' 200 128 128 kNullPMemOffset),
      (192, example_record SortedRecord Normal ''other'' ''2'' 50 192 192 kNullPMemOffset)]"

text \<open>
  Recovery as the engine drives it (section 5): the scan hands every header and then
  every element to the intake, and \<^verbatim>\<open>Rebuild\<close> runs; all on the thread with ID 0.
\<close>

fun add_headers ::
  "Collaborators \<Rightarrow> SortedCollectionRebuilder \<Rightarrow> PMemOffsetType list \<Rightarrow>
     fault + SortedCollectionRebuilder" where
  "add_headers K s [] = Inr s"
| "add_headers K s (h # hs) =
     (case AddHeader K 0 s h of
        Inl f \<Rightarrow> Inl f
      | Inr (st, s1) \<Rightarrow> add_headers K s1 hs)"

fun add_elements ::
  "Collaborators \<Rightarrow> SortedCollectionRebuilder \<Rightarrow> PMemOffsetType list \<Rightarrow>
     (fault + SortedCollectionRebuilder) option" where
  "add_elements K s [] = Some (Inr s)"
| "add_elements K s (e # es) =
     (case AddElement K 0 s e of
        None \<Rightarrow> None
      | Some (Inl f) \<Rightarrow> Some (Inl f)
      | Some (Inr (st, s1)) \<Rightarrow> add_elements K s1 es)"

definition example_recovery ::
  "Collaborators \<Rightarrow> SortedCollectionRebuilder \<Rightarrow> PMemOffsetType list \<Rightarrow> PMemOffsetType list \<Rightarrow>
     (fault + RebuildResult \<times> SortedCollectionRebuilder) option" where
  "example_recovery K s headers elements =
     (case add_headers K s headers of
        Inl f \<Rightarrow> Some (Inl f)
      | Inr s1 \<Rightarrow>
          (case add_elements K s1 elements of
             None \<Rightarrow> None
           | Some (Inl f) \<Rightarrow> Some (Inl f)
           | Some (Inr s2) \<Rightarrow> Rebuild K 0 s2))"

text \<open>
  What is compared after recovery: the status, the name and size of each rebuilt
  skiplist, the keys and record types of the hash index, and the linkage and the
  destroyed mark of the records at the given offsets.
\<close>

definition recovered ::
  "PMemOffsetType list \<Rightarrow> (fault + RebuildResult \<times> SortedCollectionRebuilder) option \<Rightarrow>
     (Status \<times> (string \<times> nat) list \<times> (string \<times> RecordType) list \<times>
      (PMemOffsetType \<times> PMemOffsetType \<times> bool) list) option" where
  "recovered offs r =
     (case r of
        Some (Inr (res, s)) \<Rightarrow>
          Some (result_status res,
                map (\<lambda>(cid, sl). (Name sl, Size sl)) (result_skiplists res),
                map (\<lambda>(k, e). (k, entry_type e)) (hash_table s),
                map (\<lambda>p. (prev (media (pmem_allocator s) p), next_off (media (pmem_allocator s) p),
                           destroyed (media (pmem_allocator s) p))) offs)
      | _ \<Rightarrow> None)"

text \<open>
  The collection \<open>list\<close> with hash indexing whose only element, at 128, is outdated (the
  record of a deletion).
\<close>

definition tombstone_store :: PMEMAllocator where
  "tombstone_store = example_store
     [(64, example_record SortedRecord Normal ''list'' ''1h'' 10 128 128 kNullPMemOffset),
      (128, example_record SortedElem Outdated ''1a'' [] 20 64 64 kNullPMemOffset)]"

text \<open>The same collection with its element at 128 not outdated.\<close>

definition single_store :: PMEMAllocator where
  "single_store = example_store
     [(64, example_record SortedRecord Normal ''list'' ''1h'' 10 128 128 kNullPMemOffset),
      (128, example_record SortedElem Normal ''1a'' ''x'' 20 64 64 kNullPMemOffset)]"

text \<open>
  Two headers of the collection \<open>list\<close> with ID 49 that both pass the linkage check: the
  older one at 64, written at time 100, is linked with the element \<open>1a\<close> at 192, and the
  younger one at 128, written at time 200, is linked to itself.
\<close>

definition nonempty_header_store :: PMEMAllocator where
  "nonempty_header_store = example_store
     [(64, example_record SortedRecord Normal ''list'' ''1h'' 100 192 192 kNullPMemOffset),
      (128, example_record SortedRecord Normal ''list'' ''1h'' 200 128 128 kNullPMemOffset),
      (192, example_record SortedElem Normal ''1a'' ''x'' 50 64 64 kNullPMemOffset)]"

text \<open>
  Two headers of the collection \<open>list\<close> with ID 49, written at times 100 (at 64) and 200
  (at 128), that are linked with each other.
\<close>

definition paired_header_store :: PMEMAllocator where
  "paired_header_store = example_store
     [(64, example_record SortedRecord Normal ''list'' ''1h'' 100 128 128 kNullPMemOffset),
      (128, example_record SortedRecord Normal ''list'' ''1h'' 200 64 64 kNullPMemOffset)]"

text \<open>
  Header resolution as the engine drives it: the scan hands every header to the intake,
  and \<^verbatim>\<open>initRebuildLists\<close> runs; all on the thread with ID 0.
\<close>

definition example_header_resolution ::
  "Collaborators \<Rightarrow> SortedCollectionRebuilder \<Rightarrow> PMemOffsetType list \<Rightarrow>
     (fault + Status \<times> SortedCollectionRebuilder) option" where
  "example_header_resolution K s headers =
     (case add_headers K s headers of
        Inl f \<Rightarrow> Some (Inl f)
      | Inr s1 \<Rightarrow> initRebuildLists K 0 s1)"

text \<open>
  What is compared after header resolution: the status, the unlinked queue of each
  worker, the collections to rebuild, and the \<^verbatim>\<open>prev\<close> field and the two linkage checks
  of the records at the given offsets.
\<close>

definition resolved ::
  "PMemOffsetType list \<Rightarrow> (fault + Status \<times> SortedCollectionRebuilder) option \<Rightarrow>
     (Status \<times> PMemOffsetType list list \<times> CollectionIDType list \<times>
      (PMemOffsetType \<times> bool \<times> bool) list) option" where
  "resolved offs r =
     (case r of
        Some (Inr (st, s)) \<Rightarrow>
          Some (st, map unlinked_records (rebuilder_thread_cache s),
                map fst (rebuild_skiplits s),
                map (\<lambda>p. (prev (media (pmem_allocator s) p),
                           CheckPrevLinkage (pmem_allocator s) p,
                           CheckNextLinkage (pmem_allocator s) p)) offs)
      | _ \<Rightarrow> None)"

text \<open>The fault that stopped a run, if one did.\<close>

definition stopped_by :: "(fault + 'a) option \<Rightarrow> fault option" where
  "stopped_by r = (case r of Some (Inl f) \<Rightarrow> Some f | _ \<Rightarrow> None)"

section \<open>Properties of checkpoint version resolution\<close>

text \<open>
  \<open>version_walk K a ts cid k c ns\<close>: starting at the record \<open>c\<close>, the walk visits the
  older versions \<open>ns\<close> in this order. Each step leaves a record younger than the
  checkpoint \<open>ts\<close> through its \<^verbatim>\<open>old_version\<close> and arrives at a record of the collection
  \<open>cid\<close> that passes the assertions of the walk where they are compiled in.
\<close>

fun version_walk ::
  "Collaborators \<Rightarrow> PMEMAllocator \<Rightarrow> TimestampType \<Rightarrow> CollectionIDType \<Rightarrow> string \<Rightarrow>
     PMemOffsetType \<Rightarrow> PMemOffsetType list \<Rightarrow> bool"
where
  "version_walk K a ts cid k c [] = True"
| "version_walk K a ts cid k c (n # ns) =
     (ts < Timestamp (media a c) \<and> offset2addr a (old_version (media a c)) = Some n \<and>
      FetchID K (media a n) = cid \<and>
      (if kvdk_debug K then Validate (media a n) \<and> Key (media a n) = k else True) \<and>
      version_walk K a ts cid k n ns)"

text \<open>
  What a result \<open>y\<close> of the walk from \<open>c\<close> says: a record is the end of a walk and is
  not younger than the checkpoint; null means that a walk ended at a record younger than
  the checkpoint whose \<^verbatim>\<open>old_version\<close> is no record or a record of another collection.
\<close>

definition walk_result ::
  "Collaborators \<Rightarrow> PMEMAllocator \<Rightarrow> TimestampType \<Rightarrow> CollectionIDType \<Rightarrow> string \<Rightarrow>
     PMemOffsetType \<Rightarrow> fault + DLRecord_ptr \<Rightarrow> bool"
where
  "walk_result K a ts cid k c y =
     (\<exists>ns. version_walk K a ts cid k c ns \<and>
        (case y of
           Inr (Some q) \<Rightarrow> last (c # ns) = q \<and> \<not> ts < Timestamp (media a q)
         | Inr None \<Rightarrow>
             ts < Timestamp (media a (last (c # ns))) \<and>
             (case offset2addr a (old_version (media a (last (c # ns)))) of
                None \<Rightarrow> True
              | Some n \<Rightarrow> FetchID K (media a n) \<noteq> cid)
         | Inl f \<Rightarrow> True))"

lemma loop_None: "findCheckpointVersion_loop K a ts cid k None = Some (Inr None)"
  by (subst findCheckpointVersion_loop.simps) simp

lemma loop_stop:
  "\<not> ts < Timestamp (media a c) \<Longrightarrow>
   findCheckpointVersion_loop K a ts cid k (Some c) = Some (Inr (Some c))"
  by (subst findCheckpointVersion_loop.simps) simp

lemma loop_end:
  "ts < Timestamp (media a c) \<Longrightarrow> offset2addr a (old_version (media a c)) = None \<Longrightarrow>
   findCheckpointVersion_loop K a ts cid k (Some c) = Some (Inr None)"
  by (subst findCheckpointVersion_loop.simps) (simp add: loop_None)

lemma loop_visit:
  "ts < Timestamp (media a c) \<Longrightarrow> offset2addr a (old_version (media a c)) = Some n \<Longrightarrow>
   findCheckpointVersion_loop K a ts cid k (Some c) =
     (if kvdk_debug K \<and> (\<not> Validate (media a n) \<or> Key (media a n) \<noteq> k)
      then Some (Inl AssertionFailed)
      else if FetchID K (media a n) \<noteq> cid then Some (Inr None)
      else findCheckpointVersion_loop K a ts cid k (Some n))"
  by (subst findCheckpointVersion_loop.simps) (auto simp add: loop_None)

lemma loop_walk:
  "version_walk K a ts cid k c ns \<Longrightarrow>
   findCheckpointVersion_loop K a ts cid k (Some c) =
   findCheckpointVersion_loop K a ts cid k (Some (last (c # ns)))"
proof (induction ns arbitrary: c)
  case Nil
  then show ?case by simp
next
  case (Cons n ns)
  from Cons.prems have w: "version_walk K a ts cid k n ns" by simp
  have "findCheckpointVersion_loop K a ts cid k (Some c) =
        findCheckpointVersion_loop K a ts cid k (Some n)"
    using Cons.prems by (subst loop_visit[of ts a c n]) (auto split: if_splits)
  with Cons.IH[OF w] show ?case by simp
qed

lemma loop_sound:
  assumes "findCheckpointVersion_loop K a ts cid k cur = Some y"
  shows "(\<forall>c. cur = Some c \<longrightarrow> walk_result K a ts cid k c y) \<and> (cur = None \<longrightarrow> y = Inr None)"
  using assms
proof (induct rule: findCheckpointVersion_loop.raw_induct[rotated 1, consumes 1, case_names 1])
  case (1 loop K a ts cid k cur y)
  show ?case
  proof (cases cur)
    case None
    with 1(2) show ?thesis by auto
  next
    case (Some c)
    show ?thesis
    proof (cases "ts < Timestamp (media a c)")
      case False
      with Some 1(2) have "y = Inr (Some c)" by simp
      then have "walk_result K a ts cid k c y"
        unfolding walk_result_def using False by (intro exI[of _ "[]"]) simp
      with Some show ?thesis by simp
    next
      case True
      show ?thesis
      proof (cases "offset2addr a (old_version (media a c))")
        case None
        with 1(2) Some True have "loop K a ts cid k None = Some y" by simp
        from 1(1)[OF this] have "y = Inr None" by simp
        then have "walk_result K a ts cid k c y"
          unfolding walk_result_def using True None by (intro exI[of _ "[]"]) simp
        with Some show ?thesis by simp
      next
        case (Some n)
        note n = this
        consider (assert1) "kvdk_debug K \<and> \<not> Validate (media a n)"
          | (assert2) "\<not> (kvdk_debug K \<and> \<not> Validate (media a n))"
                      "kvdk_debug K \<and> Key (media a n) \<noteq> k"
          | (other) "\<not> (kvdk_debug K \<and> \<not> Validate (media a n))"
                      "\<not> (kvdk_debug K \<and> Key (media a n) \<noteq> k)"
                      "FetchID K (media a n) \<noteq> cid"
          | (older) "\<not> (kvdk_debug K \<and> \<not> Validate (media a n))"
                      "\<not> (kvdk_debug K \<and> Key (media a n) \<noteq> k)"
                      "FetchID K (media a n) = cid"
          by blast
        then have "walk_result K a ts cid k c y"
        proof cases
          case assert1
          with 1(2) \<open>cur = Some c\<close> True n have "y = Inl AssertionFailed" by simp
          then show ?thesis unfolding walk_result_def by (intro exI[of _ "[]"]) simp
        next
          case assert2
          with 1(2) \<open>cur = Some c\<close> True n have "y = Inl AssertionFailed" by auto
          then show ?thesis unfolding walk_result_def by (intro exI[of _ "[]"]) simp
        next
          case other
          with 1(2) \<open>cur = Some c\<close> True n have "loop K a ts cid k None = Some y" by auto
          from 1(1)[OF this] have "y = Inr None" by simp
          then show ?thesis
            unfolding walk_result_def using True n other by (intro exI[of _ "[]"]) simp
        next
          case older
          with 1(2) \<open>cur = Some c\<close> True n have "loop K a ts cid k (Some n) = Some y" by auto
          from 1(1)[OF this] have "walk_result K a ts cid k n y" by simp
          then obtain ns where w: "version_walk K a ts cid k n ns"
            and r: "(case y of Inr (Some q) \<Rightarrow> last (n # ns) = q \<and> \<not> ts < Timestamp (media a q)
        | Inr None \<Rightarrow> ts < Timestamp (media a (last (n # ns))) \<and>
             (case offset2addr a (old_version (media a (last (n # ns)))) of None \<Rightarrow> True
               | Some n \<Rightarrow> FetchID K (media a n) \<noteq> cid)
        | Inl f \<Rightarrow> True)"
            unfolding walk_result_def by blast
          have "version_walk K a ts cid k c (n # ns)"
            using w True n older by auto
          moreover have L: "last (c # n # ns) = last (n # ns)" by simp
          ultimately show ?thesis
            unfolding walk_result_def using r
            by (intro exI[of _ "n # ns"]) (auto simp del: last.simps version_walk.simps simp add: L split: sum.splits option.splits)
        qed
        with \<open>cur = Some c\<close> show ?thesis by simp
      qed
    qed
  qed
qed

text \<open>
  Claim C1. For every persistent record \<open>p\<close> passed to \<^verbatim>\<open>findCheckpointVersion\<close>: when
  recovery does not target a checkpoint the function returns \<open>p\<close> itself. Otherwise it
  follows the \<^verbatim>\<open>old_version\<close> chain for as long as the record at hand is younger than
  the checkpoint. For every walk \<open>ns\<close> from \<open>p\<close>: when its last record is not younger
  than the checkpoint, that record (the youngest such version) is returned; when its last
  record is younger and has no older version, or its older version belongs to another
  collection than \<open>p\<close>, null is returned. Conversely every value the function returns is
  one of these (\<open>walk_result\<close>).
\<close>

theorem findCheckpointVersion_resolves:
  "(\<not> recoverToCheckpoint ckpt \<longrightarrow>
      findCheckpointVersion K ckpt a p = Some (Inr (Some p))) \<and>
   (recoverToCheckpoint ckpt \<and>
    version_walk K a (CheckpointTS ckpt) (FetchID K (media a p)) (Key (media a p)) p ns \<and>
    \<not> CheckpointTS ckpt < Timestamp (media a (last (p # ns))) \<longrightarrow>
      findCheckpointVersion K ckpt a p = Some (Inr (Some (last (p # ns))))) \<and>
   (recoverToCheckpoint ckpt \<and>
    version_walk K a (CheckpointTS ckpt) (FetchID K (media a p)) (Key (media a p)) p ns \<and>
    CheckpointTS ckpt < Timestamp (media a (last (p # ns))) \<and>
    offset2addr a (old_version (media a (last (p # ns)))) = None \<longrightarrow>
      findCheckpointVersion K ckpt a p = Some (Inr None)) \<and>
   (recoverToCheckpoint ckpt \<and>
    version_walk K a (CheckpointTS ckpt) (FetchID K (media a p)) (Key (media a p)) p ns \<and>
    CheckpointTS ckpt < Timestamp (media a (last (p # ns))) \<and>
    offset2addr a (old_version (media a (last (p # ns)))) = Some n \<and>
    FetchID K (media a n) \<noteq> FetchID K (media a p) \<and>
    (kvdk_debug K \<longrightarrow> Validate (media a n) \<and> Key (media a n) = Key (media a p)) \<longrightarrow>
      findCheckpointVersion K ckpt a p = Some (Inr None)) \<and>
   (recoverToCheckpoint ckpt \<and> findCheckpointVersion K ckpt a p = Some y \<longrightarrow>
      walk_result K a (CheckpointTS ckpt) (FetchID K (media a p)) (Key (media a p)) p y)"
proof (intro conjI impI)
  assume "\<not> recoverToCheckpoint ckpt"
  then show "findCheckpointVersion K ckpt a p = Some (Inr (Some p))"
    by (simp add: findCheckpointVersion_def)
next
  assume h: "recoverToCheckpoint ckpt \<and>
    version_walk K a (CheckpointTS ckpt) (FetchID K (media a p)) (Key (media a p)) p ns \<and>
    \<not> CheckpointTS ckpt < Timestamp (media a (last (p # ns)))"
  then show "findCheckpointVersion K ckpt a p = Some (Inr (Some (last (p # ns))))"
    using loop_walk[of K a "CheckpointTS ckpt" "FetchID K (media a p)" "Key (media a p)" p ns]
      loop_stop[of "CheckpointTS ckpt" a "last (p # ns)" K]
    by (simp add: findCheckpointVersion_def del: last.simps)
next
  assume h: "recoverToCheckpoint ckpt \<and>
    version_walk K a (CheckpointTS ckpt) (FetchID K (media a p)) (Key (media a p)) p ns \<and>
    CheckpointTS ckpt < Timestamp (media a (last (p # ns))) \<and>
    offset2addr a (old_version (media a (last (p # ns)))) = None"
  then show "findCheckpointVersion K ckpt a p = Some (Inr None)"
    using loop_walk[of K a "CheckpointTS ckpt" "FetchID K (media a p)" "Key (media a p)" p ns]
      loop_end[of "CheckpointTS ckpt" a "last (p # ns)" K]
    by (simp add: findCheckpointVersion_def del: last.simps)
next
  assume h: "recoverToCheckpoint ckpt \<and>
    version_walk K a (CheckpointTS ckpt) (FetchID K (media a p)) (Key (media a p)) p ns \<and>
    CheckpointTS ckpt < Timestamp (media a (last (p # ns))) \<and>
    offset2addr a (old_version (media a (last (p # ns)))) = Some n \<and>
    FetchID K (media a n) \<noteq> FetchID K (media a p) \<and>
    (kvdk_debug K \<longrightarrow> Validate (media a n) \<and> Key (media a n) = Key (media a p))"
  then show "findCheckpointVersion K ckpt a p = Some (Inr None)"
    using loop_walk[of K a "CheckpointTS ckpt" "FetchID K (media a p)" "Key (media a p)" p ns]
      loop_visit[of "CheckpointTS ckpt" a "last (p # ns)" n K "FetchID K (media a p)" "Key (media a p)"]
    by (auto simp add: findCheckpointVersion_def simp del: last.simps)
next
  assume h: "recoverToCheckpoint ckpt \<and> findCheckpointVersion K ckpt a p = Some y"
  then have "findCheckpointVersion_loop K a (CheckpointTS ckpt) (FetchID K (media a p))
      (Key (media a p)) (Some p) = Some y"
    by (auto simp add: findCheckpointVersion_def)
  from loop_sound[OF this]
  show "walk_result K a (CheckpointTS ckpt) (FetchID K (media a p)) (Key (media a p)) p y"
    by simp
qed

theorem findCheckpointVersion_resolves_witness:
  "\<not> recoverToCheckpoint \<lparr>CheckpointTS = 0\<rparr> \<and>
   findCheckpointVersion (example_K True) \<lparr>CheckpointTS = 0\<rparr> versions_store 64 = Some (Inr (Some 64)) \<and>
   recoverToCheckpoint \<lparr>CheckpointTS = 100\<rparr> \<and>
   version_walk (example_K True) versions_store 100 49 ''1k'' 64 [128, 192] \<and>
   findCheckpointVersion (example_K True) \<lparr>CheckpointTS = 100\<rparr> versions_store 64 = Some (Inr (Some 192)) \<and>
   version_walk (example_K True) versions_store 10 49 ''1k'' 64 [128, 192] \<and>
   offset2addr versions_store (old_version (media versions_store 192)) = None \<and>
   findCheckpointVersion (example_K True) \<lparr>CheckpointTS = 10\<rparr> versions_store 64 = Some (Inr None) \<and>
   version_walk (example_K True) reused_store 100 49 ''list'' 64 [] \<and>
   offset2addr reused_store (old_version (media reused_store 64)) = Some 128 \<and>
   FetchID (example_K True) (media reused_store 128) = 50 \<and>
   findCheckpointVersion (example_K True) \<lparr>CheckpointTS = 100\<rparr> reused_store 64 = Some (Inr None) \<and>
   walk_result (example_K True) versions_store 100 49 ''1k'' 64 (Inr (Some 192))"
proof -
  have f: "FetchID (example_K True) (media versions_store 64) = 49"
    "Key (media versions_store 64) = ''1k''"
    "FetchID (example_K True) (media reused_store 64) = 49"
    "Key (media reused_store 64) = ''list''"
    by code_simp+
  have n: "\<not> recoverToCheckpoint \<lparr>CheckpointTS = 0\<rparr>" by code_simp
  have c: "recoverToCheckpoint \<lparr>CheckpointTS = 100\<rparr>" "recoverToCheckpoint \<lparr>CheckpointTS = 10\<rparr>"
    by code_simp+
  have w1: "version_walk (example_K True) versions_store 100 49 ''1k'' 64 [128, 192]"
    by code_simp
  have w2: "version_walk (example_K True) versions_store 10 49 ''1k'' 64 [128, 192]"
    by code_simp
  have w3: "version_walk (example_K True) reused_store 100 49 ''list'' 64 []"
    by simp
  have e1: "\<not> (100::64 word) < Timestamp (media versions_store (last [64, 128, 192]))"
    by code_simp
  have e2: "(10::64 word) < Timestamp (media versions_store (last [64, 128, 192]))"
    "offset2addr versions_store (old_version (media versions_store (last [64, 128, 192]))) = None"
    "offset2addr versions_store (old_version (media versions_store 192)) = None"
    by code_simp+
  have e3: "(100::64 word) < Timestamp (media reused_store (last [64]))"
    "offset2addr reused_store (old_version (media reused_store (last [64]))) = Some 128"
    "offset2addr reused_store (old_version (media reused_store 64)) = Some 128"
    "FetchID (example_K True) (media reused_store 128) = 50"
    "Validate (media reused_store 128)" "Key (media reused_store 128) = ''list''"
    by code_simp+
  note t1 = findCheckpointVersion_resolves[of "\<lparr>CheckpointTS = 0\<rparr>" "example_K True"
      versions_store 64]
  note t2 = findCheckpointVersion_resolves[of "\<lparr>CheckpointTS = 100\<rparr>" "example_K True"
      versions_store 64 "[128, 192]"]
  note t3 = findCheckpointVersion_resolves[of "\<lparr>CheckpointTS = 10\<rparr>" "example_K True"
      versions_store 64 "[128, 192]"]
  note t4 = findCheckpointVersion_resolves[of "\<lparr>CheckpointTS = 100\<rparr>" "example_K True"
      reused_store 64 "[]" 128]
  have r1: "findCheckpointVersion (example_K True) \<lparr>CheckpointTS = 0\<rparr> versions_store 64 = Some (Inr (Some 64))"
    using t1 n by blast
  have r2: "findCheckpointVersion (example_K True) \<lparr>CheckpointTS = 100\<rparr> versions_store 64 = Some (Inr (Some 192))"
    using t2 c w1 e1 f by simp
  have r3: "findCheckpointVersion (example_K True) \<lparr>CheckpointTS = 10\<rparr> versions_store 64 = Some (Inr None)"
    using t3 c w2 e2 f by simp
  have r4: "findCheckpointVersion (example_K True) \<lparr>CheckpointTS = 100\<rparr> reused_store 64 = Some (Inr None)"
    using t4 c w3 e3 f by simp
  have r5: "walk_result (example_K True) versions_store 100 49 ''1k'' 64 (Inr (Some 192))"
    using t2[where y = "Inr (Some 192)"] c r2 f by simp
  show ?thesis using n c w1 w2 w3 e2(3) e3(3,4) r1 r2 r3 r4 r5 by simp
qed

text \<open>
  Claim C5, as stated, fails: the newest version at 64 is younger than the checkpoint and
  its older version at 128 fails \<^verbatim>\<open>Validate\<close> and has another key, yet a build without
  assertions returns that older version, and a build with assertions stops at the
  assertion. In neither build does the walk return null.
\<close>

theorem findCheckpointVersion_corrupt_ancestor_counterexample:
  "CheckpointTS \<lparr>CheckpointTS = 100\<rparr> < Timestamp (media corrupt_store 64) \<and>
   offset2addr corrupt_store (old_version (media corrupt_store 64)) = Some 128 \<and>
   \<not> Validate (media corrupt_store 128) \<and>
   Key (media corrupt_store 128) \<noteq> Key (media corrupt_store 64) \<and>
   findCheckpointVersion (example_K False) \<lparr>CheckpointTS = 100\<rparr> corrupt_store 64 =
     Some (Inr (Some 128)) \<and>
   findCheckpointVersion (example_K True) \<lparr>CheckpointTS = 100\<rparr> corrupt_store 64 =
     Some (Inl AssertionFailed)"
  by code_simp

text \<open>
  Claim C5, amended. When the walk visits an older version \<open>n\<close>: a build with assertions
  stops at an assertion if \<open>n\<close> fails \<^verbatim>\<open>Validate\<close> or has another key than the input;
  otherwise (the assertions hold, or are not compiled in) the walk returns null if the
  collection ID of \<open>n\<close> differs from the input's, and goes on from \<open>n\<close> if it does not.
\<close>

theorem findCheckpointVersion_visit:
  "recoverToCheckpoint ckpt \<and>
   version_walk K a (CheckpointTS ckpt) (FetchID K (media a p)) (Key (media a p)) p ns \<and>
   CheckpointTS ckpt < Timestamp (media a (last (p # ns))) \<and>
   offset2addr a (old_version (media a (last (p # ns)))) = Some n \<longrightarrow>
     findCheckpointVersion K ckpt a p =
       (if kvdk_debug K \<and> (\<not> Validate (media a n) \<or> Key (media a n) \<noteq> Key (media a p))
        then Some (Inl AssertionFailed)
        else if FetchID K (media a n) \<noteq> FetchID K (media a p) then Some (Inr None)
        else findCheckpointVersion_loop K a (CheckpointTS ckpt) (FetchID K (media a p))
               (Key (media a p)) (Some n))"
proof
  assume h: "recoverToCheckpoint ckpt \<and>
   version_walk K a (CheckpointTS ckpt) (FetchID K (media a p)) (Key (media a p)) p ns \<and>
   CheckpointTS ckpt < Timestamp (media a (last (p # ns))) \<and>
   offset2addr a (old_version (media a (last (p # ns)))) = Some n"
  have "findCheckpointVersion K ckpt a p =
        findCheckpointVersion_loop K a (CheckpointTS ckpt) (FetchID K (media a p))
          (Key (media a p)) (Some (last (p # ns)))"
    using h loop_walk[of K a "CheckpointTS ckpt" "FetchID K (media a p)" "Key (media a p)" p ns]
    by (simp add: findCheckpointVersion_def del: last.simps)
  also have "\<dots> =
       (if kvdk_debug K \<and> (\<not> Validate (media a n) \<or> Key (media a n) \<noteq> Key (media a p))
        then Some (Inl AssertionFailed)
        else if FetchID K (media a n) \<noteq> FetchID K (media a p) then Some (Inr None)
        else findCheckpointVersion_loop K a (CheckpointTS ckpt) (FetchID K (media a p))
               (Key (media a p)) (Some n))"
    using h by (intro loop_visit) simp_all
  finally show "findCheckpointVersion K ckpt a p =
       (if kvdk_debug K \<and> (\<not> Validate (media a n) \<or> Key (media a n) \<noteq> Key (media a p))
        then Some (Inl AssertionFailed)
        else if FetchID K (media a n) \<noteq> FetchID K (media a p) then Some (Inr None)
        else findCheckpointVersion_loop K a (CheckpointTS ckpt) (FetchID K (media a p))
               (Key (media a p)) (Some n))" .
qed

theorem findCheckpointVersion_visit_witness:
  "recoverToCheckpoint \<lparr>CheckpointTS = 100\<rparr> \<and>
   version_walk (example_K True) reused_store 100 49 ''list'' 64 [] \<and>
   CheckpointTS \<lparr>CheckpointTS = 100\<rparr> < Timestamp (media reused_store 64) \<and>
   offset2addr reused_store (old_version (media reused_store 64)) = Some 128 \<and>
   Validate (media reused_store 128) \<and>
   Key (media reused_store 128) = Key (media reused_store 64) \<and>
   FetchID (example_K True) (media reused_store 128) \<noteq>
     FetchID (example_K True) (media reused_store 64) \<and>
   findCheckpointVersion (example_K True) \<lparr>CheckpointTS = 100\<rparr> reused_store 64 =
     Some (Inr None)"
proof -
  have f: "FetchID (example_K True) (media reused_store 64) = 49"
    "Key (media reused_store 64) = ''list''"
    "FetchID (example_K True) (media reused_store 128) = 50"
    "Key (media reused_store 128) = ''list''"
    "Validate (media reused_store 128)"
    "kvdk_debug (example_K True)"
    by code_simp+
  have c: "recoverToCheckpoint \<lparr>CheckpointTS = 100\<rparr>"
    by code_simp
  have e: "(100::64 word) < Timestamp (media reused_store 64)"
    "offset2addr reused_store (old_version (media reused_store 64)) = Some 128"
    by code_simp+
  show ?thesis
    using findCheckpointVersion_visit[of "\<lparr>CheckpointTS = 100\<rparr>" "example_K True"
        reused_store 64 "[]" 128] f c e
    by simp
qed

section \<open>Properties of candidate intake, rollback and hash index insertion\<close>

lemma addUnlinkedRecord_Inr:
  "rebuilder_thread_cache s \<noteq> [] \<Longrightarrow>
   \<exists>s'. addUnlinkedRecord tid s p = Inr s' \<and>
     pmem_allocator s' = pmem_allocator s \<and> linked_headers s' = linked_headers s \<and>
     recovery_segments s' = recovery_segments s \<and>
     length (rebuilder_thread_cache s') = length (rebuilder_thread_cache s) \<and>
     unlinked_records (rebuilder_thread_cache s' ! (tid mod length (rebuilder_thread_cache s))) =
       unlinked_records (rebuilder_thread_cache s ! (tid mod length (rebuilder_thread_cache s))) @ [p]"
  by (simp add: addUnlinkedRecord_def Let_def)

text \<open>
  Claim C8. For a candidate record \<open>r\<close> given to \<^verbatim>\<open>AddHeader\<close> or \<^verbatim>\<open>AddElement\<close> whose
  linkage \<^verbatim>\<open>CheckAndRepairLinkage\<close> reports as not repaired (leaving the store \<open>a\<close>): when
  the checkpoint timestamp is greater than zero, \<open>r\<close> is appended to the unlinked list of
  the calling worker and the allocator is left as \<open>a\<close>, so nothing is freed; when it is
  zero, \<open>r\<close> is purged and its extent is returned to the allocator. In both cases
  \<^verbatim>\<open>linked_headers_\<close> and \<^verbatim>\<open>recovery_segments_\<close> are unchanged and the status is
  \<^verbatim>\<open>Ok\<close>. (The assertion on the record type holds or is not compiled in, and the
  rebuilder has a thread cache.)
\<close>

theorem unlinked_candidate:
  "CheckAndRepairLinkage K (pmem_allocator s) r = (False, a) \<longrightarrow>
   (0 < CheckpointTS (checkpoint s) \<and> rebuilder_thread_cache s \<noteq> [] \<and>
    (kvdk_debug K \<longrightarrow> record_type (media (pmem_allocator s) r) = SortedRecord) \<longrightarrow>
      (\<exists>s'. AddHeader K tid s r = Inr (Ok, s') \<and>
         unlinked_records (rebuilder_thread_cache s' ! (tid mod length (rebuilder_thread_cache s))) =
           unlinked_records (rebuilder_thread_cache s ! (tid mod length (rebuilder_thread_cache s))) @ [r] \<and>
         pmem_allocator s' = a \<and>
         linked_headers s' = linked_headers s \<and> recovery_segments s' = recovery_segments s)) \<and>
   (CheckpointTS (checkpoint s) = 0 \<and>
    (kvdk_debug K \<longrightarrow> record_type (media (pmem_allocator s) r) = SortedRecord) \<longrightarrow>
      (\<exists>s'. AddHeader K tid s r = Inr (Ok, s') \<and>
         pmem_allocator s' = PurgeAndFree a r \<and>
         freed (pmem_allocator s') = freed a @ [(r, RecordSize (media a r))] \<and>
         rebuilder_thread_cache s' = rebuilder_thread_cache s \<and>
         linked_headers s' = linked_headers s \<and> recovery_segments s' = recovery_segments s)) \<and>
   (0 < CheckpointTS (checkpoint s) \<and> rebuilder_thread_cache s \<noteq> [] \<and>
    (kvdk_debug K \<longrightarrow> record_type (media (pmem_allocator s) r) = SortedElem) \<longrightarrow>
      (\<exists>s'. AddElement K tid s r = Some (Inr (Ok, s')) \<and>
         unlinked_records (rebuilder_thread_cache s' ! (tid mod length (rebuilder_thread_cache s))) =
           unlinked_records (rebuilder_thread_cache s ! (tid mod length (rebuilder_thread_cache s))) @ [r] \<and>
         pmem_allocator s' = a \<and>
         linked_headers s' = linked_headers s \<and> recovery_segments s' = recovery_segments s)) \<and>
   (CheckpointTS (checkpoint s) = 0 \<and>
    (kvdk_debug K \<longrightarrow> record_type (media (pmem_allocator s) r) = SortedElem) \<longrightarrow>
      (\<exists>s'. AddElement K tid s r = Some (Inr (Ok, s')) \<and>
         pmem_allocator s' = PurgeAndFree a r \<and>
         freed (pmem_allocator s') = freed a @ [(r, RecordSize (media a r))] \<and>
         rebuilder_thread_cache s' = rebuilder_thread_cache s \<and>
         linked_headers s' = linked_headers s \<and> recovery_segments s' = recovery_segments s))"
proof (intro impI conjI)
  assume c: "CheckAndRepairLinkage K (pmem_allocator s) r = (False, a)"
  {
    assume h: "0 < CheckpointTS (checkpoint s) \<and> rebuilder_thread_cache s \<noteq> [] \<and>
      (kvdk_debug K \<longrightarrow> record_type (media (pmem_allocator s) r) = SortedRecord)"
    from h have "rebuilder_thread_cache (s\<lparr>pmem_allocator := a\<rparr>) \<noteq> []" by simp
    from addUnlinkedRecord_Inr[OF this, of tid r]
    obtain s' where s': "addUnlinkedRecord tid (s\<lparr>pmem_allocator := a\<rparr>) r = Inr s'"
      "pmem_allocator s' = a" "linked_headers s' = linked_headers s"
      "recovery_segments s' = recovery_segments s"
      "unlinked_records (rebuilder_thread_cache s' ! (tid mod length (rebuilder_thread_cache s))) =
       unlinked_records (rebuilder_thread_cache s ! (tid mod length (rebuilder_thread_cache s))) @ [r]"
      by auto
    have "AddHeader K tid s r = Inr (Ok, s')"
      using c h s'(1) by (auto simp add: AddHeader_def recoverToCheckpoint_def)
    with s' show "\<exists>s'. AddHeader K tid s r = Inr (Ok, s') \<and>
         unlinked_records (rebuilder_thread_cache s' ! (tid mod length (rebuilder_thread_cache s))) =
           unlinked_records (rebuilder_thread_cache s ! (tid mod length (rebuilder_thread_cache s))) @ [r] \<and>
         pmem_allocator s' = a \<and>
         linked_headers s' = linked_headers s \<and> recovery_segments s' = recovery_segments s"
      by blast
  }
  {
    assume h: "CheckpointTS (checkpoint s) = 0 \<and>
      (kvdk_debug K \<longrightarrow> record_type (media (pmem_allocator s) r) = SortedRecord)"
    have "AddHeader K tid s r = Inr (Ok, s\<lparr>pmem_allocator := PurgeAndFree a r\<rparr>)"
      using c h by (auto simp add: AddHeader_def recoverToCheckpoint_def)
    then show "\<exists>s'. AddHeader K tid s r = Inr (Ok, s') \<and>
         pmem_allocator s' = PurgeAndFree a r \<and>
         freed (pmem_allocator s') = freed a @ [(r, RecordSize (media a r))] \<and>
         rebuilder_thread_cache s' = rebuilder_thread_cache s \<and>
         linked_headers s' = linked_headers s \<and> recovery_segments s' = recovery_segments s"
      by (simp add: PurgeAndFree_def)
  }
  {
    assume h: "0 < CheckpointTS (checkpoint s) \<and> rebuilder_thread_cache s \<noteq> [] \<and>
      (kvdk_debug K \<longrightarrow> record_type (media (pmem_allocator s) r) = SortedElem)"
    from h have "rebuilder_thread_cache (s\<lparr>pmem_allocator := a\<rparr>) \<noteq> []" by simp
    from addUnlinkedRecord_Inr[OF this, of tid r]
    obtain s' where s': "addUnlinkedRecord tid (s\<lparr>pmem_allocator := a\<rparr>) r = Inr s'"
      "pmem_allocator s' = a" "linked_headers s' = linked_headers s"
      "recovery_segments s' = recovery_segments s"
      "unlinked_records (rebuilder_thread_cache s' ! (tid mod length (rebuilder_thread_cache s))) =
       unlinked_records (rebuilder_thread_cache s ! (tid mod length (rebuilder_thread_cache s))) @ [r]"
      by auto
    have "AddElement K tid s r = Some (Inr (Ok, s'))"
      using c h s'(1) by (auto simp add: AddElement_def recoverToCheckpoint_def)
    with s' show "\<exists>s'. AddElement K tid s r = Some (Inr (Ok, s')) \<and>
         unlinked_records (rebuilder_thread_cache s' ! (tid mod length (rebuilder_thread_cache s))) =
           unlinked_records (rebuilder_thread_cache s ! (tid mod length (rebuilder_thread_cache s))) @ [r] \<and>
         pmem_allocator s' = a \<and>
         linked_headers s' = linked_headers s \<and> recovery_segments s' = recovery_segments s"
      by blast
  }
  {
    assume h: "CheckpointTS (checkpoint s) = 0 \<and>
      (kvdk_debug K \<longrightarrow> record_type (media (pmem_allocator s) r) = SortedElem)"
    have "AddElement K tid s r = Some (Inr (Ok, s\<lparr>pmem_allocator := PurgeAndFree a r\<rparr>))"
      using c h by (auto simp add: AddElement_def recoverToCheckpoint_def)
    then show "\<exists>s'. AddElement K tid s r = Some (Inr (Ok, s')) \<and>
         pmem_allocator s' = PurgeAndFree a r \<and>
         freed (pmem_allocator s') = freed a @ [(r, RecordSize (media a r))] \<and>
         rebuilder_thread_cache s' = rebuilder_thread_cache s \<and>
         linked_headers s' = linked_headers s \<and> recovery_segments s' = recovery_segments s"
      by (simp add: PurgeAndFree_def)
  }
qed

theorem unlinked_candidate_witness:
  "CheckAndRepairLinkage (example_K True)
     (pmem_allocator (example_rebuilder True 100 unlinked_store)) 128 = (False, unlinked_store) \<and>
   CheckAndRepairLinkage (example_K True)
     (pmem_allocator (example_rebuilder True 0 unlinked_store)) 192 = (False, unlinked_store) \<and>
   (\<exists>s'. AddHeader (example_K True) 7 (example_rebuilder True 100 unlinked_store) 128 = Inr (Ok, s') \<and>
      unlinked_records (rebuilder_thread_cache s' ! 0) = [128] \<and>
      pmem_allocator s' = unlinked_store \<and> linked_headers s' = [] \<and> recovery_segments s' = []) \<and>
   (\<exists>s'. AddHeader (example_K True) 7 (example_rebuilder True 0 unlinked_store) 128 = Inr (Ok, s') \<and>
      freed (pmem_allocator s') = [(128, 64)] \<and> linked_headers s' = [] \<and>
      recovery_segments s' = []) \<and>
   (\<exists>s'. AddElement (example_K True) 7 (example_rebuilder True 100 unlinked_store) 192 =
        Some (Inr (Ok, s')) \<and>
      unlinked_records (rebuilder_thread_cache s' ! 0) = [192] \<and>
      pmem_allocator s' = unlinked_store \<and> linked_headers s' = [] \<and> recovery_segments s' = []) \<and>
   (\<exists>s'. AddElement (example_K True) 7 (example_rebuilder True 0 unlinked_store) 192 =
        Some (Inr (Ok, s')) \<and>
      freed (pmem_allocator s') = [(192, 64)] \<and> linked_headers s' = [] \<and>
      recovery_segments s' = [])"
proof -
  have c1: "CheckAndRepairLinkage (example_K True)
     (pmem_allocator (example_rebuilder True 100 unlinked_store)) 128 = (False, unlinked_store)"
    and c2: "CheckAndRepairLinkage (example_K True)
     (pmem_allocator (example_rebuilder True 0 unlinked_store)) 128 = (False, unlinked_store)"
    and c3: "CheckAndRepairLinkage (example_K True)
     (pmem_allocator (example_rebuilder True 100 unlinked_store)) 192 = (False, unlinked_store)"
    and c4: "CheckAndRepairLinkage (example_K True)
     (pmem_allocator (example_rebuilder True 0 unlinked_store)) 192 = (False, unlinked_store)"
    by (simp_all add: example_K_def example_rebuilder_def example_CheckAndRepairLinkage_def
        unlinked_store_def example_store_def example_record_def)
  have s: "checkpoint (example_rebuilder True 100 unlinked_store) = \<lparr>CheckpointTS = 100\<rparr>"
    "checkpoint (example_rebuilder True 0 unlinked_store) = \<lparr>CheckpointTS = 0\<rparr>"
    "rebuilder_thread_cache (example_rebuilder True 100 unlinked_store) =
       [\<lparr>unlinked_records = [], visited_skiplists = (\<lambda>c. 0)\<rparr>]"
    "rebuilder_thread_cache (example_rebuilder True 0 unlinked_store) =
       [\<lparr>unlinked_records = [], visited_skiplists = (\<lambda>c. 0)\<rparr>]"
    "linked_headers (example_rebuilder True 100 unlinked_store) = []"
    "linked_headers (example_rebuilder True 0 unlinked_store) = []"
    "recovery_segments (example_rebuilder True 100 unlinked_store) = []"
    "recovery_segments (example_rebuilder True 0 unlinked_store) = []"
    "pmem_allocator (example_rebuilder True 100 unlinked_store) = unlinked_store"
    "pmem_allocator (example_rebuilder True 0 unlinked_store) = unlinked_store"
    by (simp_all add: example_rebuilder_def)
  have m: "record_type (media unlinked_store 128) = SortedRecord"
    "record_type (media unlinked_store 192) = SortedElem"
    "RecordSize (media unlinked_store 128) = 64"
    "RecordSize (media unlinked_store 192) = 64"
    "freed unlinked_store = []"
    by (simp_all add: unlinked_store_def example_store_def example_record_def)
  note t1 = unlinked_candidate[of "example_K True" "example_rebuilder True 100 unlinked_store"
      128 unlinked_store 7]
  note t2 = unlinked_candidate[of "example_K True" "example_rebuilder True 0 unlinked_store"
      128 unlinked_store 7]
  note t3 = unlinked_candidate[of "example_K True" "example_rebuilder True 100 unlinked_store"
      192 unlinked_store 7]
  note t4 = unlinked_candidate[of "example_K True" "example_rebuilder True 0 unlinked_store"
      192 unlinked_store 7]
  have r1: "\<exists>s'. AddHeader (example_K True) 7 (example_rebuilder True 100 unlinked_store) 128 = Inr (Ok, s') \<and>
      unlinked_records (rebuilder_thread_cache s' ! 0) = [128] \<and>
      pmem_allocator s' = unlinked_store \<and> linked_headers s' = [] \<and> recovery_segments s' = []"
    using t1 c1 s m by simp
  have r2: "\<exists>s'. AddHeader (example_K True) 7 (example_rebuilder True 0 unlinked_store) 128 = Inr (Ok, s') \<and>
      freed (pmem_allocator s') = [(128, 64)] \<and> linked_headers s' = [] \<and>
      recovery_segments s' = []"
    using t2 c2 s m by auto
  have r3: "\<exists>s'. AddElement (example_K True) 7 (example_rebuilder True 100 unlinked_store) 192 =
        Some (Inr (Ok, s')) \<and>
      unlinked_records (rebuilder_thread_cache s' ! 0) = [192] \<and>
      pmem_allocator s' = unlinked_store \<and> linked_headers s' = [] \<and> recovery_segments s' = []"
    using t3 c3 s m by simp
  have r4: "\<exists>s'. AddElement (example_K True) 7 (example_rebuilder True 0 unlinked_store) 192 =
        Some (Inr (Ok, s')) \<and>
      freed (pmem_allocator s') = [(192, 64)] \<and> linked_headers s' = [] \<and>
      recovery_segments s' = []"
    using t4 c4 s m by auto
  show ?thesis using c1 c4 r1 r2 r3 r4 by blast
qed

lemma NewNodeBuild_retry_returns:
  "NewNodeBuild K (build_calls s + d) \<noteq> None \<Longrightarrow>
   \<exists>n s'. NewNodeBuild_retry K s r = Some (n, s')"
proof (induction d arbitrary: s)
  case 0
  then obtain h where "NewNodeBuild K (build_calls s) = Some h" by auto
  then show ?case
    by (subst NewNodeBuild_retry.simps)
      (simp add: NewNodeBuild_call_def Let_def new_node_def)
next
  case (Suc d)
  show ?case
  proof (cases "NewNodeBuild K (build_calls s)")
    case None
    let ?s1 = "s\<lparr>build_calls := Suc (build_calls s)\<rparr>"
    have "NewNodeBuild K (build_calls ?s1 + d) \<noteq> None" using Suc.prems by simp
    from Suc.IH[OF this] obtain n s' where "NewNodeBuild_retry K ?s1 r = Some (n, s')"
      by blast
    then show ?thesis using None
      by (subst NewNodeBuild_retry.simps) (simp add: NewNodeBuild_call_def Let_def)
  next
    case (Some h)
    then show ?thesis
      by (subst NewNodeBuild_retry.simps)
        (simp add: NewNodeBuild_call_def Let_def new_node_def)
  qed
qed

lemma AddHeader_Ok: "AddHeader K tid s r = Inr (st, s') \<Longrightarrow> st = Ok"
  by (auto simp add: AddHeader_def Let_def split: if_splits prod.splits sum.splits)

lemma AddElement_Ok: "AddElement K tid s r = Some (Inr (st, s')) \<Longrightarrow> st = Ok"
  by (auto simp add: AddElement_def Let_def
      split: if_splits prod.splits sum.splits option.splits)

lemma Rollback_Ok: "Rollback K s off = Inr (st, s') \<Longrightarrow> st = Ok"
  by (auto simp add: Rollback_def Let_def split: if_splits prod.splits sum.splits)

lemma AddHeader_returns:
  "rebuilder_thread_cache s \<noteq> [] \<Longrightarrow>
   kvdk_debug K \<longrightarrow> record_type (media (pmem_allocator s) r) = SortedRecord \<Longrightarrow>
   \<exists>s'. AddHeader K tid s r = Inr (Ok, s')"
  by (auto simp add: AddHeader_def Let_def addUnlinkedRecord_def split: prod.splits)

lemma AddElement_returns:
  assumes "rebuilder_thread_cache s \<noteq> []" and "kRestoreSkiplistStride K \<noteq> 0"
    and "kvdk_debug K \<longrightarrow> record_type (media (pmem_allocator s) r) = SortedElem"
    and "findCheckpointVersion K (checkpoint s)
           (snd (CheckAndRepairLinkage K (pmem_allocator s) r)) r = Some (Inr v)"
    and "NewNodeBuild K (build_calls s + d) \<noteq> None"
  shows "\<exists>s'. AddElement K tid s r = Some (Inr (Ok, s'))"
proof -
  obtain l a where c: "CheckAndRepairLinkage K (pmem_allocator s) r = (l, a)"
    by (cases "CheckAndRepairLinkage K (pmem_allocator s) r")
  define s1 where "s1 = s\<lparr>pmem_allocator := a\<rparr>"
  define i where "i = tid mod length (rebuilder_thread_cache s)"
  define cid where "cid = FetchID K (media a r)"
  define n where "n = visited_skiplists (rebuilder_thread_cache s ! i) cid + 1"
  define s2 where "s2 = s1\<lparr>rebuilder_thread_cache :=
     (rebuilder_thread_cache s)[i := (rebuilder_thread_cache s ! i)
        \<lparr>visited_skiplists := (visited_skiplists (rebuilder_thread_cache s ! i))(cid := n)\<rparr>]\<rparr>"
  have b: "build_calls s2 = build_calls s" by (simp add: s2_def s1_def)
  from NewNodeBuild_retry_returns[of K s2 d r] assms(5) b
  obtain start s3 where r: "NewNodeBuild_retry K s2 r = Some (start, s3)" by auto
  have f: "findCheckpointVersion K (checkpoint s2) a r = Some (Inr v)"
    using assms(4) c by (simp add: s2_def s1_def)
  show ?thesis
    using assms(1,2,3) c f r
    unfolding AddElement_def s2_def s1_def n_def cid_def i_def
    by (auto simp add: Let_def addUnlinkedRecord_def)
qed

lemma Rollback_returns:
  assumes "validate_offset (pmem_allocator s) off"
    and "old_version (media (pmem_allocator s) off) = kNullPMemOffset \<or>
         validate_offset (pmem_allocator s) (old_version (media (pmem_allocator s) off))"
    and "kvdk_debug K \<longrightarrow>
         (if old_version (media (pmem_allocator s) off) = kNullPMemOffset
          then fst (Remove K (pmem_allocator s) off)
          else fst (Replace K (pmem_allocator s) off
                      (old_version (media (pmem_allocator s) off))))"
  shows "\<exists>s'. Rollback K s off = Inr (Ok, s')"
  using assms
  by (auto simp add: Rollback_def Let_def offset2addr_checked_def split: prod.splits)

text \<open>
  Claim C10. Whenever \<^verbatim>\<open>AddHeader\<close>, \<^verbatim>\<open>AddElement\<close> or \<^verbatim>\<open>Rollback\<close> returns a status, the
  status is \<^verbatim>\<open>Ok\<close>, whatever the record. And they do return: \<^verbatim>\<open>AddHeader\<close> when the
  rebuilder has a thread cache; \<^verbatim>\<open>AddElement\<close> when in addition the stride is not zero,
  the version walk of the record returns and some later call of \<^verbatim>\<open>NewNodeBuild\<close> gives a
  node; \<^verbatim>\<open>Rollback\<close> when the offset of the log entry and the old version stored at it
  are offsets of the mapped region (in each case, when the assertions of the function,
  for \<^verbatim>\<open>Rollback\<close> the success of the removal or replacement it makes, hold or are not
  compiled in).
\<close>

theorem intake_and_rollback_return_Ok:
  "(AddHeader K tid s r = Inr (st, s') \<longrightarrow> st = Ok) \<and>
   (AddElement K tid s r = Some (Inr (st, s')) \<longrightarrow> st = Ok) \<and>
   (Rollback K s off = Inr (st, s') \<longrightarrow> st = Ok) \<and>
   (rebuilder_thread_cache s \<noteq> [] \<and>
    (kvdk_debug K \<longrightarrow> record_type (media (pmem_allocator s) r) = SortedRecord) \<longrightarrow>
      (\<exists>s1. AddHeader K tid s r = Inr (Ok, s1))) \<and>
   (rebuilder_thread_cache s \<noteq> [] \<and> kRestoreSkiplistStride K \<noteq> 0 \<and>
    (kvdk_debug K \<longrightarrow> record_type (media (pmem_allocator s) r) = SortedElem) \<and>
    findCheckpointVersion K (checkpoint s)
      (snd (CheckAndRepairLinkage K (pmem_allocator s) r)) r = Some (Inr v) \<and>
    NewNodeBuild K (build_calls s + d) \<noteq> None \<longrightarrow>
      (\<exists>s1. AddElement K tid s r = Some (Inr (Ok, s1)))) \<and>
   (validate_offset (pmem_allocator s) off \<and>
    (old_version (media (pmem_allocator s) off) = kNullPMemOffset \<or>
     validate_offset (pmem_allocator s) (old_version (media (pmem_allocator s) off))) \<and>
    (kvdk_debug K \<longrightarrow>
       (if old_version (media (pmem_allocator s) off) = kNullPMemOffset
        then fst (Remove K (pmem_allocator s) off)
        else fst (Replace K (pmem_allocator s) off
                    (old_version (media (pmem_allocator s) off))))) \<longrightarrow>
      (\<exists>s1. Rollback K s off = Inr (Ok, s1)))"
  using AddHeader_Ok[of K tid s r st s'] AddElement_Ok[of K tid s r st s']
    Rollback_Ok[of K s off st s'] AddHeader_returns[of s K r tid]
    AddElement_returns[of s K r v d tid] Rollback_returns[of s off K]
  by blast

theorem intake_and_rollback_return_Ok_witness:
  "rebuilder_thread_cache (example_rebuilder True 0 list_store) \<noteq> [] \<and>
   kRestoreSkiplistStride (example_K True) \<noteq> 0 \<and>
   record_type (media list_store 64) = SortedRecord \<and>
   record_type (media list_store 128) = SortedElem \<and>
   findCheckpointVersion (example_K True) \<lparr>CheckpointTS = 0\<rparr> list_store 128 =
     Some (Inr (Some 128)) \<and>
   NewNodeBuild (example_K True) 0 \<noteq> None \<and>
   validate_offset list_store 128 \<and>
   old_version (media list_store 128) = kNullPMemOffset \<and>
   fst (Remove (example_K True) list_store 128) \<and>
   (\<exists>s1. AddHeader (example_K True) 0 (example_rebuilder True 0 list_store) 64 = Inr (Ok, s1)) \<and>
   (\<exists>s1. AddElement (example_K True) 0 (example_rebuilder True 0 list_store) 128 =
      Some (Inr (Ok, s1))) \<and>
   (\<exists>s1. Rollback (example_K True) (example_rebuilder True 0 list_store) 128 = Inr (Ok, s1))"
proof -
  have s: "pmem_allocator (example_rebuilder True 0 list_store) = list_store"
    "checkpoint (example_rebuilder True 0 list_store) = \<lparr>CheckpointTS = 0\<rparr>"
    "build_calls (example_rebuilder True 0 list_store) = 0"
    by (simp_all add: example_rebuilder_def)
  have c: "rebuilder_thread_cache (example_rebuilder True 0 list_store) \<noteq> []"
    by (simp add: example_rebuilder_def)
  have k: "kRestoreSkiplistStride (example_K True) \<noteq> 0"
    "NewNodeBuild (example_K True) 0 \<noteq> None"
    by (simp_all add: example_K_def)
  have m: "record_type (media list_store 64) = SortedRecord"
    "record_type (media list_store 128) = SortedElem"
    "validate_offset list_store 128"
    "old_version (media list_store 128) = kNullPMemOffset"
    "fst (Remove (example_K True) list_store 128)"
    "snd (CheckAndRepairLinkage (example_K True) list_store 128) = list_store"
    by code_simp+
  have f: "findCheckpointVersion (example_K True) \<lparr>CheckpointTS = 0\<rparr> list_store 128 =
     Some (Inr (Some 128))"
    by (simp add: findCheckpointVersion_def recoverToCheckpoint_def)
  note t = intake_and_rollback_return_Ok[of "example_K True" 0
      "example_rebuilder True 0 list_store" _ _ _ 128]
  have r1: "\<exists>s1. AddHeader (example_K True) 0 (example_rebuilder True 0 list_store) 64 = Inr (Ok, s1)"
    using intake_and_rollback_return_Ok[of "example_K True" 0
      "example_rebuilder True 0 list_store" 64] c s m by simp
  have r2: "\<exists>s1. AddElement (example_K True) 0 (example_rebuilder True 0 list_store) 128 =
      Some (Inr (Ok, s1))"
    using intake_and_rollback_return_Ok[of "example_K True" 0
      "example_rebuilder True 0 list_store" 128 _ _ _ "Some 128" 0] c s k m f by simp
  have r3: "\<exists>s1. Rollback (example_K True) (example_rebuilder True 0 list_store) 128 = Inr (Ok, s1)"
    using intake_and_rollback_return_Ok[of "example_K True" 0
      "example_rebuilder True 0 list_store" _ _ _ 128] s m by simp
  show ?thesis using c k m f r1 r2 r3 by simp
qed

text \<open>
  Claim C7. \<^verbatim>\<open>Rollback\<close> loads the element \<open>elem\<close> at the offset of the log entry. When it
  validates and its prev linkage is intact, it is removed with \<^verbatim>\<open>Skiplist::Remove\<close> if
  its \<^verbatim>\<open>old_version\<close> is null and replaced by its old version with \<^verbatim>\<open>Skiplist::Replace\<close>
  otherwise; then, and also when validation or linkage fails, it is destroyed in the
  store that was left. Whenever \<^verbatim>\<open>Rollback\<close> returns, the element is destroyed.
\<close>

theorem Rollback_removes_or_replaces_then_destroys:
  "offset2addr_checked (kvdk_debug K) (pmem_allocator s) off = Inr elem \<longrightarrow>
   (Validate (media (pmem_allocator s) elem) \<and> CheckPrevLinkage (pmem_allocator s) elem \<and>
    old_version (media (pmem_allocator s) elem) = kNullPMemOffset \<and>
    (kvdk_debug K \<longrightarrow> fst (Remove K (pmem_allocator s) elem)) \<longrightarrow>
      Rollback K s off =
        Inr (Ok, s\<lparr>pmem_allocator := Destroy (snd (Remove K (pmem_allocator s) elem)) elem\<rparr>)) \<and>
   (Validate (media (pmem_allocator s) elem) \<and> CheckPrevLinkage (pmem_allocator s) elem \<and>
    old_version (media (pmem_allocator s) elem) \<noteq> kNullPMemOffset \<and>
    offset2addr_checked (kvdk_debug K) (pmem_allocator s)
      (old_version (media (pmem_allocator s) elem)) = Inr old \<and>
    (kvdk_debug K \<longrightarrow> fst (Replace K (pmem_allocator s) elem old)) \<longrightarrow>
      Rollback K s off =
        Inr (Ok, s\<lparr>pmem_allocator := Destroy (snd (Replace K (pmem_allocator s) elem old)) elem\<rparr>)) \<and>
   (\<not> (Validate (media (pmem_allocator s) elem) \<and> CheckPrevLinkage (pmem_allocator s) elem) \<longrightarrow>
      Rollback K s off = Inr (Ok, s\<lparr>pmem_allocator := Destroy (pmem_allocator s) elem\<rparr>)) \<and>
   (Rollback K s off = Inr (st, s') \<longrightarrow> destroyed (media (pmem_allocator s') elem))"
proof (intro impI conjI)
  assume e: "offset2addr_checked (kvdk_debug K) (pmem_allocator s) off = Inr elem"
  {
    assume "Validate (media (pmem_allocator s) elem) \<and> CheckPrevLinkage (pmem_allocator s) elem \<and>
      old_version (media (pmem_allocator s) elem) = kNullPMemOffset \<and>
      (kvdk_debug K \<longrightarrow> fst (Remove K (pmem_allocator s) elem))"
    then show "Rollback K s off =
        Inr (Ok, s\<lparr>pmem_allocator := Destroy (snd (Remove K (pmem_allocator s) elem)) elem\<rparr>)"
      using e by (auto simp add: Rollback_def Let_def split: prod.splits)
  }
  {
    assume "Validate (media (pmem_allocator s) elem) \<and> CheckPrevLinkage (pmem_allocator s) elem \<and>
      old_version (media (pmem_allocator s) elem) \<noteq> kNullPMemOffset \<and>
      offset2addr_checked (kvdk_debug K) (pmem_allocator s)
        (old_version (media (pmem_allocator s) elem)) = Inr old \<and>
      (kvdk_debug K \<longrightarrow> fst (Replace K (pmem_allocator s) elem old))"
    then show "Rollback K s off =
        Inr (Ok, s\<lparr>pmem_allocator := Destroy (snd (Replace K (pmem_allocator s) elem old)) elem\<rparr>)"
      using e by (auto simp add: Rollback_def Let_def split: prod.splits)
  }
  {
    assume "\<not> (Validate (media (pmem_allocator s) elem) \<and> CheckPrevLinkage (pmem_allocator s) elem)"
    then show "Rollback K s off = Inr (Ok, s\<lparr>pmem_allocator := Destroy (pmem_allocator s) elem\<rparr>)"
      using e by (auto simp add: Rollback_def Let_def)
  }
  {
    assume "Rollback K s off = Inr (st, s')"
    then show "destroyed (media (pmem_allocator s') elem)"
      using e
      by (auto simp add: Rollback_def Let_def Destroy_def
          split: if_splits prod.splits sum.splits)
  }
qed

theorem Rollback_removes_or_replaces_then_destroys_witness:
  "offset2addr_checked True list_store 128 = Inr 128 \<and>
   Validate (media list_store 128) \<and> CheckPrevLinkage list_store 128 \<and>
   old_version (media list_store 128) = kNullPMemOffset \<and>
   fst (Remove (example_K True) list_store 128) \<and>
   (\<exists>s'. Rollback (example_K True) (example_rebuilder False 0 list_store) 128 = Inr (Ok, s') \<and>
      next_off (media (pmem_allocator s') 64) = 192 \<and>
      prev (media (pmem_allocator s') 192) = 64 \<and>
      destroyed (media (pmem_allocator s') 128)) \<and>
   offset2addr_checked True list_store 192 = Inr 192 \<and>
   Validate (media list_store 192) \<and> CheckPrevLinkage list_store 192 \<and>
   old_version (media list_store 192) = 320 \<and>
   offset2addr_checked True list_store 320 = Inr 320 \<and>
   fst (Replace (example_K True) list_store 192 320) \<and>
   (\<exists>s'. Rollback (example_K True) (example_rebuilder False 0 list_store) 192 = Inr (Ok, s') \<and>
      next_off (media (pmem_allocator s') 128) = 320 \<and>
      prev (media (pmem_allocator s') 256) = 320 \<and>
      destroyed (media (pmem_allocator s') 192)) \<and>
   offset2addr_checked True unlinked_store 192 = Inr 192 \<and>
   \<not> CheckPrevLinkage unlinked_store 192 \<and>
   (\<exists>s'. Rollback (example_K True) (example_rebuilder False 0 unlinked_store) 192 = Inr (Ok, s') \<and>
      media (pmem_allocator s') 64 = media unlinked_store 64 \<and>
      destroyed (media (pmem_allocator s') 192))"
proof -
  have s: "pmem_allocator (example_rebuilder False 0 list_store) = list_store"
    "pmem_allocator (example_rebuilder False 0 unlinked_store) = unlinked_store"
    by (simp_all add: example_rebuilder_def)
  have k: "kvdk_debug (example_K True)" by (simp add: example_K_def)
  have h1: "offset2addr_checked True list_store 128 = Inr 128"
    "Validate (media list_store 128)" "CheckPrevLinkage list_store 128"
    "old_version (media list_store 128) = kNullPMemOffset"
    "fst (Remove (example_K True) list_store 128)"
    by code_simp+
  have h2: "offset2addr_checked True list_store 192 = Inr 192"
    "Validate (media list_store 192)" "CheckPrevLinkage list_store 192"
    "old_version (media list_store 192) = 320"
    "old_version (media list_store 192) \<noteq> kNullPMemOffset"
    "offset2addr_checked True list_store 320 = Inr 320"
    "fst (Replace (example_K True) list_store 192 320)"
    by code_simp+
  have h3: "offset2addr_checked True unlinked_store 192 = Inr 192"
    "\<not> CheckPrevLinkage unlinked_store 192"
    by code_simp+
  have o1: "next_off (media (Destroy (snd (Remove (example_K True) list_store 128)) 128) 64) = 192"
    "prev (media (Destroy (snd (Remove (example_K True) list_store 128)) 128) 192) = 64"
    "destroyed (media (Destroy (snd (Remove (example_K True) list_store 128)) 128) 128)"
    by code_simp+
  have o2: "next_off (media (Destroy (snd (Replace (example_K True) list_store 192 320)) 192) 128) = 320"
    "prev (media (Destroy (snd (Replace (example_K True) list_store 192 320)) 192) 256) = 320"
    "destroyed (media (Destroy (snd (Replace (example_K True) list_store 192 320)) 192) 192)"
    by code_simp+
  have o3: "media (Destroy unlinked_store 192) 64 = media unlinked_store 64"
    "destroyed (media (Destroy unlinked_store 192) 192)"
    by (simp_all add: Destroy_def)
  have r1: "Rollback (example_K True) (example_rebuilder False 0 list_store) 128 =
     Inr (Ok, (example_rebuilder False 0 list_store)
       \<lparr>pmem_allocator := Destroy (snd (Remove (example_K True) list_store 128)) 128\<rparr>)"
    using Rollback_removes_or_replaces_then_destroys[of "example_K True"
        "example_rebuilder False 0 list_store" 128 128] s k h1
    by simp
  have r2: "Rollback (example_K True) (example_rebuilder False 0 list_store) 192 =
     Inr (Ok, (example_rebuilder False 0 list_store)
       \<lparr>pmem_allocator := Destroy (snd (Replace (example_K True) list_store 192 320)) 192\<rparr>)"
    using Rollback_removes_or_replaces_then_destroys[of "example_K True"
        "example_rebuilder False 0 list_store" 192 192 320] s k h2
    by simp
  have r3: "Rollback (example_K True) (example_rebuilder False 0 unlinked_store) 192 =
     Inr (Ok, (example_rebuilder False 0 unlinked_store)
       \<lparr>pmem_allocator := Destroy unlinked_store 192\<rparr>)"
    using Rollback_removes_or_replaces_then_destroys[of "example_K True"
        "example_rebuilder False 0 unlinked_store" 192 192] s k h3
    by simp
  show ?thesis
    using h1 h2(1,2,3,4,6,7) h3 r1 r2 r3 o1 o2 o3 by simp
qed

text \<open>
  Claim C9. For every key and index pointer that the rebuilder handles (the record behind
  it has the expected type, or assertions are not compiled in), \<^verbatim>\<open>insertHashIndex\<close>
  returns \<^verbatim>\<open>Ok\<close> when the hash table's \<^verbatim>\<open>Insert\<close> reports \<^verbatim>\<open>NotFound\<close>, \<^verbatim>\<open>Abort\<close> when it
  reports \<^verbatim>\<open>Ok\<close>, and any other status as it is; the hash table is the one that \<^verbatim>\<open>Insert\<close>
  left. Conversely every status that \<^verbatim>\<open>insertHashIndex\<close> returns comes from \<^verbatim>\<open>Insert\<close> in
  this way.
\<close>

theorem insertHashIndex_status:
  "(index_record s p = Some (rtype, r) \<and>
    (kvdk_debug K \<longrightarrow> record_type (media (pmem_allocator s) r) = rtype) \<and>
    Insert K (hash_table s) k rtype (record_status (media (pmem_allocator s) r)) p = (ls, ht) \<longrightarrow>
      insertHashIndex K s k p =
        Inr (if ls = NotFound then Ok else if ls = Ok then Abort else ls, s\<lparr>hash_table := ht\<rparr>)) \<and>
   (insertHashIndex K s k p = Inr (st, s') \<longrightarrow>
      (\<exists>rtype' r' ls'. index_record s p = Some (rtype', r') \<and>
         Insert K (hash_table s) k rtype' (record_status (media (pmem_allocator s) r')) p =
           (ls', hash_table s') \<and>
         st = (if ls' = NotFound then Ok else if ls' = Ok then Abort else ls')))"
proof (intro conjI impI)
  assume "index_record s p = Some (rtype, r) \<and>
    (kvdk_debug K \<longrightarrow> record_type (media (pmem_allocator s) r) = rtype) \<and>
    Insert K (hash_table s) k rtype (record_status (media (pmem_allocator s) r)) p = (ls, ht)"
  then show "insertHashIndex K s k p =
        Inr (if ls = NotFound then Ok else if ls = Ok then Abort else ls, s\<lparr>hash_table := ht\<rparr>)"
    by (cases ls) (auto simp add: insertHashIndex_def)
next
  assume a: "insertHashIndex K s k p = Inr (st, s')"
  then obtain rtype' r' where i: "index_record s p = Some (rtype', r')"
    by (auto simp add: insertHashIndex_def split: option.splits if_splits)
  obtain ls' ht' where l:
    "Insert K (hash_table s) k rtype' (record_status (media (pmem_allocator s) r')) p = (ls', ht')"
    by (cases "Insert K (hash_table s) k rtype' (record_status (media (pmem_allocator s) r')) p")
  from a i l have "hash_table s' = ht' \<and>
      st = (if ls' = NotFound then Ok else if ls' = Ok then Abort else ls')"
    by (cases ls') (auto simp add: insertHashIndex_def split: if_splits)
  with i l show "\<exists>rtype' r' ls'. index_record s p = Some (rtype', r') \<and>
         Insert K (hash_table s) k rtype' (record_status (media (pmem_allocator s) r')) p =
           (ls', hash_table s') \<and>
         st = (if ls' = NotFound then Ok else if ls' = Ok then Abort else ls')"
    by blast
qed

theorem insertHashIndex_status_witness:
  "index_record (example_rebuilder False 0 list_store) (DLRecord_pointer 128) =
     Some (SortedElem, 128) \<and>
   record_type (media list_store 128) = SortedElem \<and>
   Insert (example_K True) [] ''1a'' SortedElem Normal (DLRecord_pointer 128) =
     (NotFound, [(''1a'', \<lparr>entry_type = SortedElem, entry_status = Normal,
                         entry_index = DLRecord_pointer 128\<rparr>)]) \<and>
   insertHashIndex (example_K True) (example_rebuilder False 0 list_store) ''1a''
       (DLRecord_pointer 128) =
     Inr (Ok, (example_rebuilder False 0 list_store)
            \<lparr>hash_table := [(''1a'', \<lparr>entry_type = SortedElem, entry_status = Normal,
                                     entry_index = DLRecord_pointer 128\<rparr>)]\<rparr>) \<and>
   Insert (example_K True)
       [(''1a'', \<lparr>entry_type = SortedElem, entry_status = Normal,
                  entry_index = DLRecord_pointer 320\<rparr>)]
       ''1a'' SortedElem Normal (DLRecord_pointer 128) =
     (Ok, [(''1a'', \<lparr>entry_type = SortedElem, entry_status = Normal,
                   entry_index = DLRecord_pointer 128\<rparr>)]) \<and>
   insertHashIndex (example_K True)
       ((example_rebuilder False 0 list_store)
          \<lparr>hash_table := [(''1a'', \<lparr>entry_type = SortedElem, entry_status = Normal,
                                   entry_index = DLRecord_pointer 320\<rparr>)]\<rparr>)
       ''1a'' (DLRecord_pointer 128) =
     Inr (Abort, (example_rebuilder False 0 list_store)
            \<lparr>hash_table := [(''1a'', \<lparr>entry_type = SortedElem, entry_status = Normal,
                                     entry_index = DLRecord_pointer 128\<rparr>)]\<rparr>) \<and>
   insertHashIndex ((example_K True)\<lparr>Insert := (\<lambda>ht k t st p. (OtherStatus 7, ht))\<rparr>)
       (example_rebuilder False 0 list_store) ''1a'' (DLRecord_pointer 128) =
     Inr (OtherStatus 7, (example_rebuilder False 0 list_store)\<lparr>hash_table := []\<rparr>)"
proof -
  let ?s = "example_rebuilder False 0 list_store"
  let ?e = "\<lambda>p. [(''1a'', \<lparr>entry_type = SortedElem, entry_status = Normal,
                         entry_index = DLRecord_pointer p\<rparr>)]"
  have s: "pmem_allocator ?s = list_store" "hash_table ?s = []"
    "\<And>h. pmem_allocator (?s\<lparr>hash_table := h\<rparr>) = list_store"
    "\<And>h. hash_table (?s\<lparr>hash_table := h\<rparr>) = h"
    by (simp_all add: example_rebuilder_def)
  have i: "\<And>h. index_record (?s\<lparr>hash_table := h\<rparr>) (DLRecord_pointer 128) = Some (SortedElem, 128)"
    "index_record ?s (DLRecord_pointer 128) = Some (SortedElem, 128)"
    by (simp_all add: index_record_def)
  have m: "record_type (media list_store 128) = SortedElem"
    "record_status (media list_store 128) = Normal"
    by code_simp+
  have l1: "Insert (example_K True) [] ''1a'' SortedElem Normal (DLRecord_pointer 128) =
     (NotFound, ?e 128)"
    by (simp add: example_K_def example_Insert_def)
  have l2: "Insert (example_K True) (?e 320) ''1a'' SortedElem Normal (DLRecord_pointer 128) =
     (Ok, ?e 128)"
    by (simp add: example_K_def example_Insert_def)
  have l3: "Insert ((example_K True)\<lparr>Insert := (\<lambda>ht k t st p. (OtherStatus 7, ht))\<rparr>) []
      ''1a'' SortedElem Normal (DLRecord_pointer 128) = (OtherStatus 7, [])"
    by simp
  have r1: "insertHashIndex (example_K True) ?s ''1a'' (DLRecord_pointer 128) =
     Inr (Ok, ?s\<lparr>hash_table := ?e 128\<rparr>)"
    using insertHashIndex_status[THEN conjunct1, of ?s "DLRecord_pointer 128" SortedElem 128 "example_K True"
        "''1a''" NotFound "?e 128"] s i m l1
    by simp
  have r2: "insertHashIndex (example_K True) (?s\<lparr>hash_table := ?e 320\<rparr>) ''1a''
       (DLRecord_pointer 128) = Inr (Abort, ?s\<lparr>hash_table := ?e 128\<rparr>)"
    using insertHashIndex_status[THEN conjunct1, of "?s\<lparr>hash_table := ?e 320\<rparr>" "DLRecord_pointer 128"
        SortedElem 128 "example_K True" "''1a''" Ok "?e 128"] s i m l2
    by simp
  have r3: "insertHashIndex ((example_K True)\<lparr>Insert := (\<lambda>ht k t st p. (OtherStatus 7, ht))\<rparr>)
       ?s ''1a'' (DLRecord_pointer 128) = Inr (OtherStatus 7, ?s\<lparr>hash_table := []\<rparr>)"
    using insertHashIndex_status[THEN conjunct1, of ?s "DLRecord_pointer 128" SortedElem 128
        "(example_K True)\<lparr>Insert := (\<lambda>ht k t st p. (OtherStatus 7, ht))\<rparr>"
        "''1a''" "OtherStatus 7" "[]"] s i m l3
    by simp
  show ?thesis by (intro conjI i(2) m(1) l1 l2 r1 r2 r3)
qed

section \<open>Properties of reclamation\<close>

text \<open>
  Claim C6, as stated, fails. The element at 192 of the store \<open>unlinked_store\<close> passes
  \<^verbatim>\<open>MatchType\<close> and fails \<^verbatim>\<open>CheckLinkage\<close>; the element at 128 of the store \<open>list_store\<close>,
  once destroyed, fails \<^verbatim>\<open>MatchType\<close> and passes \<^verbatim>\<open>CheckLinkage\<close>. Neither fails both
  checks, and each is destroyed and its extent freed.
\<close>

theorem cleanInvalidRecords_either_check_counterexample:
  "MatchType (example_K True) (media unlinked_store 192) \<and>
   \<not> CheckLinkage unlinked_store 192 \<and>
   \<not> destroyed (media unlinked_store 192) \<and>
   destroyed (media (fst (clean_thread_caches (example_K True) unlinked_store
     [\<lparr>unlinked_records = [192], visited_skiplists = (\<lambda>c. 0)\<rparr>])) 192) \<and>
   freed (fst (clean_thread_caches (example_K True) unlinked_store
     [\<lparr>unlinked_records = [192], visited_skiplists = (\<lambda>c. 0)\<rparr>])) = [(192, 64)] \<and>
   \<not> MatchType (example_K True) (media (Destroy list_store 128) 128) \<and>
   CheckLinkage (Destroy list_store 128) 128 \<and>
   freed (fst (clean_thread_caches (example_K True) (Destroy list_store 128)
     [\<lparr>unlinked_records = [128], visited_skiplists = (\<lambda>c. 0)\<rparr>])) = [(128, 64)]"
  by code_simp

text \<open>
  The records that the pass destroys: those that fail \<^verbatim>\<open>MatchType\<close> or \<^verbatim>\<open>CheckLinkage\<close>.
\<close>

definition fails_recheck :: "Collaborators \<Rightarrow> PMEMAllocator \<Rightarrow> PMemOffsetType \<Rightarrow> bool" where
  "fails_recheck K a p = (\<not> MatchType K (media a p) \<or> \<not> CheckLinkage a p)"

text \<open>
  The store after a pass over the records \<open>rs\<close>: the records of \<open>rs\<close> that fail a check
  are marked destroyed and every other record is as before.
\<close>

definition destroy_all :: "Collaborators \<Rightarrow> PMEMAllocator \<Rightarrow> PMemOffsetType list \<Rightarrow>
    PMemOffsetType \<Rightarrow> DLRecord" where
  "destroy_all K a rs p =
     (if p \<in> set rs \<and> fails_recheck K a p then (media a p)\<lparr>destroyed := True\<rparr> else media a p)"

definition extents :: "Collaborators \<Rightarrow> PMEMAllocator \<Rightarrow> PMemOffsetType list \<Rightarrow> SpaceEntry list"
  where
  "extents K a rs = map (\<lambda>p. (p, RecordSize (media a p))) (filter (fails_recheck K a) rs)"

lemma CheckLinkage_media:
  "(\<And>x. prev (media a' x) = prev (media a x)) \<Longrightarrow>
   (\<And>x. next_off (media a' x) = next_off (media a x)) \<Longrightarrow>
   CheckLinkage a' p = CheckLinkage a p"
  by (simp add: CheckLinkage_def CheckPrevLinkage_def CheckNextLinkage_def)

lemma fails_recheck_Destroy:
  "p \<noteq> r \<Longrightarrow> fails_recheck K (Destroy a r) p = fails_recheck K a p"
proof -
  assume "p \<noteq> r"
  have "CheckLinkage (Destroy a r) p = CheckLinkage a p"
    by (rule CheckLinkage_media) (simp_all add: Destroy_def)
  with \<open>p \<noteq> r\<close> show ?thesis by (simp add: fails_recheck_def Destroy_def)
qed

lemma clean_unlinked_records_distinct:
  "distinct rs \<Longrightarrow>
   clean_unlinked_records K a to_free rs =
     (a\<lparr>media := destroy_all K a rs\<rparr>, to_free @ extents K a rs)"
proof (induction rs arbitrary: a to_free)
  case Nil
  then show ?case by (simp add: destroy_all_def extents_def)
next
  case (Cons r rs)
  then have d: "distinct rs" and n: "r \<notin> set rs" by simp_all
  show ?case
  proof (cases "fails_recheck K a r")
    case True
    let ?a1 = "Destroy a r"
    have f: "\<And>p. p \<in> set rs \<Longrightarrow> fails_recheck K ?a1 p = fails_recheck K a p"
      using n fails_recheck_Destroy by metis
    have m: "destroy_all K ?a1 rs = destroy_all K a (r # rs)"
    proof
      fix p
      show "destroy_all K ?a1 rs p = destroy_all K a (r # rs) p"
        using f[of p] True n by (auto simp add: destroy_all_def Destroy_def)
    qed
    have e: "extents K ?a1 rs = extents K a rs"
    proof -
      have "filter (fails_recheck K ?a1) rs = filter (fails_recheck K a) rs"
        using f by (intro filter_cong) simp_all
      moreover have "\<And>p. p \<in> set rs \<Longrightarrow> RecordSize (media ?a1 p) = RecordSize (media a p)"
        using n by (auto simp add: Destroy_def)
      ultimately show ?thesis by (auto simp add: extents_def)
    qed
    have "clean_unlinked_records K a to_free (r # rs) =
          clean_unlinked_records K ?a1 (to_free @ [(r, RecordSize (media ?a1 r))]) rs"
      using True by (simp add: fails_recheck_def Let_def)
    also have "\<dots> = (?a1\<lparr>media := destroy_all K ?a1 rs\<rparr>,
        (to_free @ [(r, RecordSize (media ?a1 r))]) @ extents K ?a1 rs)"
      by (rule Cons.IH[OF d])
    also have "\<dots> = (a\<lparr>media := destroy_all K a (r # rs)\<rparr>, to_free @ extents K a (r # rs))"
      using True m e by (simp add: extents_def Destroy_def)
    finally show ?thesis .
  next
    case False
    have m: "destroy_all K a rs = destroy_all K a (r # rs)"
      using False by (auto simp add: destroy_all_def)
    have "clean_unlinked_records K a to_free (r # rs) = clean_unlinked_records K a to_free rs"
      using False by (simp add: fails_recheck_def)
    also have "\<dots> = (a\<lparr>media := destroy_all K a rs\<rparr>, to_free @ extents K a rs)"
      by (rule Cons.IH[OF d])
    also have "\<dots> = (a\<lparr>media := destroy_all K a (r # rs)\<rparr>, to_free @ extents K a (r # rs))"
      using False m by (simp add: extents_def)
    finally show ?thesis .
  qed
qed

lemma fails_recheck_cong:
  "media a' p = media a p \<Longrightarrow>
   (\<And>x. prev (media a' x) = prev (media a x)) \<Longrightarrow>
   (\<And>x. next_off (media a' x) = next_off (media a x)) \<Longrightarrow>
   fails_recheck K a' p = fails_recheck K a p"
  using CheckLinkage_media[of a' a p] by (simp add: fails_recheck_def)

lemma clean_thread_caches_distinct:
  "distinct (concat (map unlinked_records cs)) \<Longrightarrow>
   clean_thread_caches K a cs =
     (a\<lparr>media := destroy_all K a (concat (map unlinked_records cs)),
        freed := freed a @ extents K a (concat (map unlinked_records cs))\<rparr>,
      map (\<lambda>c. c\<lparr>unlinked_records := []\<rparr>) cs)"
proof (induction cs arbitrary: a)
  case Nil
  have "destroy_all K a [] = media a" by (rule ext) (simp add: destroy_all_def)
  then show ?case by (simp add: extents_def)
next
  case (Cons c cs)
  let ?q = "unlinked_records c"
  let ?Q = "concat (map unlinked_records cs)"
  from Cons.prems have d1: "distinct ?q" and d2: "distinct ?Q"
    and dj: "set ?q \<inter> set ?Q = {}" by simp_all
  let ?a2 = "a\<lparr>media := destroy_all K a ?q, freed := freed a @ extents K a ?q\<rparr>"
  have u: "clean_unlinked_records K a [] ?q = (a\<lparr>media := destroy_all K a ?q\<rparr>, extents K a ?q)"
    using clean_unlinked_records_distinct[OF d1, of K a "[]"] by simp
  have f: "\<And>p. p \<in> set ?Q \<Longrightarrow> fails_recheck K ?a2 p = fails_recheck K a p"
  proof -
    fix p assume "p \<in> set ?Q"
    with dj have "p \<notin> set ?q" by auto
    then show "fails_recheck K ?a2 p = fails_recheck K a p"
      by (intro fails_recheck_cong) (simp_all add: destroy_all_def)
  qed
  have m: "destroy_all K ?a2 ?Q = destroy_all K a (?q @ ?Q)"
  proof
    fix p
    show "destroy_all K ?a2 ?Q p = destroy_all K a (?q @ ?Q) p"
    proof (cases "p \<in> set ?Q")
      case True
      with dj have "p \<notin> set ?q" by auto
      with True f[OF True] show ?thesis by (simp add: destroy_all_def)
    next
      case False
      then show ?thesis by (simp add: destroy_all_def)
    qed
  qed
  have e: "extents K ?a2 ?Q = extents K a ?Q"
  proof -
    have "filter (fails_recheck K ?a2) ?Q = filter (fails_recheck K a) ?Q"
      using f by (intro filter_cong) simp_all
    moreover have "\<And>p. p \<in> set ?Q \<Longrightarrow> RecordSize (media ?a2 p) = RecordSize (media a p)"
      using dj by (auto simp add: destroy_all_def)
    ultimately show ?thesis by (auto simp add: extents_def)
  qed
  have x: "extents K a (?q @ ?Q) = extents K a ?q @ extents K a ?Q"
    by (simp add: extents_def)
  have b: "BatchFree (a\<lparr>media := destroy_all K a ?q\<rparr>) (extents K a ?q) = ?a2"
    by (simp add: BatchFree_def)
  show ?case
    using u b Cons.IH[OF d2, of ?a2] m e x by simp
qed

text \<open>
  Claim C6, amended. In the pass of \<^verbatim>\<open>cleanInvalidRecords\<close> over the unlinked queues (each
  record queued once), a queued record is destroyed and its extent is batched and freed
  exactly when it fails at least one of the re-checks \<^verbatim>\<open>MatchType\<close> and \<^verbatim>\<open>CheckLinkage\<close>;
  a record that passes both, and every record that is not queued, is left as it was.
  The extents are freed in the order of the queues, and the queues are cleared. With no
  invalid skiplist to destroy, this is the store that \<^verbatim>\<open>cleanInvalidRecords\<close> leaves.
\<close>

theorem cleanInvalidRecords_destroys_failed:
  "distinct (concat (map unlinked_records cs)) \<longrightarrow>
   (\<forall>p. media (fst (clean_thread_caches K a cs)) p =
      (if p \<in> set (concat (map unlinked_records cs)) \<and>
          (\<not> MatchType K (media a p) \<or> \<not> CheckLinkage a p)
       then (media a p)\<lparr>destroyed := True\<rparr> else media a p)) \<and>
   freed (fst (clean_thread_caches K a cs)) =
     freed a @ map (\<lambda>p. (p, RecordSize (media a p)))
       (filter (\<lambda>p. \<not> MatchType K (media a p) \<or> \<not> CheckLinkage a p)
          (concat (map unlinked_records cs))) \<and>
   map unlinked_records (snd (clean_thread_caches K a cs)) = map (\<lambda>c. []) cs \<and>
   (invalid_skiplists s = [] \<and> pmem_allocator s = a \<and> rebuilder_thread_cache s = cs \<longrightarrow>
      pmem_allocator (cleanInvalidRecords K s) = fst (clean_thread_caches K a cs))"
proof
  assume d: "distinct (concat (map unlinked_records cs))"
  note c = clean_thread_caches_distinct[OF d, of K a]
  have 1: "\<forall>p. media (fst (clean_thread_caches K a cs)) p =
      (if p \<in> set (concat (map unlinked_records cs)) \<and>
          (\<not> MatchType K (media a p) \<or> \<not> CheckLinkage a p)
       then (media a p)\<lparr>destroyed := True\<rparr> else media a p)"
    unfolding c by (simp add: destroy_all_def fails_recheck_def)
  have 2: "freed (fst (clean_thread_caches K a cs)) =
     freed a @ map (\<lambda>p. (p, RecordSize (media a p)))
       (filter (\<lambda>p. \<not> MatchType K (media a p) \<or> \<not> CheckLinkage a p)
          (concat (map unlinked_records cs)))"
    unfolding c by (simp add: extents_def fails_recheck_def[abs_def])
  have 3: "map unlinked_records (snd (clean_thread_caches K a cs)) = map (\<lambda>c. []) cs"
    unfolding c by simp
  have 4: "invalid_skiplists s = [] \<and> pmem_allocator s = a \<and> rebuilder_thread_cache s = cs \<longrightarrow>
      pmem_allocator (cleanInvalidRecords K s) = fst (clean_thread_caches K a cs)"
    by (simp add: cleanInvalidRecords_def split: prod.splits)
  from 1 2 3 4 show "(\<forall>p. media (fst (clean_thread_caches K a cs)) p =
      (if p \<in> set (concat (map unlinked_records cs)) \<and>
          (\<not> MatchType K (media a p) \<or> \<not> CheckLinkage a p)
       then (media a p)\<lparr>destroyed := True\<rparr> else media a p)) \<and>
   freed (fst (clean_thread_caches K a cs)) =
     freed a @ map (\<lambda>p. (p, RecordSize (media a p)))
       (filter (\<lambda>p. \<not> MatchType K (media a p) \<or> \<not> CheckLinkage a p)
          (concat (map unlinked_records cs))) \<and>
   map unlinked_records (snd (clean_thread_caches K a cs)) = map (\<lambda>c. []) cs \<and>
   (invalid_skiplists s = [] \<and> pmem_allocator s = a \<and> rebuilder_thread_cache s = cs \<longrightarrow>
      pmem_allocator (cleanInvalidRecords K s) = fst (clean_thread_caches K a cs))"
    by blast
qed

text \<open>
  An instance: the queue holds the linked element at 128 of \<open>list_store\<close>, which passes
  both checks, and the replaced version at 320, to which no neighbour points.
\<close>

theorem cleanInvalidRecords_destroys_failed_witness:
  "distinct (concat (map unlinked_records
      [\<lparr>unlinked_records = [128, 320], visited_skiplists = (\<lambda>c. 0)\<rparr>])) \<and>
   MatchType (example_K True) (media list_store 128) \<and> CheckLinkage list_store 128 \<and>
   MatchType (example_K True) (media list_store 320) \<and> \<not> CheckLinkage list_store 320 \<and>
   media (fst (clean_thread_caches (example_K True) list_store
      [\<lparr>unlinked_records = [128, 320], visited_skiplists = (\<lambda>c. 0)\<rparr>])) 128 =
     media list_store 128 \<and>
   media (fst (clean_thread_caches (example_K True) list_store
      [\<lparr>unlinked_records = [128, 320], visited_skiplists = (\<lambda>c. 0)\<rparr>])) 320 =
     (media list_store 320)\<lparr>destroyed := True\<rparr> \<and>
   freed (fst (clean_thread_caches (example_K True) list_store
      [\<lparr>unlinked_records = [128, 320], visited_skiplists = (\<lambda>c. 0)\<rparr>])) = [(320, 64)]"
proof -
  let ?cs = "[\<lparr>unlinked_records = [128 :: 64 word, 320], visited_skiplists = (\<lambda>c. 0 :: 64 word)\<rparr>]"
  have q: "concat (map unlinked_records ?cs) = [128, 320]" by simp
  have d: "distinct (concat (map unlinked_records ?cs))" by simp
  have c: "MatchType (example_K True) (media list_store 128)" "CheckLinkage list_store 128"
    "MatchType (example_K True) (media list_store 320)" "\<not> CheckLinkage list_store 320"
    "RecordSize (media list_store 320) = 64" "freed list_store = []"
    by code_simp+
  note t = cleanInvalidRecords_destroys_failed[of ?cs "example_K True" list_store, THEN mp, OF d]
  have m1: "media (fst (clean_thread_caches (example_K True) list_store ?cs)) 128 =
     media list_store 128"
    using t[THEN conjunct1, THEN spec, of 128] c by simp
  have m2: "media (fst (clean_thread_caches (example_K True) list_store ?cs)) 320 =
     (media list_store 320)\<lparr>destroyed := True\<rparr>"
    using t[THEN conjunct1, THEN spec, of 320] c by simp
  have f: "freed (fst (clean_thread_caches (example_K True) list_store ?cs)) = [(320, 64)]"
    using t[THEN conjunct2, THEN conjunct1] c unfolding q by simp
  show ?thesis by (intro conjI d c(1,2,3,4) m1 m2 f)
qed

section \<open>Properties of header resolution\<close>

lemma map_of_assign: "map_of (assign m k v) k = Some v"
  by (induction m) auto

lemma insertHashIndex_Inr:
  "index_record s p = Some (rtype, r) \<Longrightarrow>
   kvdk_debug K \<longrightarrow> record_type (media (pmem_allocator s) r) = rtype \<Longrightarrow>
   Insert K (hash_table s) k rtype (record_status (media (pmem_allocator s) r)) p = (ls, ht) \<Longrightarrow>
   insertHashIndex K s k p =
     Inr (if ls = NotFound then Ok else if ls = Ok then Abort else ls, s\<lparr>hash_table := ht\<rparr>)"
  by (cases ls) (auto simp add: insertHashIndex_def)

text \<open>
  The store after the header \<open>h\<close> has been replaced by its checkpoint version \<open>v\<close> where
  the two differ.
\<close>

definition visible_on_media ::
  "Collaborators \<Rightarrow> PMEMAllocator \<Rightarrow> PMemOffsetType \<Rightarrow> PMemOffsetType \<Rightarrow> PMEMAllocator" where
  "visible_on_media K a h v = (if v \<noteq> h then snd (Replace K a h v) else a)"

lemma header_no_visible_version:
  assumes "DecodeSortedCollectionValue K (Value (media (pmem_allocator s) h)) = (Ok, cid, cfg)"
    and "GetComparator K (comparator_name cfg) = Some cmp"
    and "findCheckpointVersion K (checkpoint s) (pmem_allocator s) h = Some (Inr v)"
    and "v = None \<or> (\<exists>x. v = Some x \<and> FetchID K (media (pmem_allocator s) x) \<noteq> cid)"
  shows "\<exists>s' sl. initRebuildLists_header K tid s h = Some (Inr (Ok, s')) \<and>
           map_of (invalid_skiplists s') cid = Some sl \<and> HeaderRecord sl = h \<and>
           \<not> IndexWithHashtable sl \<and> Name sl = Key (media (pmem_allocator s) h) \<and>
           ID sl = cid \<and> rebuild_skiplits s' = rebuild_skiplits s \<and>
           hash_table s' = hash_table s \<and> pmem_allocator s' = pmem_allocator s"
  using assms
  by (auto simp add: initRebuildLists_header_def Let_def new_Skiplist_def new_node_def
      map_of_assign)

lemma header_outdated_version:
  assumes "DecodeSortedCollectionValue K (Value (media (pmem_allocator s) h)) = (Ok, cid, cfg)"
    and "GetComparator K (comparator_name cfg) = Some cmp"
    and "findCheckpointVersion K (checkpoint s) (pmem_allocator s) h = Some (Inr (Some v))"
    and "FetchID K (media (pmem_allocator s) v) = cid"
    and "v \<noteq> h \<longrightarrow> rebuilder_thread_cache s \<noteq> [] \<and>
           (kvdk_debug K \<longrightarrow> fst (Replace K (pmem_allocator s) h v))"
    and "record_status (media (visible_on_media K (pmem_allocator s) h v) v) = Outdated \<or>
         HasExpired (media (visible_on_media K (pmem_allocator s) h v) v)"
  shows "\<exists>s' sl. initRebuildLists_header K tid s h = Some (Inr (Ok, s')) \<and>
           map_of (invalid_skiplists s') cid = Some sl \<and> HeaderRecord sl = v \<and>
           \<not> IndexWithHashtable sl \<and> Name sl = Key (media (pmem_allocator s) h) \<and>
           ID sl = cid \<and> rebuild_skiplits s' = rebuild_skiplits s \<and>
           hash_table s' = hash_table s \<and>
           pmem_allocator s' = visible_on_media K (pmem_allocator s) h v"
proof (cases "v = h")
  case True
  then show ?thesis
    unfolding initRebuildLists_header_def
    using assms(1,2,3,4,6)
    by (auto simp add: Let_def new_Skiplist_def new_node_def map_of_assign visible_on_media_def)
next
  case False
  obtain success a1 where r: "Replace K (pmem_allocator s) h v = (success, a1)"
    by (cases "Replace K (pmem_allocator s) h v")
  with False assms(5) have ok: "\<not> (kvdk_debug K \<and> \<not> success)"
    and c: "rebuilder_thread_cache s \<noteq> []" by auto
  have vis: "visible_on_media K (pmem_allocator s) h v = a1"
    using False r by (simp add: visible_on_media_def)
  show ?thesis
    unfolding initRebuildLists_header_def
    using assms(1,2,3,4) assms(6)[unfolded vis] False r ok c vis
    by (auto simp add: Let_def new_Skiplist_def new_node_def map_of_assign
        addUnlinkedRecord_def)
qed

lemma header_rebuild_version:
  assumes "DecodeSortedCollectionValue K (Value (media (pmem_allocator s) h)) = (Ok, cid, cfg)"
    and "GetComparator K (comparator_name cfg) = Some cmp"
    and "findCheckpointVersion K (checkpoint s) (pmem_allocator s) h = Some (Inr (Some v))"
    and "FetchID K (media (pmem_allocator s) v) = cid"
    and "v \<noteq> h \<longrightarrow> rebuilder_thread_cache s \<noteq> [] \<and>
           (kvdk_debug K \<longrightarrow> fst (Replace K (pmem_allocator s) h v))"
    and "\<not> (record_status (media (visible_on_media K (pmem_allocator s) h v) v) = Outdated \<or>
         HasExpired (media (visible_on_media K (pmem_allocator s) h v) v))"
    and "kvdk_debug K \<longrightarrow>
           record_type (media (visible_on_media K (pmem_allocator s) h v) v) = SortedRecord"
    and "Insert K (hash_table s) (Key (media (pmem_allocator s) h)) SortedRecord
           (record_status (media (visible_on_media K (pmem_allocator s) h v) v))
           (Skiplist_pointer cid) = (ls, ht)"
  shows "\<exists>s' sl. initRebuildLists_header K tid s h =
             Some (Inr (if ls = NotFound then Ok else if ls = Ok then Abort else ls, s')) \<and>
           map_of (rebuild_skiplits s') cid = Some sl \<and> HeaderRecord sl = v \<and>
           IndexWithHashtable sl = index_with_hashtable cfg \<and>
           Name sl = Key (media (pmem_allocator s) h) \<and> ID sl = cid \<and>
           invalid_skiplists s' = invalid_skiplists s \<and>
           hash_table s' = ht \<and>
           pmem_allocator s' =
             PersistOldVersion (visible_on_media K (pmem_allocator s) h v) v kNullPMemOffset \<and>
           old_version (media (pmem_allocator s') v) = kNullPMemOffset"
proof -
  let ?a2 = "visible_on_media K (pmem_allocator s) h v"
  let ?s1 = "s\<lparr>max_recovered_id := max (max_recovered_id s) cid\<rparr>"
  have "\<exists>s2. (if v \<noteq> h
           then (let (success, a1) = Replace K (pmem_allocator s) h v in
                 if kvdk_debug K \<and> \<not> success then Inl AssertionFailed
                 else addUnlinkedRecord tid (?s1\<lparr>pmem_allocator := a1\<rparr>) h)
           else Inr ?s1) = Inr s2 \<and>
         pmem_allocator s2 = ?a2 \<and>
         hash_table s2 = hash_table s \<and> rebuild_skiplits s2 = rebuild_skiplits s \<and>
         invalid_skiplists s2 = invalid_skiplists s"
    using assms(5)
    by (auto simp add: visible_on_media_def addUnlinkedRecord_def Let_def split: prod.splits)
  then obtain s2 where s2: "(if v \<noteq> h
           then (let (success, a1) = Replace K (pmem_allocator s) h v in
                 if kvdk_debug K \<and> \<not> success then Inl AssertionFailed
                 else addUnlinkedRecord tid (?s1\<lparr>pmem_allocator := a1\<rparr>) h)
           else Inr ?s1) = Inr s2"
    and a2: "pmem_allocator s2 = ?a2" and h2: "hash_table s2 = hash_table s"
    and r2: "rebuild_skiplits s2 = rebuild_skiplits s"
    and i2: "invalid_skiplists s2 = invalid_skiplists s"
    by blast
  define sl where "sl = \<lparr>HeaderRecord = v, HeaderNode = node_count s2,
     Name = Key (media (pmem_allocator s) h), ID = cid, comparator = cmp,
     IndexWithHashtable = index_with_hashtable cfg, Size = 0\<rparr>"
  define s3 where "s3 = snd (new_node s2 v (kMaxHeight K))"
  define s4 where "s4 = s3\<lparr>rebuild_skiplits := assign (rebuild_skiplits s3) cid sl\<rparr>"
  define s5 where "s5 = (if segment_based_rebuild s4 then addRecoverySegment s4 (HeaderNode sl) else s4)"
  define s6 where "s6 = s5\<lparr>pmem_allocator := PersistOldVersion (pmem_allocator s5) v kNullPMemOffset\<rparr>"
  have n: "new_Skiplist K s2 v (Key (media (pmem_allocator s) h)) cid cmp (index_with_hashtable cfg) = (sl, s3)"
    by (simp add: new_Skiplist_def new_node_def sl_def s3_def)
  have p3: "pmem_allocator s3 = ?a2" "hash_table s3 = hash_table s"
    "rebuild_skiplits s3 = rebuild_skiplits s" "invalid_skiplists s3 = invalid_skiplists s"
    using a2 h2 r2 i2 by (simp_all add: s3_def new_node_def)
  have p5: "pmem_allocator s5 = ?a2" "hash_table s5 = hash_table s"
    "rebuild_skiplits s5 = assign (rebuild_skiplits s) cid sl"
    "invalid_skiplists s5 = invalid_skiplists s"
    using p3 by (auto simp add: s5_def s4_def addRecoverySegment_def Let_def split: option.splits)
  have p6: "pmem_allocator s6 = PersistOldVersion ?a2 v kNullPMemOffset" "hash_table s6 = hash_table s"
    "rebuild_skiplits s6 = assign (rebuild_skiplits s) cid sl"
    "invalid_skiplists s6 = invalid_skiplists s"
    using p5 by (simp_all add: s6_def)
  have ir: "index_record s6 (Skiplist_pointer cid) = Some (SortedRecord, v)"
    by (simp add: index_record_def p6 map_of_assign sl_def)
  have m6: "record_type (media (pmem_allocator s6) v) = record_type (media ?a2 v)"
    "record_status (media (pmem_allocator s6) v) = record_status (media ?a2 v)"
    "old_version (media (pmem_allocator s6) v) = kNullPMemOffset"
    by (simp_all add: p6 PersistOldVersion_def)
  have ins: "insertHashIndex K s6 (Name sl) (Skiplist_pointer cid) =
     Inr (if ls = NotFound then Ok else if ls = Ok then Abort else ls, s6\<lparr>hash_table := ht\<rparr>)"
    by (rule insertHashIndex_Inr[OF ir]) (use assms(7,8) m6 p6 in \<open>simp_all add: sl_def\<close>)
  have res: "initRebuildLists_header K tid s h =
     Some (Inr (if ls = NotFound then Ok else if ls = Ok then Abort else ls, s6\<lparr>hash_table := ht\<rparr>))"
    unfolding initRebuildLists_header_def
    using assms(1,2,3,4) assms(6)[folded a2] s2 n ins
    by (auto simp add: Let_def s4_def s5_def s6_def)
  show ?thesis
    using res p6 m6 by (intro exI[of _ "s6\<lparr>hash_table := ht\<rparr>"] exI[of _ sl])
      (simp add: map_of_assign sl_def)
qed

text \<open>
  Claim C4. For a header \<open>h\<close> that survives deduplication, decodes to the ID \<open>cid\<close> and
  the configs \<open>cfg\<close>, and has a registered comparator: when \<^verbatim>\<open>findCheckpointVersion\<close>
  returns null or a record of another collection, an invalid skiplist on \<open>h\<close> without
  hash indexing is stored in \<^verbatim>\<open>invalid_skiplists_\<close> and neither the store nor the hash
  table changes. Otherwise the header is replaced on media by its visible version \<open>x\<close>
  where the two differ; when \<open>x\<close> is outdated or expired, an invalid skiplist on \<open>x\<close>
  without hash indexing is stored; else a rebuild skiplist on \<open>x\<close> with the flag
  \<^verbatim>\<open>index_with_hashtable\<close> of \<open>cfg\<close> is stored in \<^verbatim>\<open>rebuild_skiplits_\<close>, the
  \<^verbatim>\<open>old_version\<close> of \<open>x\<close> is cleared to null, and the skiplist is inserted into the hash
  table under the collection name, with the status that \<^verbatim>\<open>insertHashIndex\<close> gives.
\<close>

theorem initRebuildLists_classifies_header:
  "DecodeSortedCollectionValue K (Value (media (pmem_allocator s) h)) = (Ok, cid, cfg) \<and>
   GetComparator K (comparator_name cfg) = Some cmp \<and>
   findCheckpointVersion K (checkpoint s) (pmem_allocator s) h = Some (Inr v) \<longrightarrow>
   ((v = None \<or> (\<exists>y. v = Some y \<and> FetchID K (media (pmem_allocator s) y) \<noteq> cid)) \<longrightarrow>
      (\<exists>s' sl. initRebuildLists_header K tid s h = Some (Inr (Ok, s')) \<and>
         map_of (invalid_skiplists s') cid = Some sl \<and> HeaderRecord sl = h \<and>
         \<not> IndexWithHashtable sl \<and> Name sl = Key (media (pmem_allocator s) h) \<and>
         ID sl = cid \<and> rebuild_skiplits s' = rebuild_skiplits s \<and>
         hash_table s' = hash_table s \<and> pmem_allocator s' = pmem_allocator s)) \<and>
   (v = Some x \<and> FetchID K (media (pmem_allocator s) x) = cid \<and>
    (x \<noteq> h \<longrightarrow> rebuilder_thread_cache s \<noteq> [] \<and>
       (kvdk_debug K \<longrightarrow> fst (Replace K (pmem_allocator s) h x))) \<and>
    (record_status (media (visible_on_media K (pmem_allocator s) h x) x) = Outdated \<or>
     HasExpired (media (visible_on_media K (pmem_allocator s) h x) x)) \<longrightarrow>
      (\<exists>s' sl. initRebuildLists_header K tid s h = Some (Inr (Ok, s')) \<and>
         map_of (invalid_skiplists s') cid = Some sl \<and> HeaderRecord sl = x \<and>
         \<not> IndexWithHashtable sl \<and> Name sl = Key (media (pmem_allocator s) h) \<and>
         ID sl = cid \<and> rebuild_skiplits s' = rebuild_skiplits s \<and>
         hash_table s' = hash_table s \<and>
         pmem_allocator s' = visible_on_media K (pmem_allocator s) h x)) \<and>
   (v = Some x \<and> FetchID K (media (pmem_allocator s) x) = cid \<and>
    (x \<noteq> h \<longrightarrow> rebuilder_thread_cache s \<noteq> [] \<and>
       (kvdk_debug K \<longrightarrow> fst (Replace K (pmem_allocator s) h x))) \<and>
    \<not> (record_status (media (visible_on_media K (pmem_allocator s) h x) x) = Outdated \<or>
       HasExpired (media (visible_on_media K (pmem_allocator s) h x) x)) \<and>
    (kvdk_debug K \<longrightarrow>
       record_type (media (visible_on_media K (pmem_allocator s) h x) x) = SortedRecord) \<and>
    Insert K (hash_table s) (Key (media (pmem_allocator s) h)) SortedRecord
      (record_status (media (visible_on_media K (pmem_allocator s) h x) x))
      (Skiplist_pointer cid) = (ls, ht) \<longrightarrow>
      (\<exists>s' sl. initRebuildLists_header K tid s h =
           Some (Inr (if ls = NotFound then Ok else if ls = Ok then Abort else ls, s')) \<and>
         map_of (rebuild_skiplits s') cid = Some sl \<and> HeaderRecord sl = x \<and>
         IndexWithHashtable sl = index_with_hashtable cfg \<and>
         Name sl = Key (media (pmem_allocator s) h) \<and> ID sl = cid \<and>
         invalid_skiplists s' = invalid_skiplists s \<and>
         hash_table s' = ht \<and>
         pmem_allocator s' =
           PersistOldVersion (visible_on_media K (pmem_allocator s) h x) x kNullPMemOffset \<and>
         old_version (media (pmem_allocator s') x) = kNullPMemOffset))"
proof (intro impI conjI)
  assume c: "DecodeSortedCollectionValue K (Value (media (pmem_allocator s) h)) = (Ok, cid, cfg) \<and>
   GetComparator K (comparator_name cfg) = Some cmp \<and>
   findCheckpointVersion K (checkpoint s) (pmem_allocator s) h = Some (Inr v)"
  {
    assume "v = None \<or> (\<exists>y. v = Some y \<and> FetchID K (media (pmem_allocator s) y) \<noteq> cid)"
    with c show "\<exists>s' sl. initRebuildLists_header K tid s h = Some (Inr (Ok, s')) \<and>
         map_of (invalid_skiplists s') cid = Some sl \<and> HeaderRecord sl = h \<and>
         \<not> IndexWithHashtable sl \<and> Name sl = Key (media (pmem_allocator s) h) \<and>
         ID sl = cid \<and> rebuild_skiplits s' = rebuild_skiplits s \<and>
         hash_table s' = hash_table s \<and> pmem_allocator s' = pmem_allocator s"
      by (intro header_no_visible_version[of K s h cid cfg cmp v]) simp_all
  }
  {
    assume a: "v = Some x \<and> FetchID K (media (pmem_allocator s) x) = cid \<and>
    (x \<noteq> h \<longrightarrow> rebuilder_thread_cache s \<noteq> [] \<and>
       (kvdk_debug K \<longrightarrow> fst (Replace K (pmem_allocator s) h x))) \<and>
    (record_status (media (visible_on_media K (pmem_allocator s) h x) x) = Outdated \<or>
     HasExpired (media (visible_on_media K (pmem_allocator s) h x) x))"
    with c show "\<exists>s' sl. initRebuildLists_header K tid s h = Some (Inr (Ok, s')) \<and>
         map_of (invalid_skiplists s') cid = Some sl \<and> HeaderRecord sl = x \<and>
         \<not> IndexWithHashtable sl \<and> Name sl = Key (media (pmem_allocator s) h) \<and>
         ID sl = cid \<and> rebuild_skiplits s' = rebuild_skiplits s \<and>
         hash_table s' = hash_table s \<and>
         pmem_allocator s' = visible_on_media K (pmem_allocator s) h x"
      by (intro header_outdated_version[of K s h cid cfg cmp x]) simp_all
  }
  {
    assume a: "v = Some x \<and> FetchID K (media (pmem_allocator s) x) = cid \<and>
    (x \<noteq> h \<longrightarrow> rebuilder_thread_cache s \<noteq> [] \<and>
       (kvdk_debug K \<longrightarrow> fst (Replace K (pmem_allocator s) h x))) \<and>
    \<not> (record_status (media (visible_on_media K (pmem_allocator s) h x) x) = Outdated \<or>
       HasExpired (media (visible_on_media K (pmem_allocator s) h x) x)) \<and>
    (kvdk_debug K \<longrightarrow>
       record_type (media (visible_on_media K (pmem_allocator s) h x) x) = SortedRecord) \<and>
    Insert K (hash_table s) (Key (media (pmem_allocator s) h)) SortedRecord
      (record_status (media (visible_on_media K (pmem_allocator s) h x) x))
      (Skiplist_pointer cid) = (ls, ht)"
    with c show "\<exists>s' sl. initRebuildLists_header K tid s h =
           Some (Inr (if ls = NotFound then Ok else if ls = Ok then Abort else ls, s')) \<and>
         map_of (rebuild_skiplits s') cid = Some sl \<and> HeaderRecord sl = x \<and>
         IndexWithHashtable sl = index_with_hashtable cfg \<and>
         Name sl = Key (media (pmem_allocator s) h) \<and> ID sl = cid \<and>
         invalid_skiplists s' = invalid_skiplists s \<and>
         hash_table s' = ht \<and>
         pmem_allocator s' =
           PersistOldVersion (visible_on_media K (pmem_allocator s) h x) x kNullPMemOffset \<and>
         old_version (media (pmem_allocator s') x) = kNullPMemOffset"
      by (intro header_rebuild_version[of K s h cid cfg cmp x]) simp_all
  }
qed

theorem initRebuildLists_classifies_header_witness:
  "findCheckpointVersion (example_K True) \<lparr>CheckpointTS = 100\<rparr> reused_store 64 =
     Some (Inr None) \<and>
   (\<exists>s' sl. initRebuildLists_header (example_K True) 0
        (example_rebuilder False 100 reused_store) 64 = Some (Inr (Ok, s')) \<and>
      map_of (invalid_skiplists s') 49 = Some sl \<and> HeaderRecord sl = 64 \<and>
      \<not> IndexWithHashtable sl \<and> Name sl = ''list'' \<and> ID sl = 49 \<and>
      rebuild_skiplits s' = [] \<and> hash_table s' = [] \<and> pmem_allocator s' = reused_store) \<and>
   findCheckpointVersion (example_K True) \<lparr>CheckpointTS = 0\<rparr> outdated_header_store 64 =
     Some (Inr (Some 64)) \<and>
   record_status (media outdated_header_store 64) = Outdated \<and>
   (\<exists>s' sl. initRebuildLists_header (example_K True) 0
        (example_rebuilder False 0 outdated_header_store) 64 = Some (Inr (Ok, s')) \<and>
      map_of (invalid_skiplists s') 49 = Some sl \<and> HeaderRecord sl = 64 \<and>
      \<not> IndexWithHashtable sl \<and> Name sl = ''list'' \<and> ID sl = 49 \<and>
      rebuild_skiplits s' = [] \<and> hash_table s' = [] \<and>
      pmem_allocator s' = outdated_header_store) \<and>
   findCheckpointVersion (example_K True) \<lparr>CheckpointTS = 100\<rparr> header_versions_store 64 =
     Some (Inr (Some 128)) \<and>
   fst (Replace (example_K True) header_versions_store 64 128) \<and>
   (\<exists>s' sl. initRebuildLists_header (example_K True) 0
        (example_rebuilder False 100 header_versions_store) 64 = Some (Inr (Ok, s')) \<and>
      map_of (rebuild_skiplits s') 49 = Some sl \<and> HeaderRecord sl = 128 \<and>
      IndexWithHashtable sl = True \<and> Name sl = ''list'' \<and> ID sl = 49 \<and>
      invalid_skiplists s' = [] \<and>
      hash_table s' = [(''list'', \<lparr>entry_type = SortedRecord, entry_status = Normal,
                                  entry_index = Skiplist_pointer 49\<rparr>)] \<and>
      pmem_allocator s' =
        PersistOldVersion (snd (Replace (example_K True) header_versions_store 64 128)) 128
          kNullPMemOffset \<and>
      old_version (media (pmem_allocator s') 128) = kNullPMemOffset)"
proof -
  let ?K = "example_K True"
  let ?s1 = "example_rebuilder False 100 reused_store"
  let ?s2 = "example_rebuilder False 0 outdated_header_store"
  let ?s3 = "example_rebuilder False 100 header_versions_store"
  let ?cfg = "\<lparr>comparator_name = ''default'', index_with_hashtable = False\<rparr>"
  let ?cfgh = "\<lparr>comparator_name = ''default'', index_with_hashtable = True\<rparr>"
  let ?ht = "[(''list'', \<lparr>entry_type = SortedRecord, entry_status = Normal,
                                  entry_index = Skiplist_pointer 49\<rparr>)]"
  have s: "\<And>b t a. pmem_allocator (example_rebuilder b t a) = a"
    "\<And>b t a. checkpoint (example_rebuilder b t a) = \<lparr>CheckpointTS = t\<rparr>"
    "\<And>b t a. hash_table (example_rebuilder b t a) = []"
    "\<And>b t a. rebuild_skiplits (example_rebuilder b t a) = []"
    "\<And>b t a. invalid_skiplists (example_rebuilder b t a) = []"
    "\<And>b t a. rebuilder_thread_cache (example_rebuilder b t a) \<noteq> []"
    by (simp_all add: example_rebuilder_def)
  have k: "kvdk_debug ?K" "GetComparator ?K ''default'' = Some 0"
    by (simp_all add: example_K_def example_GetComparator_def)
  have d1: "DecodeSortedCollectionValue ?K (Value (media reused_store 64)) = (Ok, 49, ?cfg)"
    and f1: "findCheckpointVersion ?K \<lparr>CheckpointTS = 100\<rparr> reused_store 64 = Some (Inr None)"
    and n1: "Key (media reused_store 64) = ''list''"
    by code_simp+
  have d2: "DecodeSortedCollectionValue ?K (Value (media outdated_header_store 64)) = (Ok, 49, ?cfgh)"
    and f2: "findCheckpointVersion ?K \<lparr>CheckpointTS = 0\<rparr> outdated_header_store 64 = Some (Inr (Some 64))"
    and n2: "Key (media outdated_header_store 64) = ''list''"
    and i2: "FetchID ?K (media outdated_header_store 64) = 49"
    and o2: "record_status (media outdated_header_store 64) = Outdated"
    by code_simp+
  have v2: "visible_on_media ?K outdated_header_store 64 64 = outdated_header_store"
    by (simp add: visible_on_media_def)
  have d3: "DecodeSortedCollectionValue ?K (Value (media header_versions_store 64)) = (Ok, 49, ?cfgh)"
    and f3: "findCheckpointVersion ?K \<lparr>CheckpointTS = 100\<rparr> header_versions_store 64 = Some (Inr (Some 128))"
    and n3: "Key (media header_versions_store 64) = ''list''"
    and i3: "FetchID ?K (media header_versions_store 128) = 49"
    and r3: "fst (Replace ?K header_versions_store 64 128)"
    and o3: "record_status (media (snd (Replace ?K header_versions_store 64 128)) 128) = Normal"
      "\<not> HasExpired (media (snd (Replace ?K header_versions_store 64 128)) 128)"
      "record_type (media (snd (Replace ?K header_versions_store 64 128)) 128) = SortedRecord"
    and l3: "Insert ?K [] ''list'' SortedRecord Normal (Skiplist_pointer 49) = (NotFound, ?ht)"
    by code_simp+
  have v3: "visible_on_media ?K header_versions_store 64 128 =
      snd (Replace ?K header_versions_store 64 128)"
    by (simp add: visible_on_media_def)
  have c1: "DecodeSortedCollectionValue ?K (Value (media (pmem_allocator ?s1) 64)) = (Ok, 49, ?cfg) \<and>
     GetComparator ?K (comparator_name ?cfg) = Some 0 \<and>
     findCheckpointVersion ?K (checkpoint ?s1) (pmem_allocator ?s1) 64 = Some (Inr None)"
    using d1 f1 k by (simp add: s)
  have c2: "DecodeSortedCollectionValue ?K (Value (media (pmem_allocator ?s2) 64)) = (Ok, 49, ?cfgh) \<and>
     GetComparator ?K (comparator_name ?cfgh) = Some 0 \<and>
     findCheckpointVersion ?K (checkpoint ?s2) (pmem_allocator ?s2) 64 = Some (Inr (Some 64))"
    using d2 f2 k by (simp add: s)
  have c3: "DecodeSortedCollectionValue ?K (Value (media (pmem_allocator ?s3) 64)) = (Ok, 49, ?cfgh) \<and>
     GetComparator ?K (comparator_name ?cfgh) = Some 0 \<and>
     findCheckpointVersion ?K (checkpoint ?s3) (pmem_allocator ?s3) 64 = Some (Inr (Some 128))"
    using d3 f3 k by (simp add: s)
  note t1 = initRebuildLists_classifies_header[of ?K ?s1 64 49 ?cfg 0 None 0, THEN mp, OF c1,
      THEN conjunct1, THEN mp]
  note t2 = initRebuildLists_classifies_header[of ?K ?s2 64 49 ?cfgh 0 "Some 64" 0 64, THEN mp, OF c2,
      THEN conjunct2, THEN conjunct1, THEN mp]
  note t3 = initRebuildLists_classifies_header[of ?K ?s3 64 49 ?cfgh 0 "Some 128" 0 128 NotFound ?ht,
      THEN mp, OF c3, THEN conjunct2, THEN conjunct2, THEN mp]
  have r1: "\<exists>s' sl. initRebuildLists_header ?K 0 ?s1 64 = Some (Inr (Ok, s')) \<and>
      map_of (invalid_skiplists s') 49 = Some sl \<and> HeaderRecord sl = 64 \<and>
      \<not> IndexWithHashtable sl \<and> Name sl = ''list'' \<and> ID sl = 49 \<and>
      rebuild_skiplits s' = [] \<and> hash_table s' = [] \<and> pmem_allocator s' = reused_store"
    using t1 unfolding s n1 by simp
  have r2: "\<exists>s' sl. initRebuildLists_header ?K 0 ?s2 64 = Some (Inr (Ok, s')) \<and>
      map_of (invalid_skiplists s') 49 = Some sl \<and> HeaderRecord sl = 64 \<and>
      \<not> IndexWithHashtable sl \<and> Name sl = ''list'' \<and> ID sl = 49 \<and>
      rebuild_skiplits s' = [] \<and> hash_table s' = [] \<and>
      pmem_allocator s' = outdated_header_store"
  proof -
    have p: "Some 64 = Some (64 :: 64 word) \<and> FetchID ?K (media (pmem_allocator ?s2) 64) = 49 \<and>
      ((64 :: 64 word) \<noteq> 64 \<longrightarrow> rebuilder_thread_cache ?s2 \<noteq> [] \<and>
         (kvdk_debug ?K \<longrightarrow> fst (Replace ?K (pmem_allocator ?s2) 64 64))) \<and>
      (record_status (media (visible_on_media ?K (pmem_allocator ?s2) 64 64) 64) = Outdated \<or>
       HasExpired (media (visible_on_media ?K (pmem_allocator ?s2) 64 64) 64))"
      using i2 o2 by (simp add: s v2)
    from t2[OF p] show ?thesis unfolding s n2 v2 by simp
  qed
  have r3': "\<exists>s' sl. initRebuildLists_header ?K 0 ?s3 64 = Some (Inr (Ok, s')) \<and>
      map_of (rebuild_skiplits s') 49 = Some sl \<and> HeaderRecord sl = 128 \<and>
      IndexWithHashtable sl = True \<and> Name sl = ''list'' \<and> ID sl = 49 \<and>
      invalid_skiplists s' = [] \<and> hash_table s' = ?ht \<and>
      pmem_allocator s' =
        PersistOldVersion (snd (Replace ?K header_versions_store 64 128)) 128 kNullPMemOffset \<and>
      old_version (media (pmem_allocator s') 128) = kNullPMemOffset"
  proof -
    have p: "Some 128 = Some (128 :: 64 word) \<and> FetchID ?K (media (pmem_allocator ?s3) 128) = 49 \<and>
      ((128 :: 64 word) \<noteq> 64 \<longrightarrow> rebuilder_thread_cache ?s3 \<noteq> [] \<and>
         (kvdk_debug ?K \<longrightarrow> fst (Replace ?K (pmem_allocator ?s3) 64 128))) \<and>
      \<not> (record_status (media (visible_on_media ?K (pmem_allocator ?s3) 64 128) 128) = Outdated \<or>
         HasExpired (media (visible_on_media ?K (pmem_allocator ?s3) 64 128) 128)) \<and>
      (kvdk_debug ?K \<longrightarrow>
         record_type (media (visible_on_media ?K (pmem_allocator ?s3) 64 128) 128) = SortedRecord) \<and>
      Insert ?K (hash_table ?s3) (Key (media (pmem_allocator ?s3) 64)) SortedRecord
        (record_status (media (visible_on_media ?K (pmem_allocator ?s3) 64 128) 128))
        (Skiplist_pointer 49) = (NotFound, ?ht)"
      using i3 r3 o3 l3 by (simp add: s v3 n3)
    from t3[OF p] show ?thesis unfolding s n3 v3 by simp
  qed
  show ?thesis by (intro conjI f1 r1 f2 o2 r2 f3 r3 r3')
qed

section \<open>Properties of header deduplication\<close>

text \<open>
  What the loop of \<^verbatim>\<open>initRebuildLists\<close> does with each header of the sorted vector, by
  the collection IDs \<open>f\<close>: a header followed by one of the same collection is broken
  towards it, every other header is resolved.
\<close>

datatype header_action = Break PMemOffsetType PMemOffsetType | Resolve PMemOffsetType

fun resolution_plan ::
  "(PMemOffsetType \<Rightarrow> CollectionIDType) \<Rightarrow> PMemOffsetType list \<Rightarrow> header_action list" where
  "resolution_plan f [] = []"
| "resolution_plan f [h] = [Resolve h]"
| "resolution_plan f (h # h' # hs) =
     (if f h = f h' then Break h h' else Resolve h) # resolution_plan f (h' # hs)"

fun resolved_headers :: "header_action list \<Rightarrow> PMemOffsetType list" where
  "resolved_headers [] = []"
| "resolved_headers (Resolve h # acts) = h # resolved_headers acts"
| "resolved_headers (Break h h' # acts) = resolved_headers acts"

fun broken_headers :: "header_action list \<Rightarrow> (PMemOffsetType \<times> PMemOffsetType) list" where
  "broken_headers [] = []"
| "broken_headers (Resolve h # acts) = broken_headers acts"
| "broken_headers (Break h h' # acts) = (h, h') # broken_headers acts"

fun run_plan ::
  "Collaborators \<Rightarrow> nat \<Rightarrow> SortedCollectionRebuilder \<Rightarrow> header_action list \<Rightarrow>
     (fault + Status \<times> SortedCollectionRebuilder) option"
where
  "run_plan K tid s [] = Some (Inr (Ok, s\<lparr>linked_headers := []\<rparr>))"
| "run_plan K tid s (Break h h' # acts) =
     (case initRebuildLists_outdated K tid s h h' of
        Inl f \<Rightarrow> Some (Inl f)
      | Inr s1 \<Rightarrow> run_plan K tid s1 acts)"
| "run_plan K tid s (Resolve h # acts) =
     (case initRebuildLists_header K tid s h of
        None \<Rightarrow> None
      | Some (Inl f) \<Rightarrow> Some (Inl f)
      | Some (Inr (st, s1)) \<Rightarrow>
          if st \<noteq> Ok then Some (Inr (st, s1)) else run_plan K tid s1 acts)"

text \<open>
  The collection ID of a record does not depend on its \<^verbatim>\<open>prev\<close> and \<^verbatim>\<open>old_version\<close>
  fields, and \<^verbatim>\<open>Skiplist::Replace\<close> changes the collection ID of no record.
\<close>

definition stable_ids :: "Collaborators \<Rightarrow> bool" where
  "stable_ids K =
     ((\<forall>r p. FetchID K (r\<lparr>prev := p\<rparr>) = FetchID K r) \<and>
      (\<forall>r p. FetchID K (r\<lparr>old_version := p\<rparr>) = FetchID K r) \<and>
      (\<forall>a p q x. FetchID K (media (snd (Replace K a p q)) x) = FetchID K (media a x)))"

lemma addUnlinkedRecord_pmem:
  "addUnlinkedRecord tid s p = Inr s' \<Longrightarrow> pmem_allocator s' = pmem_allocator s"
  by (auto simp add: addUnlinkedRecord_def Let_def split: if_splits)

lemma addRecoverySegment_pmem: "pmem_allocator (addRecoverySegment s n) = pmem_allocator s"
  by (simp add: addRecoverySegment_def Let_def split: option.splits)

lemma insertHashIndex_pmem:
  "insertHashIndex K s k p = Inr (st, s') \<Longrightarrow> pmem_allocator s' = pmem_allocator s"
  by (auto simp add: insertHashIndex_def Let_def
      split: option.splits if_splits prod.splits Status.splits)

lemma new_Skiplist_pmem:
  "new_Skiplist K s h n c cmp b = (sl, s') \<Longrightarrow> pmem_allocator s' = pmem_allocator s"
  by (auto simp add: new_Skiplist_def new_node_def)

lemma outdated_ids:
  assumes "stable_ids K" and "initRebuildLists_outdated K tid s h h' = Inr s1"
  shows "FetchID K (media (pmem_allocator s1) x) = FetchID K (media (pmem_allocator s) x)"
proof -
  from assms(2) have "pmem_allocator s1 = PersistPrevNT (pmem_allocator s) h h'"
    by (auto simp add: initRebuildLists_outdated_def Let_def split: if_splits
        dest: addUnlinkedRecord_pmem)
  with assms(1) show ?thesis by (simp add: PersistPrevNT_def stable_ids_def)
qed

lemma header_store:
  assumes "initRebuildLists_header K tid s h = Some (Inr (st, s1))"
  shows "pmem_allocator s1 = pmem_allocator s \<or>
     (\<exists>v. pmem_allocator s1 = visible_on_media K (pmem_allocator s) h v \<or>
          pmem_allocator s1 =
            PersistOldVersion (visible_on_media K (pmem_allocator s) h v) v kNullPMemOffset)"
proof -
  obtain dst cid cfg where d:
    "DecodeSortedCollectionValue K (Value (media (pmem_allocator s) h)) = (dst, cid, cfg)"
    by (cases "DecodeSortedCollectionValue K (Value (media (pmem_allocator s) h))")
  show ?thesis
  proof (cases "dst = Ok")
    case False
    with assms d show ?thesis by (simp add: initRebuildLists_header_def)
  next
    case True
    note dOk = this
    show ?thesis
    proof (cases "GetComparator K (comparator_name cfg)")
      case None
      with assms d dOk show ?thesis by (simp add: initRebuildLists_header_def)
    next
      case (Some cmp)
      let ?s1 = "s\<lparr>max_recovered_id := max (max_recovered_id s) cid\<rparr>"
      from assms d dOk Some obtain v where
        f: "findCheckpointVersion K (checkpoint s) (pmem_allocator s) h = Some (Inr v)"
        by (auto simp add: initRebuildLists_header_def Let_def split: option.splits sum.splits)
      show ?thesis
      proof (cases "v = None \<or> (\<exists>y. v = Some y \<and> FetchID K (media (pmem_allocator s) y) \<noteq> cid)")
        case True
        with assms d dOk Some f show ?thesis
          by (auto simp add: initRebuildLists_header_def Let_def new_Skiplist_def new_node_def)
      next
        case False
        then obtain x where x: "v = Some x" "FetchID K (media (pmem_allocator s) x) = cid"
          by auto
        let ?rep = "(if x \<noteq> h
           then (let (success, a1) = Replace K (pmem_allocator s) h x in
                 if kvdk_debug K \<and> \<not> success then Inl AssertionFailed
                 else addUnlinkedRecord tid (?s1\<lparr>pmem_allocator := a1\<rparr>) h)
           else Inr ?s1)"
        from assms d dOk Some f x obtain s2 where s2: "?rep = Inr s2"
          by (cases ?rep) (auto simp add: initRebuildLists_header_def Let_def)
        have a2: "pmem_allocator s2 = visible_on_media K (pmem_allocator s) h x"
          using s2
          by (auto simp add: visible_on_media_def Let_def split: if_splits prod.splits
              dest: addUnlinkedRecord_pmem)
        show ?thesis
        proof (cases "record_status (media (pmem_allocator s2) x) = Outdated \<or>
                      HasExpired (media (pmem_allocator s2) x)")
          case True
          with assms d dOk Some f x s2 have "pmem_allocator s1 = pmem_allocator s2"
            by (auto simp add: initRebuildLists_header_def Let_def new_Skiplist_def new_node_def)
          with a2 show ?thesis by auto
        next
          case False
          obtain sl s3 where n: "new_Skiplist K s2 x (Key (media (pmem_allocator s) h)) cid cmp
              (index_with_hashtable cfg) = (sl, s3)"
            by (cases "new_Skiplist K s2 x (Key (media (pmem_allocator s) h)) cid cmp
              (index_with_hashtable cfg)")
          let ?s4 = "s3\<lparr>rebuild_skiplits := assign (rebuild_skiplits s3) cid sl\<rparr>"
          let ?s5 = "(if segment_based_rebuild ?s4 then addRecoverySegment ?s4 (HeaderNode sl) else ?s4)"
          let ?s6 = "?s5\<lparr>pmem_allocator := PersistOldVersion (pmem_allocator ?s5) x kNullPMemOffset\<rparr>"
          have p5: "pmem_allocator ?s5 = pmem_allocator s2"
            using new_Skiplist_pmem[OF n] by (simp add: addRecoverySegment_pmem)
          from assms d dOk Some f x s2 False n
          have "insertHashIndex K ?s6 (Name sl) (Skiplist_pointer cid) = Inr (st, s1)"
            by (auto simp add: initRebuildLists_header_def Let_def split: sum.splits)
          from insertHashIndex_pmem[OF this] p5 a2 show ?thesis by auto
        qed
      qed
    qed
  qed
qed

lemma header_ids:
  assumes "stable_ids K" and "initRebuildLists_header K tid s h = Some (Inr (st, s1))"
  shows "FetchID K (media (pmem_allocator s1) x) = FetchID K (media (pmem_allocator s) x)"
  using header_store[OF assms(2)] assms(1)
  by (auto simp add: stable_ids_def visible_on_media_def PersistOldVersion_def)

lemma loop_follows_plan:
  "stable_ids K \<Longrightarrow>
   (\<And>x. FetchID K (media (pmem_allocator s) x) = f x) \<Longrightarrow>
   initRebuildLists_loop K tid s hs = run_plan K tid s (resolution_plan f hs)"
proof (induction f hs arbitrary: s rule: resolution_plan.induct)
  case (1 f)
  then show ?case by simp
next
  case (2 f h)
  have "\<And>s1. initRebuildLists_loop K tid s1 [] = run_plan K tid s1 []" by simp
  then show ?case by (simp split: option.splits sum.splits prod.splits)
next
  case (3 f h h' hs)
  show ?case
  proof (cases "f h = f h'")
    case True
    have "\<And>s1. initRebuildLists_outdated K tid s h h' = Inr s1 \<Longrightarrow>
       initRebuildLists_loop K tid s1 (h' # hs) = run_plan K tid s1 (resolution_plan f (h' # hs))"
    proof -
      fix s1 assume o: "initRebuildLists_outdated K tid s h h' = Inr s1"
      show "initRebuildLists_loop K tid s1 (h' # hs) = run_plan K tid s1 (resolution_plan f (h' # hs))"
        by (rule "3.IH"[OF "3.prems"(1)]) (simp add: outdated_ids[OF "3.prems"(1) o] "3.prems"(2))
    qed
    with True "3.prems"(2) show ?thesis
      by (simp split: sum.splits del: initRebuildLists_loop.simps(2)
          add: initRebuildLists_loop.simps(2)[of K tid s h "h' # hs"])
  next
    case False
    have "\<And>st s1. initRebuildLists_header K tid s h = Some (Inr (st, s1)) \<Longrightarrow>
       initRebuildLists_loop K tid s1 (h' # hs) = run_plan K tid s1 (resolution_plan f (h' # hs))"
    proof -
      fix st s1 assume o: "initRebuildLists_header K tid s h = Some (Inr (st, s1))"
      show "initRebuildLists_loop K tid s1 (h' # hs) = run_plan K tid s1 (resolution_plan f (h' # hs))"
        by (rule "3.IH"[OF "3.prems"(1)]) (simp add: header_ids[OF "3.prems"(1) o] "3.prems"(2))
    qed
    with False "3.prems"(2) show ?thesis
      by (simp split: option.splits sum.splits prod.splits del: initRebuildLists_loop.simps(2)
          add: initRebuildLists_loop.simps(2)[of K tid s h "h' # hs"])
  qed
qed

lemma resolved_subset: "set (resolved_headers (resolution_plan f hs)) \<subseteq> set hs"
  by (induction f hs rule: resolution_plan.induct) auto

lemma plan_covers:
  "set (resolved_headers (resolution_plan f hs)) \<union>
   fst ` set (broken_headers (resolution_plan f hs)) = set hs"
  by (induction f hs rule: resolution_plan.induct) auto

lemma resolved_distinct:
  "sorted (map f hs) \<Longrightarrow> distinct (map f (resolved_headers (resolution_plan f hs)))"
proof (induction f hs rule: resolution_plan.induct)
  case (1 f)
  then show ?case by simp
next
  case (2 f h)
  then show ?case by simp
next
  case (3 f h h' hs)
  from "3.prems" have s: "sorted (map f (h' # hs))" by simp
  show ?case
  proof (cases "f h = f h'")
    case True
    with "3.IH"[OF s] show ?thesis by simp
  next
    case False
    have "\<And>y. y \<in> set (h' # hs) \<Longrightarrow> f h < f y"
    proof -
      fix y assume y: "y \<in> set (h' # hs)"
      from "3.prems" have "f h \<le> f h'" by simp
      with False have "f h < f h'" by simp
      moreover from s y have "f h' \<le> f y" by auto
      ultimately show "f h < f y" by simp
    qed
    then have "f h \<notin> f ` set (resolved_headers (resolution_plan f (h' # hs)))"
      using resolved_subset[of f "h' # hs"] by fastforce
    with False "3.IH"[OF s] show ?thesis by simp
  qed
qed

lemma broken_same_collection:
  "sorted (map (\<lambda>h. (f h, t h)) hs) \<Longrightarrow>
   (h, h') \<in> set (broken_headers (resolution_plan f hs)) \<Longrightarrow>
   f h = f h' \<and> t h \<le> t h'"
proof (induction f hs rule: resolution_plan.induct)
  case (1 f)
  then show ?case by simp
next
  case (2 f h)
  then show ?case by simp
next
  case (3 f x x' hs)
  from "3.prems"(1) have s: "sorted (map (\<lambda>h. (f h, t h)) (x' # hs))"
    and le: "(f x, t x) \<le> (f x', t x')" by simp_all
  show ?case
  proof (cases "(h, h') = (x, x') \<and> f x = f x'")
    case True
    with le show ?thesis by (auto simp add: less_eq_prod_def)
  next
    case False
    with "3.prems"(2) have "(h, h') \<in> set (broken_headers (resolution_plan f (x' # hs)))"
      by (auto split: if_splits)
    with "3.IH"[OF s] show ?thesis by simp
  qed
qed

lemma youngest_resolved:
  "sorted (map (\<lambda>h. (f h, t h)) hs) \<Longrightarrow> h \<in> set hs \<Longrightarrow>
   \<exists>c. c \<in> set (resolved_headers (resolution_plan f hs)) \<and> f c = f h \<and> t h \<le> t c"
proof (induction f hs arbitrary: h rule: resolution_plan.induct)
  case (1 f)
  then show ?case by simp
next
  case (2 f x)
  then show ?case by auto
next
  case (3 f x x' hs)
  from "3.prems"(1) have s: "sorted (map (\<lambda>h. (f h, t h)) (x' # hs))"
    and le: "(f x, t x) \<le> (f x', t x')" by simp_all
  show ?case
  proof (cases "h \<in> set (x' # hs)")
    case True
    from "3.IH"[OF s True] show ?thesis by auto
  next
    case False
    with "3.prems"(2) have hx: "h = x" by simp
    show ?thesis
    proof (cases "f x = f x'")
      case True
      have "x' \<in> set (x' # hs)" by simp
      from "3.IH"[OF s this] obtain c where
        c: "c \<in> set (resolved_headers (resolution_plan f (x' # hs)))" "f c = f x'" "t x' \<le> t c"
        by auto
      from le True have "t x \<le> t x'" by (auto simp add: less_eq_prod_def)
      with c True hx show ?thesis by auto
    next
      case False
      with hx show ?thesis by auto
    qed
  qed
qed

lemma sorted_by_collection:
  "sorted (map (\<lambda>x. (f x :: CollectionIDType, t x :: TimestampType)) xs) \<Longrightarrow> sorted (map f xs)"
  by (induction xs) (auto simp add: less_eq_prod_def)

lemma PersistPrevNT_next:
  "next_off (media (PersistPrevNT a h p) x) = next_off (media a x)"
  by (simp add: PersistPrevNT_def)

lemma PersistPrevNT_prev:
  "prev (media (PersistPrevNT a h p) x) = (if x = h then p else prev (media a x))"
  by (simp add: PersistPrevNT_def)

lemma PersistOldVersion_links:
  "next_off (media (PersistOldVersion a h p) x) = next_off (media a x)"
  "prev (media (PersistOldVersion a h p) x) = prev (media a x)"
  by (simp_all add: PersistOldVersion_def)

lemma break_linkage:
  "CheckPrevLinkage (PersistPrevNT a h h') h = (next_off (media a h') = h)"
  "CheckNextLinkage (PersistPrevNT a h h') h =
     (if next_off (media a h) = h then h' = h else prev (media a (next_off (media a h))) = h)"
  by (simp_all add: CheckPrevLinkage_def CheckNextLinkage_def PersistPrevNT_next PersistPrevNT_prev)

lemma break_other:
  "z \<noteq> h \<Longrightarrow> CheckPrevLinkage (PersistPrevNT a h h') z = CheckPrevLinkage a z"
  by (simp add: CheckPrevLinkage_def PersistPrevNT_next PersistPrevNT_prev)

lemma old_version_linkage:
  "CheckPrevLinkage (PersistOldVersion a h p) z = CheckPrevLinkage a z"
  by (simp add: CheckPrevLinkage_def PersistOldVersion_links)

lemma outdated_outcome:
  "(if kvdk_debug K \<and>
       \<not> (prev (media (pmem_allocator s) h) = h \<and> next_off (media (pmem_allocator s) h) = h \<and>
          next_off (media (pmem_allocator s) h') \<noteq> h)
    then initRebuildLists_outdated K tid s h h' = Inl AssertionFailed
    else if rebuilder_thread_cache s = []
      then initRebuildLists_outdated K tid s h h' = Inl UndefinedBehaviour
      else initRebuildLists_outdated K tid s h h' =
             Inr (s\<lparr>pmem_allocator := PersistPrevNT (pmem_allocator s) h h',
                    rebuilder_thread_cache :=
                      (rebuilder_thread_cache s)
                        [tid mod length (rebuilder_thread_cache s) :=
                           (rebuilder_thread_cache s ! (tid mod length (rebuilder_thread_cache s)))
                             \<lparr>unlinked_records :=
                                unlinked_records (rebuilder_thread_cache s !
                                  (tid mod length (rebuilder_thread_cache s))) @ [h]\<rparr>]\<rparr>))"
  by (auto simp add: initRebuildLists_outdated_def Let_def addUnlinkedRecord_def break_linkage)

lemma outdated_returns:
  assumes "initRebuildLists_outdated K tid s h h' = Inr s1"
  shows "pmem_allocator s1 = PersistPrevNT (pmem_allocator s) h h'"
    and "checkpoint s1 = checkpoint s"
    and "rebuilder_thread_cache s \<noteq> []"
    and "length (rebuilder_thread_cache s1) = length (rebuilder_thread_cache s)"
    and "unlinked_records (rebuilder_thread_cache s1 ! (tid mod length (rebuilder_thread_cache s))) =
         unlinked_records (rebuilder_thread_cache s ! (tid mod length (rebuilder_thread_cache s))) @ [h]"
    and "kvdk_debug K \<Longrightarrow> next_off (media (pmem_allocator s) h') \<noteq> h"
    and "kvdk_debug K \<Longrightarrow> prev (media (pmem_allocator s) h) = h \<and> next_off (media (pmem_allocator s) h) = h"
  using assms outdated_outcome[of K s h h' tid]
  by (auto split: if_splits)

lemma header_without_checkpoint:
  assumes "\<not> recoverToCheckpoint (checkpoint s)"
    and "initRebuildLists_header K tid s h = Some (Inr (st, s1))"
  shows "pmem_allocator s1 = pmem_allocator s \<or>
         pmem_allocator s1 = PersistOldVersion (pmem_allocator s) h kNullPMemOffset"
    and "checkpoint s1 = checkpoint s"
    and "rebuilder_thread_cache s1 = rebuilder_thread_cache s"
  using assms
  by (auto simp add: initRebuildLists_header_def findCheckpointVersion_def Let_def
      new_Skiplist_def new_node_def addRecoverySegment_def insertHashIndex_def
      split: if_splits option.splits prod.splits sum.splits Status.splits)


lemma run_plan_without_checkpoint:
  "\<not> recoverToCheckpoint (checkpoint s) \<Longrightarrow>
   kvdk_debug K \<or>
     (\<forall>(x, x') \<in> set (broken_headers acts). next_off (media (pmem_allocator s) x') \<noteq> x) \<Longrightarrow>
   run_plan K tid s acts = Some (Inr (Ok, s')) \<Longrightarrow>
   (\<forall>z. next_off (media (pmem_allocator s') z) = next_off (media (pmem_allocator s) z)) \<and>
   (\<forall>z \<in> fst ` set (broken_headers acts). \<not> CheckPrevLinkage (pmem_allocator s') z) \<and>
   (\<forall>z. z \<notin> fst ` set (broken_headers acts) \<longrightarrow>
      CheckPrevLinkage (pmem_allocator s') z = CheckPrevLinkage (pmem_allocator s) z) \<and>
   length (rebuilder_thread_cache s') = length (rebuilder_thread_cache s) \<and>
   unlinked_records (rebuilder_thread_cache s' ! (tid mod length (rebuilder_thread_cache s))) =
     unlinked_records (rebuilder_thread_cache s ! (tid mod length (rebuilder_thread_cache s))) @
       map fst (broken_headers acts)"
proof (induction K tid s acts rule: run_plan.induct)
  case (1 K tid s)
  then show ?case by auto
next
  case (2 K tid s h h' acts)
  from "2.prems"(3) obtain s1 where
    o: "initRebuildLists_outdated K tid s h h' = Inr s1" and
    r: "run_plan K tid s1 acts = Some (Inr (Ok, s'))"
    by (auto split: sum.splits)
  note f = outdated_returns[OF o]
  have n1: "\<And>z. next_off (media (pmem_allocator s1) z) = next_off (media (pmem_allocator s) z)"
    by (simp add: f(1) PersistPrevNT_next)
  have c1: "\<not> recoverToCheckpoint (checkpoint s1)"
    using "2.prems"(1) by (simp add: f(2))
  have b1: "kvdk_debug K \<or>
     (\<forall>(x, x') \<in> set (broken_headers acts). next_off (media (pmem_allocator s1) x') \<noteq> x)"
    using "2.prems"(2) by (auto simp add: n1)
  note ih = "2.IH"[OF o c1 b1 r]
  have nh: "next_off (media (pmem_allocator s) h') \<noteq> h"
    using "2.prems"(2) f(6) by auto
  have p1: "\<not> CheckPrevLinkage (pmem_allocator s1) h"
    using nh by (simp add: f(1) break_linkage)
  have o1: "\<And>z. z \<noteq> h \<Longrightarrow>
     CheckPrevLinkage (pmem_allocator s1) z = CheckPrevLinkage (pmem_allocator s) z"
    by (simp add: f(1) break_other)
  have a: "\<forall>z. next_off (media (pmem_allocator s') z) = next_off (media (pmem_allocator s) z)"
    using ih n1 by simp
  have b: "\<forall>z \<in> fst ` set (broken_headers (Break h h' # acts)).
     \<not> CheckPrevLinkage (pmem_allocator s') z"
  proof
    fix z assume z: "z \<in> fst ` set (broken_headers (Break h h' # acts))"
    show "\<not> CheckPrevLinkage (pmem_allocator s') z"
    proof (cases "z \<in> fst ` set (broken_headers acts)")
      case True
      with ih show ?thesis by blast
    next
      case False
      with z have "z = h" by auto
      with False ih p1 show ?thesis by simp
    qed
  qed
  have c: "\<forall>z. z \<notin> fst ` set (broken_headers (Break h h' # acts)) \<longrightarrow>
      CheckPrevLinkage (pmem_allocator s') z = CheckPrevLinkage (pmem_allocator s) z"
    using ih o1 by auto
  have d: "length (rebuilder_thread_cache s') = length (rebuilder_thread_cache s)"
    using ih f(4) by simp
  have e: "unlinked_records (rebuilder_thread_cache s' ! (tid mod length (rebuilder_thread_cache s))) =
     unlinked_records (rebuilder_thread_cache s ! (tid mod length (rebuilder_thread_cache s))) @
       map fst (broken_headers (Break h h' # acts))"
    using ih f(4,5) by simp
  from a b c d e show ?case by blast
next
  case (3 K tid s h acts)
  from "3.prems"(3) obtain s1 where
    o: "initRebuildLists_header K tid s h = Some (Inr (Ok, s1))" and
    r: "run_plan K tid s1 acts = Some (Inr (Ok, s'))"
    by (auto split: option.splits sum.splits prod.splits if_splits)
  note f = header_without_checkpoint[OF "3.prems"(1) o]
  have n1: "\<And>z. next_off (media (pmem_allocator s1) z) = next_off (media (pmem_allocator s) z)"
    using f(1) by (auto simp add: PersistOldVersion_links)
  have o1: "\<And>z. CheckPrevLinkage (pmem_allocator s1) z = CheckPrevLinkage (pmem_allocator s) z"
    using f(1) by (auto simp add: old_version_linkage)
  have c1: "\<not> recoverToCheckpoint (checkpoint s1)"
    using "3.prems"(1) by (simp add: f(2))
  have b1: "kvdk_debug K \<or>
     (\<forall>(x, x') \<in> set (broken_headers acts). next_off (media (pmem_allocator s1) x') \<noteq> x)"
    using "3.prems"(2) by (auto simp add: n1)
  have ok: "\<not> Ok \<noteq> Ok" by simp
  note ih = "3.IH"[OF o refl refl ok c1 b1 r]
  show ?case using ih n1 o1 f(3) by simp
qed

lemma same_collection_broken:
  assumes "distinct (map f (resolved_headers acts))"
    and "set (resolved_headers acts) \<union> fst ` set (broken_headers acts) = H"
    and "x \<in> H" and "y \<in> H" and "x \<noteq> y" and "f x = f y"
  shows "x \<in> fst ` set (broken_headers acts) \<or> y \<in> fst ` set (broken_headers acts)"
proof (rule ccontr)
  assume "\<not> ?thesis"
  with assms(2,3,4) have "x \<in> set (resolved_headers acts)" "y \<in> set (resolved_headers acts)"
    by auto
  moreover from assms(1) have "inj_on f (set (resolved_headers acts))"
    by (simp add: distinct_map)
  ultimately show False using assms(5,6) by (auto dest: inj_onD)
qed


lemma run_plan_asserted:
  "kvdk_debug K \<Longrightarrow> \<not> recoverToCheckpoint (checkpoint s) \<Longrightarrow>
   run_plan K tid s acts = Some (Inr (Ok, s')) \<Longrightarrow>
   (\<forall>z. next_off (media (pmem_allocator s') z) = next_off (media (pmem_allocator s) z)) \<and>
   (\<forall>z. z \<notin> fst ` set (broken_headers acts) \<longrightarrow>
      prev (media (pmem_allocator s') z) = prev (media (pmem_allocator s) z)) \<and>
   (\<forall>z \<in> fst ` set (broken_headers acts).
      next_off (media (pmem_allocator s') z) = z \<and> prev (media (pmem_allocator s') z) \<noteq> z)"
proof (induction K tid s acts rule: run_plan.induct)
  case (1 K tid s)
  then show ?case by auto
next
  case (2 K tid s h h' acts)
  from "2.prems"(3) obtain s1 where
    o: "initRebuildLists_outdated K tid s h h' = Inr s1" and
    r: "run_plan K tid s1 acts = Some (Inr (Ok, s'))"
    by (auto split: sum.splits)
  note f = outdated_returns[OF o]
  have n1: "\<And>z. next_off (media (pmem_allocator s1) z) = next_off (media (pmem_allocator s) z)"
    by (simp add: f(1) PersistPrevNT_next)
  have p1: "\<And>z. prev (media (pmem_allocator s1) z) =
      (if z = h then h' else prev (media (pmem_allocator s) z))"
    by (simp add: f(1) PersistPrevNT_prev)
  have c1: "\<not> recoverToCheckpoint (checkpoint s1)"
    using "2.prems"(2) by (simp add: f(2))
  note ih = "2.IH"[OF o "2.prems"(1) c1 r]
  have sl: "next_off (media (pmem_allocator s) h) = h" "next_off (media (pmem_allocator s) h') \<noteq> h"
    using f(6,7) "2.prems"(1) by simp_all
  then have ne: "h' \<noteq> h" by auto
  have a: "\<forall>z. next_off (media (pmem_allocator s') z) = next_off (media (pmem_allocator s) z)"
    using ih n1 by simp
  have b: "\<forall>z. z \<notin> fst ` set (broken_headers (Break h h' # acts)) \<longrightarrow>
      prev (media (pmem_allocator s') z) = prev (media (pmem_allocator s) z)"
    using ih p1 by auto
  have c: "\<forall>z \<in> fst ` set (broken_headers (Break h h' # acts)).
      next_off (media (pmem_allocator s') z) = z \<and> prev (media (pmem_allocator s') z) \<noteq> z"
  proof
    fix z assume z: "z \<in> fst ` set (broken_headers (Break h h' # acts))"
    show "next_off (media (pmem_allocator s') z) = z \<and> prev (media (pmem_allocator s') z) \<noteq> z"
    proof (cases "z \<in> fst ` set (broken_headers acts)")
      case True
      with ih show ?thesis by blast
    next
      case False
      with z have zh: "z = h" by auto
      from False ih have "prev (media (pmem_allocator s') z) = prev (media (pmem_allocator s1) z)"
        by simp
      with zh p1 ne a sl show ?thesis by simp
    qed
  qed
  from a b c show ?case by blast
next
  case (3 K tid s h acts)
  from "3.prems"(3) obtain s1 where
    o: "initRebuildLists_header K tid s h = Some (Inr (Ok, s1))" and
    r: "run_plan K tid s1 acts = Some (Inr (Ok, s'))"
    by (auto split: option.splits sum.splits prod.splits if_splits)
  note f = header_without_checkpoint[OF "3.prems"(2) o]
  have n1: "\<And>z. next_off (media (pmem_allocator s1) z) = next_off (media (pmem_allocator s) z)"
    "\<And>z. prev (media (pmem_allocator s1) z) = prev (media (pmem_allocator s) z)"
    using f(1) by (auto simp add: PersistOldVersion_links)
  have c1: "\<not> recoverToCheckpoint (checkpoint s1)"
    using "3.prems"(2) by (simp add: f(2))
  have ok: "\<not> Ok \<noteq> Ok" by simp
  note ih = "3.IH"[OF o refl refl ok "3.prems"(1) c1 r]
  show ?case unfolding n1[symmetric] broken_headers.simps by (rule ih)
qed

text \<open>
  Claim C3, as stated, fails in a build without assertions. In \<open>nonempty_header_store\<close>
  and in \<open>paired_header_store\<close> the headers at 64 and 128 belong to the same collection
  and both pass the linkage check of the intake. \<^verbatim>\<open>initRebuildLists\<close> returns \<^verbatim>\<open>Ok\<close> with
  the older header at 64 queued as unlinked and its \<^verbatim>\<open>prev\<close> field at 128. In the first
  store \<^verbatim>\<open>CheckNextLinkage\<close> still holds on it. In the second store both checks still hold
  on it, and on the header at 128 as well: two headers of the collection remain linked.
  A build with assertions stops at the assertion of line 141 on both stores.
\<close>

theorem initRebuildLists_linked_duplicate_counterexample:
  "FetchID (example_K False) (media nonempty_header_store 64) =
     FetchID (example_K False) (media nonempty_header_store 128) \<and>
   CheckLinkage nonempty_header_store 64 \<and> CheckLinkage nonempty_header_store 128 \<and>
   resolved [64, 128]
     (example_header_resolution (example_K False)
        (example_rebuilder False 0 nonempty_header_store) [64, 128]) =
     Some (Ok, [[64]], [49], [(128, False, True), (128, True, True)]) \<and>
   stopped_by (example_header_resolution (example_K True)
     (example_rebuilder False 0 nonempty_header_store) [64, 128]) = Some AssertionFailed \<and>
   FetchID (example_K False) (media paired_header_store 64) =
     FetchID (example_K False) (media paired_header_store 128) \<and>
   CheckLinkage paired_header_store 64 \<and> CheckLinkage paired_header_store 128 \<and>
   resolved [64, 128]
     (example_header_resolution (example_K False)
        (example_rebuilder False 0 paired_header_store) [64, 128]) =
     Some (Ok, [[64]], [49], [(128, True, True), (64, True, True)]) \<and>
   stopped_by (example_header_resolution (example_K True)
     (example_rebuilder False 0 paired_header_store) [64, 128]) = Some AssertionFailed"
  by code_simp


text \<open>
  Claim C3, amended. (1) The break of lines 138 to 153, for a header \<open>h\<close> followed in the
  sorted vector by a header \<open>h'\<close> of the same collection. A build with assertions stops
  at an assertion unless \<open>h\<close> is linked to itself and the \<^verbatim>\<open>next\<close> field of \<open>h'\<close> is not \<open>h\<close>.
  Otherwise (the assertions hold, or are not compiled in) the \<^verbatim>\<open>prev\<close> field of \<open>h\<close> is set
  to the offset of \<open>h'\<close> and \<open>h\<close> is queued as unlinked, whatever its linkage: afterwards
  \<^verbatim>\<open>CheckPrevLinkage\<close> holds on \<open>h\<close> exactly when the \<^verbatim>\<open>next\<close> field of \<open>h'\<close> is \<open>h\<close>, and
  \<^verbatim>\<open>CheckNextLinkage\<close> exactly when the successor of \<open>h\<close> still points back to it; with
  assertions both fail. (2) With collection IDs that the repairs do not change,
  \<^verbatim>\<open>initRebuildLists\<close> does to the vector sorted by collection ID and timestamp what
  \<open>resolution_plan\<close> says: it breaks every header that is followed by one of the same
  collection and resolves the others. The headers that survive this deduplication have
  pairwise different collection IDs; each broken header is not younger than the header
  of its collection after it; every header is broken or resolved; and for each header a
  surviving header of its collection is at least as young. (3) On the media, when there
  is no checkpoint to recover (so that no header is replaced by an older version) and
  \<^verbatim>\<open>initRebuildLists\<close> returns \<^verbatim>\<open>Ok\<close> with the state \<open>s'\<close>, in a build with assertions, or in
  one without them if no broken header is the \<^verbatim>\<open>next\<close> record of the header it is broken
  towards: every broken header fails \<^verbatim>\<open>CheckPrevLinkage\<close> in \<open>s'\<close>, and with assertions
  \<^verbatim>\<open>CheckNextLinkage\<close> as well; the worker's unlinked queue has grown by exactly the
  broken headers; and of two different headers of the same collection at least one is
  not linked in \<open>s'\<close>.
\<close>

theorem initRebuildLists_deduplicates_headers:
  "(if kvdk_debug K \<and>
       \<not> (prev (media (pmem_allocator s) h) = h \<and> next_off (media (pmem_allocator s) h) = h \<and>
          next_off (media (pmem_allocator s) h') \<noteq> h)
    then initRebuildLists_outdated K tid s h h' = Inl AssertionFailed
    else if rebuilder_thread_cache s = []
      then initRebuildLists_outdated K tid s h h' = Inl UndefinedBehaviour
      else (\<exists>s1. initRebuildLists_outdated K tid s h h' = Inr s1 \<and>
              pmem_allocator s1 = PersistPrevNT (pmem_allocator s) h h' \<and>
              prev (media (pmem_allocator s1) h) = h' \<and>
              unlinked_records
                  (rebuilder_thread_cache s1 ! (tid mod length (rebuilder_thread_cache s))) =
                unlinked_records
                  (rebuilder_thread_cache s ! (tid mod length (rebuilder_thread_cache s))) @ [h] \<and>
              CheckPrevLinkage (pmem_allocator s1) h =
                (next_off (media (pmem_allocator s) h') = h) \<and>
              CheckNextLinkage (pmem_allocator s1) h =
                (if next_off (media (pmem_allocator s) h) = h then h' = h
                 else prev (media (pmem_allocator s) (next_off (media (pmem_allocator s) h))) = h) \<and>
              (kvdk_debug K \<longrightarrow>
                 \<not> CheckPrevLinkage (pmem_allocator s1) h \<and>
                 \<not> CheckNextLinkage (pmem_allocator s1) h))) \<and>
   (let a = pmem_allocator s;
        f = (\<lambda>x. FetchID K (media a x));
        sorted_headers = sort_key (header_order K a) (linked_headers s);
        acts = resolution_plan f sorted_headers;
        i = tid mod length (rebuilder_thread_cache s)
    in (stable_ids K \<longrightarrow>
          initRebuildLists K tid s =
            run_plan K tid (s\<lparr>linked_headers := sorted_headers\<rparr>) acts) \<and>
       distinct (map f (resolved_headers acts)) \<and>
       (\<forall>(x, x') \<in> set (broken_headers acts).
          f x = f x' \<and> Timestamp (media a x) \<le> Timestamp (media a x')) \<and>
       set (resolved_headers acts) \<union> fst ` set (broken_headers acts) =
         set (linked_headers s) \<and>
       (\<forall>x \<in> set (linked_headers s).
          \<exists>c. c \<in> set (resolved_headers acts) \<and> f c = f x \<and>
              Timestamp (media a x) \<le> Timestamp (media a c)) \<and>
       (stable_ids K \<and> \<not> recoverToCheckpoint (checkpoint s) \<and>
        (kvdk_debug K \<or>
         (\<forall>(x, x') \<in> set (broken_headers acts). next_off (media a x') \<noteq> x)) \<and>
        initRebuildLists K tid s = Some (Inr (Ok, s')) \<longrightarrow>
          (\<forall>x \<in> fst ` set (broken_headers acts).
             \<not> CheckPrevLinkage (pmem_allocator s') x \<and>
             (kvdk_debug K \<longrightarrow> \<not> CheckNextLinkage (pmem_allocator s') x)) \<and>
          unlinked_records (rebuilder_thread_cache s' ! i) =
            unlinked_records (rebuilder_thread_cache s ! i) @ map fst (broken_headers acts) \<and>
          (\<forall>x \<in> set (linked_headers s). \<forall>y \<in> set (linked_headers s).
             x \<noteq> y \<and> f x = f y \<longrightarrow>
               \<not> CheckLinkage (pmem_allocator s') x \<or> \<not> CheckLinkage (pmem_allocator s') y)))"
proof (rule conjI)
  let ?P = "prev (media (pmem_allocator s) h) = h \<and> next_off (media (pmem_allocator s) h) = h \<and>
          next_off (media (pmem_allocator s) h') \<noteq> h"
  have d: "kvdk_debug K \<Longrightarrow> ?P \<Longrightarrow>
     \<not> CheckPrevLinkage (PersistPrevNT (pmem_allocator s) h h') h \<and>
     \<not> CheckNextLinkage (PersistPrevNT (pmem_allocator s) h h') h"
    by (auto simp add: break_linkage)
  show "if kvdk_debug K \<and> \<not> ?P
    then initRebuildLists_outdated K tid s h h' = Inl AssertionFailed
    else if rebuilder_thread_cache s = []
      then initRebuildLists_outdated K tid s h h' = Inl UndefinedBehaviour
      else (\<exists>s1. initRebuildLists_outdated K tid s h h' = Inr s1 \<and>
              pmem_allocator s1 = PersistPrevNT (pmem_allocator s) h h' \<and>
              prev (media (pmem_allocator s1) h) = h' \<and>
              unlinked_records
                  (rebuilder_thread_cache s1 ! (tid mod length (rebuilder_thread_cache s))) =
                unlinked_records
                  (rebuilder_thread_cache s ! (tid mod length (rebuilder_thread_cache s))) @ [h] \<and>
              CheckPrevLinkage (pmem_allocator s1) h =
                (next_off (media (pmem_allocator s) h') = h) \<and>
              CheckNextLinkage (pmem_allocator s1) h =
                (if next_off (media (pmem_allocator s) h) = h then h' = h
                 else prev (media (pmem_allocator s) (next_off (media (pmem_allocator s) h))) = h) \<and>
              (kvdk_debug K \<longrightarrow>
                 \<not> CheckPrevLinkage (pmem_allocator s1) h \<and>
                 \<not> CheckNextLinkage (pmem_allocator s1) h))"
  proof (cases "kvdk_debug K \<and> \<not> ?P")
    case True
    with outdated_outcome[of K s h h' tid] show ?thesis by simp
  next
    case False
    note nf = this
    show ?thesis
    proof (cases "rebuilder_thread_cache s = []")
      case True
      with nf outdated_outcome[of K s h h' tid] show ?thesis by simp
    next
      case False
      with nf outdated_outcome[of K s h h' tid] obtain s1 where
        o: "initRebuildLists_outdated K tid s h h' = Inr s1" by auto
      note f = outdated_returns[OF o]
      have "pmem_allocator s1 = PersistPrevNT (pmem_allocator s) h h'" by (rule f(1))
      moreover have "prev (media (pmem_allocator s1) h) = h'"
        by (simp add: f(1) PersistPrevNT_prev)
      moreover note f(5)
      moreover have "CheckPrevLinkage (pmem_allocator s1) h =
                (next_off (media (pmem_allocator s) h') = h)"
        by (simp add: f(1) break_linkage)
      moreover have "CheckNextLinkage (pmem_allocator s1) h =
                (if next_off (media (pmem_allocator s) h) = h then h' = h
                 else prev (media (pmem_allocator s) (next_off (media (pmem_allocator s) h))) = h)"
        by (simp only: f(1) break_linkage)
      moreover have "kvdk_debug K \<longrightarrow>
                 \<not> CheckPrevLinkage (pmem_allocator s1) h \<and>
                 \<not> CheckNextLinkage (pmem_allocator s1) h"
        using d nf by (auto simp only: f(1))
      ultimately show ?thesis using nf False o by simp
    qed
  qed
next
  define a where "a = pmem_allocator s"
  define f where "f = (\<lambda>x. FetchID K (media a x))"
  define t where "t = (\<lambda>x. Timestamp (media a x))"
  define sorted_headers where "sorted_headers = sort_key (header_order K a) (linked_headers s)"
  define acts where "acts = resolution_plan f sorted_headers"
  define i where "i = tid mod length (rebuilder_thread_cache s)"
  have k: "header_order K a = (\<lambda>x. (f x, t x))"
    by (rule ext) (simp add: header_order_def f_def t_def)
  have srt: "sorted (map (\<lambda>x. (f x, t x)) sorted_headers)"
    unfolding sorted_headers_def k by (rule sorted_sort_key)
  have st: "set sorted_headers = set (linked_headers s)"
    by (simp add: sorted_headers_def)
  have srtf: "sorted (map f sorted_headers)"
    by (rule sorted_by_collection[OF srt])
  have pl: "stable_ids K \<Longrightarrow>
      initRebuildLists K tid s = run_plan K tid (s\<lparr>linked_headers := sorted_headers\<rparr>) acts"
    unfolding initRebuildLists_def Let_def acts_def sorted_headers_def a_def
    by (intro loop_follows_plan) (simp_all add: f_def a_def)
  have 1: "stable_ids K \<longrightarrow>
          initRebuildLists K tid s = run_plan K tid (s\<lparr>linked_headers := sorted_headers\<rparr>) acts"
    using pl by blast
  have 2: "distinct (map f (resolved_headers acts))"
    unfolding acts_def by (rule resolved_distinct[OF srtf])
  have 3: "\<forall>(x, x') \<in> set (broken_headers acts). f x = f x' \<and> t x \<le> t x'"
    unfolding acts_def using broken_same_collection[OF srt] by auto
  have 4: "set (resolved_headers acts) \<union> fst ` set (broken_headers acts) = set (linked_headers s)"
    unfolding acts_def using plan_covers[of f sorted_headers] st by simp
  have 5: "\<forall>x \<in> set (linked_headers s).
          \<exists>c. c \<in> set (resolved_headers acts) \<and> f c = f x \<and> t x \<le> t c"
    unfolding acts_def using youngest_resolved[OF srt] st by auto
  have 6: "stable_ids K \<and> \<not> recoverToCheckpoint (checkpoint s) \<and>
        (kvdk_debug K \<or>
         (\<forall>(x, x') \<in> set (broken_headers acts). next_off (media a x') \<noteq> x)) \<and>
        initRebuildLists K tid s = Some (Inr (Ok, s')) \<longrightarrow>
          (\<forall>x \<in> fst ` set (broken_headers acts).
             \<not> CheckPrevLinkage (pmem_allocator s') x \<and>
             (kvdk_debug K \<longrightarrow> \<not> CheckNextLinkage (pmem_allocator s') x)) \<and>
          unlinked_records (rebuilder_thread_cache s' ! i) =
            unlinked_records (rebuilder_thread_cache s ! i) @ map fst (broken_headers acts) \<and>
          (\<forall>x \<in> set (linked_headers s). \<forall>y \<in> set (linked_headers s).
             x \<noteq> y \<and> f x = f y \<longrightarrow>
               \<not> CheckLinkage (pmem_allocator s') x \<or> \<not> CheckLinkage (pmem_allocator s') y)"
  proof
    assume h: "stable_ids K \<and> \<not> recoverToCheckpoint (checkpoint s) \<and>
        (kvdk_debug K \<or>
         (\<forall>(x, x') \<in> set (broken_headers acts). next_off (media a x') \<noteq> x)) \<and>
        initRebuildLists K tid s = Some (Inr (Ok, s'))"
    let ?s0 = "s\<lparr>linked_headers := sorted_headers\<rparr>"
    from h pl have r: "run_plan K tid ?s0 acts = Some (Inr (Ok, s'))" by simp
    have c0: "\<not> recoverToCheckpoint (checkpoint ?s0)" using h by simp
    have b0: "kvdk_debug K \<or>
       (\<forall>(x, x') \<in> set (broken_headers acts). next_off (media (pmem_allocator ?s0) x') \<noteq> x)"
      using h by (simp add: a_def)
    note m = run_plan_without_checkpoint[OF c0 b0 r]
    have p: "\<forall>x \<in> fst ` set (broken_headers acts). \<not> CheckPrevLinkage (pmem_allocator s') x"
      using m by blast
    have n: "kvdk_debug K \<Longrightarrow>
       \<forall>x \<in> fst ` set (broken_headers acts). \<not> CheckNextLinkage (pmem_allocator s') x"
    proof -
      assume dbg: "kvdk_debug K"
      note q = run_plan_asserted[OF dbg c0 r]
      show "\<forall>x \<in> fst ` set (broken_headers acts). \<not> CheckNextLinkage (pmem_allocator s') x"
      proof
        fix x assume "x \<in> fst ` set (broken_headers acts)"
        with q have "next_off (media (pmem_allocator s') x) = x \<and>
           prev (media (pmem_allocator s') x) \<noteq> x" by blast
        then show "\<not> CheckNextLinkage (pmem_allocator s') x"
          by (simp add: CheckNextLinkage_def)
      qed
    qed
    have u: "unlinked_records (rebuilder_thread_cache s' ! i) =
            unlinked_records (rebuilder_thread_cache s ! i) @ map fst (broken_headers acts)"
      using m by (simp add: i_def)
    have l: "\<forall>x \<in> set (linked_headers s). \<forall>y \<in> set (linked_headers s).
             x \<noteq> y \<and> f x = f y \<longrightarrow>
               \<not> CheckLinkage (pmem_allocator s') x \<or> \<not> CheckLinkage (pmem_allocator s') y"
    proof (intro ballI impI)
      fix x y assume x: "x \<in> set (linked_headers s)" and y: "y \<in> set (linked_headers s)"
        and xy: "x \<noteq> y \<and> f x = f y"
      from same_collection_broken[OF 2 4 x y] xy
      have "x \<in> fst ` set (broken_headers acts) \<or> y \<in> fst ` set (broken_headers acts)" by simp
      with p show "\<not> CheckLinkage (pmem_allocator s') x \<or> \<not> CheckLinkage (pmem_allocator s') y"
        by (auto simp add: CheckLinkage_def)
    qed
    from p n u l
    show "(\<forall>x \<in> fst ` set (broken_headers acts).
             \<not> CheckPrevLinkage (pmem_allocator s') x \<and>
             (kvdk_debug K \<longrightarrow> \<not> CheckNextLinkage (pmem_allocator s') x)) \<and>
          unlinked_records (rebuilder_thread_cache s' ! i) =
            unlinked_records (rebuilder_thread_cache s ! i) @ map fst (broken_headers acts) \<and>
          (\<forall>x \<in> set (linked_headers s). \<forall>y \<in> set (linked_headers s).
             x \<noteq> y \<and> f x = f y \<longrightarrow>
               \<not> CheckLinkage (pmem_allocator s') x \<or> \<not> CheckLinkage (pmem_allocator s') y)"
      by blast
  qed
  from 1 2 3 4 5 6
  show "let a = pmem_allocator s;
        f = (\<lambda>x. FetchID K (media a x));
        sorted_headers = sort_key (header_order K a) (linked_headers s);
        acts = resolution_plan f sorted_headers;
        i = tid mod length (rebuilder_thread_cache s)
    in (stable_ids K \<longrightarrow>
          initRebuildLists K tid s =
            run_plan K tid (s\<lparr>linked_headers := sorted_headers\<rparr>) acts) \<and>
       distinct (map f (resolved_headers acts)) \<and>
       (\<forall>(x, x') \<in> set (broken_headers acts).
          f x = f x' \<and> Timestamp (media a x) \<le> Timestamp (media a x')) \<and>
       set (resolved_headers acts) \<union> fst ` set (broken_headers acts) =
         set (linked_headers s) \<and>
       (\<forall>x \<in> set (linked_headers s).
          \<exists>c. c \<in> set (resolved_headers acts) \<and> f c = f x \<and>
              Timestamp (media a x) \<le> Timestamp (media a c)) \<and>
       (stable_ids K \<and> \<not> recoverToCheckpoint (checkpoint s) \<and>
        (kvdk_debug K \<or>
         (\<forall>(x, x') \<in> set (broken_headers acts). next_off (media a x') \<noteq> x)) \<and>
        initRebuildLists K tid s = Some (Inr (Ok, s')) \<longrightarrow>
          (\<forall>x \<in> fst ` set (broken_headers acts).
             \<not> CheckPrevLinkage (pmem_allocator s') x \<and>
             (kvdk_debug K \<longrightarrow> \<not> CheckNextLinkage (pmem_allocator s') x)) \<and>
          unlinked_records (rebuilder_thread_cache s' ! i) =
            unlinked_records (rebuilder_thread_cache s ! i) @ map fst (broken_headers acts) \<and>
          (\<forall>x \<in> set (linked_headers s). \<forall>y \<in> set (linked_headers s).
             x \<noteq> y \<and> f x = f y \<longrightarrow>
               \<not> CheckLinkage (pmem_allocator s') x \<or> \<not> CheckLinkage (pmem_allocator s') y))"
    unfolding Let_def acts_def sorted_headers_def f_def t_def a_def i_def by blast
qed


lemma example_stable_ids: "stable_ids (example_K dbg)"
  by (auto simp add: stable_ids_def example_K_def example_FetchID_def example_Replace_def Let_def)

theorem initRebuildLists_deduplicates_headers_witness:
  "prev (media duplicate_header_store 64) = 64 \<and>
   next_off (media duplicate_header_store 64) = 64 \<and>
   next_off (media duplicate_header_store 128) \<noteq> 64 \<and>
   stable_ids (example_K True) \<and>
   \<not> recoverToCheckpoint \<lparr>CheckpointTS = 0\<rparr> \<and>
   (\<exists>s1. initRebuildLists_outdated (example_K True) 0
        ((example_rebuilder False 0 duplicate_header_store)\<lparr>linked_headers := [128, 192, 64]\<rparr>)
        64 128 = Inr s1 \<and>
      prev (media (pmem_allocator s1) 64) = 128 \<and>
      \<not> CheckPrevLinkage (pmem_allocator s1) 64 \<and>
      \<not> CheckNextLinkage (pmem_allocator s1) 64 \<and>
      unlinked_records (rebuilder_thread_cache s1 ! 0) = [64]) \<and>
   sort_key (header_order (example_K True) duplicate_header_store) [128, 192, 64] =
     [64, 128, 192] \<and>
   resolution_plan (\<lambda>x. FetchID (example_K True) (media duplicate_header_store x))
     [64, 128, 192] = [Break 64 128, Resolve 128, Resolve 192] \<and>
   initRebuildLists (example_K True) 0
       ((example_rebuilder False 0 duplicate_header_store)\<lparr>linked_headers := [128, 192, 64]\<rparr>) =
     run_plan (example_K True) 0
       ((example_rebuilder False 0 duplicate_header_store)\<lparr>linked_headers := [64, 128, 192]\<rparr>)
       [Break 64 128, Resolve 128, Resolve 192] \<and>
   distinct (map (\<lambda>x. FetchID (example_K True) (media duplicate_header_store x)) [128, 192]) \<and>
   Timestamp (media duplicate_header_store 64) \<le> Timestamp (media duplicate_header_store 128) \<and>
   (\<exists>s'. initRebuildLists (example_K True) 0
        ((example_rebuilder False 0 duplicate_header_store)\<lparr>linked_headers := [128, 192, 64]\<rparr>) =
        Some (Inr (Ok, s')) \<and>
      \<not> CheckPrevLinkage (pmem_allocator s') 64 \<and>
      \<not> CheckNextLinkage (pmem_allocator s') 64 \<and>
      unlinked_records (rebuilder_thread_cache s' ! 0) = [64] \<and>
      CheckLinkage (pmem_allocator s') 128 \<and>
      \<not> CheckLinkage (pmem_allocator s') 64) \<and>
   next_off (media nonempty_header_store 128) \<noteq> 64 \<and>
   (\<exists>s'. initRebuildLists (example_K False) 0
        ((example_rebuilder False 0 nonempty_header_store)\<lparr>linked_headers := [64, 128]\<rparr>) =
        Some (Inr (Ok, s')) \<and>
      \<not> CheckPrevLinkage (pmem_allocator s') 64 \<and>
      unlinked_records (rebuilder_thread_cache s' ! 0) = [64]) \<and>
   next_off (media paired_header_store 64) \<noteq> 64 \<and>
   next_off (media paired_header_store 128) = 64 \<and>
   prev (media paired_header_store 128) = 64 \<and>
   initRebuildLists_outdated (example_K True) 0
     (example_rebuilder False 0 paired_header_store) 64 128 = Inl AssertionFailed \<and>
   (\<exists>s1. initRebuildLists_outdated (example_K False) 0
        (example_rebuilder False 0 paired_header_store) 64 128 = Inr s1 \<and>
      prev (media (pmem_allocator s1) 64) = 128 \<and>
      CheckPrevLinkage (pmem_allocator s1) 64 \<and>
      CheckNextLinkage (pmem_allocator s1) 64 \<and>
      unlinked_records (rebuilder_thread_cache s1 ! 0) = [64])"
proof -
  let ?K = "example_K True"
  let ?s = "(example_rebuilder False 0 duplicate_header_store)\<lparr>linked_headers := [128, 192, 64]\<rparr>"
  let ?f = "\<lambda>x. FetchID ?K (media duplicate_header_store x)"
  have s: "pmem_allocator ?s = duplicate_header_store" "linked_headers ?s = [128, 192, 64]"
    "rebuilder_thread_cache ?s = [\<lparr>unlinked_records = [], visited_skiplists = (\<lambda>c. 0)\<rparr>]"
    "checkpoint ?s = \<lparr>CheckpointTS = 0\<rparr>"
    "\<And>l. ?s\<lparr>linked_headers := l\<rparr> =
       (example_rebuilder False 0 duplicate_header_store)\<lparr>linked_headers := l\<rparr>"
    by (simp_all add: example_rebuilder_def)
  have m: "prev (media duplicate_header_store 64) = 64"
    "next_off (media duplicate_header_store 64) = 64"
    "next_off (media duplicate_header_store 128) \<noteq> 64"
    by code_simp+
  have dbg: "kvdk_debug ?K" by code_simp
  have fid: "FetchID ?K (media duplicate_header_store 64) = 49"
    "FetchID ?K (media duplicate_header_store 128) = 49"
    "FetchID ?K (media duplicate_header_store 192) = 50"
    by code_simp+
  have ck: "\<not> recoverToCheckpoint \<lparr>CheckpointTS = 0\<rparr>" by code_simp
  have srt: "sort_key (header_order ?K duplicate_header_store) [128, 192, 64] = [64, 128, 192]"
    by code_simp
  have pl: "resolution_plan ?f [64, 128, 192] = [Break 64 128, Resolve 128, Resolve 192]"
    by code_simp
  have rv: "resolved [128] (initRebuildLists ?K 0 ?s) =
      Some (Ok, [[64]], [49, 50], [(128, True, True)])"
    by code_simp
  then obtain s' where s': "initRebuildLists ?K 0 ?s = Some (Inr (Ok, s'))"
    and l128: "CheckLinkage (pmem_allocator s') 128"
    by (auto simp add: resolved_def CheckLinkage_def split: option.splits sum.splits)
  note t = initRebuildLists_deduplicates_headers[where K = ?K and s = ?s and h = 64
      and h' = 128 and tid = 0 and s' = s']
  have r1: "\<exists>s1. initRebuildLists_outdated ?K 0 ?s 64 128 = Inr s1 \<and>
      prev (media (pmem_allocator s1) 64) = 128 \<and>
      \<not> CheckPrevLinkage (pmem_allocator s1) 64 \<and>
      \<not> CheckNextLinkage (pmem_allocator s1) 64 \<and>
      unlinked_records (rebuilder_thread_cache s1 ! 0) = [64]"
    using t[THEN conjunct1] m dbg unfolding s by auto
  note t2 = t[THEN conjunct2, unfolded Let_def s srt pl]
  have r2: "initRebuildLists ?K 0 ?s =
     run_plan ?K 0 ((example_rebuilder False 0 duplicate_header_store)\<lparr>linked_headers := [64, 128, 192]\<rparr>)
       [Break 64 128, Resolve 128, Resolve 192]"
    using t2[THEN conjunct1, THEN mp, OF example_stable_ids] .
  have r3: "distinct (map ?f [128, 192])"
    using t2[THEN conjunct2, THEN conjunct1] by simp
  have r4: "Timestamp (media duplicate_header_store 64) \<le> Timestamp (media duplicate_header_store 128)"
    using t2[THEN conjunct2, THEN conjunct2, THEN conjunct1] by simp
  note t6 = t2[THEN conjunct2, THEN conjunct2, THEN conjunct2, THEN conjunct2, THEN conjunct2]
  have r6: "\<not> CheckPrevLinkage (pmem_allocator s') 64 \<and>
      \<not> CheckNextLinkage (pmem_allocator s') 64 \<and>
      unlinked_records (rebuilder_thread_cache s' ! 0) = [64] \<and>
      (\<not> CheckLinkage (pmem_allocator s') 64 \<or> \<not> CheckLinkage (pmem_allocator s') 128)"
    using t6 example_stable_ids[of True] ck dbg s' fid by simp
  have r7: "\<exists>s'. initRebuildLists ?K 0 ?s = Some (Inr (Ok, s')) \<and>
      \<not> CheckPrevLinkage (pmem_allocator s') 64 \<and>
      \<not> CheckNextLinkage (pmem_allocator s') 64 \<and>
      unlinked_records (rebuilder_thread_cache s' ! 0) = [64] \<and>
      CheckLinkage (pmem_allocator s') 128 \<and>
      \<not> CheckLinkage (pmem_allocator s') 64"
    using s' l128 r6 by blast
  let ?R = "example_K False"
  let ?n = "(example_rebuilder False 0 nonempty_header_store)\<lparr>linked_headers := [64, 128]\<rparr>"
  have n: "pmem_allocator ?n = nonempty_header_store" "linked_headers ?n = [64, 128]"
    "rebuilder_thread_cache ?n = [\<lparr>unlinked_records = [], visited_skiplists = (\<lambda>c. 0)\<rparr>]"
    "checkpoint ?n = \<lparr>CheckpointTS = 0\<rparr>"
    by (simp_all add: example_rebuilder_def)
  have nsrt: "sort_key (header_order ?R nonempty_header_store) [64, 128] = [64, 128]"
    by code_simp
  have npl: "resolution_plan (\<lambda>x. FetchID ?R (media nonempty_header_store x)) [64, 128] =
      [Break 64 128, Resolve 128]"
    by code_simp
  have nn: "next_off (media nonempty_header_store 128) \<noteq> 64" by code_simp
  have "resolved [] (initRebuildLists ?R 0 ?n) = Some (Ok, [[64]], [49], [])"
    by code_simp
  then obtain n' where n': "initRebuildLists ?R 0 ?n = Some (Inr (Ok, n'))"
    by (auto simp add: resolved_def split: option.splits sum.splits)
  note u = initRebuildLists_deduplicates_headers[where K = ?R and s = ?n and h = 64
      and h' = 128 and tid = 0 and s' = n', THEN conjunct2, unfolded Let_def n nsrt npl]
  note u6 = u[THEN conjunct2, THEN conjunct2, THEN conjunct2, THEN conjunct2, THEN conjunct2]
  have "\<not> CheckPrevLinkage (pmem_allocator n') 64 \<and>
      unlinked_records (rebuilder_thread_cache n' ! 0) = [64]"
    using u6 example_stable_ids[of False] ck nn n' by simp
  with n' have r8: "\<exists>s'. initRebuildLists ?R 0 ?n = Some (Inr (Ok, s')) \<and>
      \<not> CheckPrevLinkage (pmem_allocator s') 64 \<and>
      unlinked_records (rebuilder_thread_cache s' ! 0) = [64]"
    by blast
  let ?p = "example_rebuilder False 0 paired_header_store"
  have p: "pmem_allocator ?p = paired_header_store"
    "rebuilder_thread_cache ?p = [\<lparr>unlinked_records = [], visited_skiplists = (\<lambda>c. 0)\<rparr>]"
    by (simp_all add: example_rebuilder_def)
  have pm: "next_off (media paired_header_store 64) \<noteq> 64"
    "next_off (media paired_header_store 128) = 64"
    "prev (media paired_header_store 128) = 64"
    by code_simp+
  have pn: "next_off (media paired_header_store 64) = 128" by code_simp
  have rel: "\<not> kvdk_debug ?R" by code_simp
  have r9: "initRebuildLists_outdated ?K 0 ?p 64 128 = Inl AssertionFailed"
    using initRebuildLists_deduplicates_headers[where K = ?K and s = ?p and h = 64
        and h' = 128 and tid = 0, THEN conjunct1] pm dbg unfolding p by simp
  have r10: "\<exists>s1. initRebuildLists_outdated ?R 0 ?p 64 128 = Inr s1 \<and>
      prev (media (pmem_allocator s1) 64) = 128 \<and>
      CheckPrevLinkage (pmem_allocator s1) 64 \<and>
      CheckNextLinkage (pmem_allocator s1) 64 \<and>
      unlinked_records (rebuilder_thread_cache s1 ! 0) = [64]"
    using initRebuildLists_deduplicates_headers[where K = ?R and s = ?p and h = 64
        and h' = 128 and tid = 0, THEN conjunct1] pm pn rel unfolding p by auto
  show ?thesis by (intro conjI m example_stable_ids ck r1 srt pl r2 r3 r4 r7 nn r8 pm r9 r10)
qed

section \<open>List-based and segment-based rebuild\<close>

text \<open>
  Claim C2 at a failing input. The collection \<open>list\<close> has one element, which is outdated.
  With \<^verbatim>\<open>kRestoreSkiplistStride\<close> 1 the intake nominates it as a recovery segment start.
  The list-based rebuild removes it from the list (the header is linked to itself), counts
  no element, leaves the hash index with the skiplist alone, and the element is destroyed.
  The segment-based rebuild counts it, inserts it into the hash index and leaves it
  linked. When the element is not outdated, the two rebuilds agree.
\<close>

theorem segment_rebuild_keeps_outdated_start:
  "recovered [64, 128]
     (example_recovery (example_K True) (example_rebuilder False 0 tombstone_store) [64] [128]) =
     Some (Ok, [(''list'', 0)], [(''list'', SortedRecord)],
           [(64, 64, False), (64, 64, True)]) \<and>
   recovered [64, 128]
     (example_recovery (example_K True) (example_rebuilder True 0 tombstone_store) [64] [128]) =
     Some (Ok, [(''list'', 1)], [(''list'', SortedRecord), (''1a'', SortedElem)],
           [(128, 128, False), (64, 64, False)]) \<and>
   recovered [64, 128]
     (example_recovery (example_K True) (example_rebuilder False 0 single_store) [64] [128]) =
     Some (Ok, [(''list'', 1)], [(''list'', SortedRecord), (''1a'', SortedElem)],
           [(128, 128, False), (64, 64, False)]) \<and>
   recovered [64, 128]
     (example_recovery (example_K True) (example_rebuilder True 0 single_store) [64] [128]) =
     Some (Ok, [(''list'', 1)], [(''list'', SortedRecord), (''1a'', SortedElem)],
           [(128, 128, False), (64, 64, False)])"
  by code_simp

end
